theory Spec2Isabelle
  imports Complex_Main "HOL-Library.Word" "HOL-Library.Multiset" "HOL-Library.Product_Lexorder"
begin

section \<open>Data model\<close>

text \<open>
  The neighbor-query core of freud (\<^verbatim>\<open>src/cpp/locality\<close>). Coordinates, radii and
  distances are C \<^verbatim>\<open>float\<close>s in the source. In the query classes (\<^verbatim>\<open>AABBQuery.cc\<close>),
  whose code computes with them, a \<^verbatim>\<open>float\<close> is a value of the type \<open>float\<close> below and
  every operation rounds as IEEE-754 binary32 arithmetic does. In the query arguments
  and the bond list, whose code only stores, copies and compares them, a \<^verbatim>\<open>float\<close> is
  the real number it holds. Indices and counts (\<^verbatim>\<open>unsigned int\<close>, \<^verbatim>\<open>size_t\<close>) are
  naturals, except where the source relies on wrap-around (\<^verbatim>\<open>m_k\<close>), which is a 32-bit
  word.

  Every \<^verbatim>\<open>throw std::runtime_error(...)\<close> of the source is a value of \<open>error\<close>; the
  constructor names are the error kinds of the specification, and each raise below quotes
  the message of the source. \<open>UndefinedBehavior\<close> stands for executions the C++ standard
  leaves undefined (a read past an array, flowing off the end of a value-returning
  function).
\<close>

datatype error =
    BoxTooSmall
  | InvalidQueryArgs
  | IndexOutOfRange
  | Unsorted
  | Unsupported
  | UndefinedBehavior

subsection \<open>Single-precision floating point\<close>

text \<open>
  A \<^verbatim>\<open>float\<close> is a real number, an infinity or a NaN. The sign of a zero is not kept:
  no operation used here tells the two zeros apart.
\<close>

datatype float = Finite real | PlusInf | MinusInf | NaN

text \<open>
  Rounding to the nearest integer, a tie going to the even one.
\<close>

definition rhe :: "real \<Rightarrow> int" where
  "rhe y =
     (let f = \<lfloor>y\<rfloor>; d = y - of_int f in
      if d < 1 / 2 then f else if 1 / 2 < d then f + 1 else if even f then f else f + 1)"

text \<open>
  The binary exponent of a real \<open>a \<ge> 0\<close>, found by halving or doubling: the \<open>e\<close> with
  \<open>2 ^ e \<le> a < 2 ^ (e + 1)\<close>, but no less than \<open>-126\<close>, where the subnormal numbers
  begin, and no more than \<open>128\<close>, from where on every number overflows.
\<close>

fun halvings :: "nat \<Rightarrow> real \<Rightarrow> nat" where
  "halvings 0 x = 0"
| "halvings (Suc n) x = (if x < 2 then 0 else Suc (halvings n (x / 2)))"

fun doublings :: "nat \<Rightarrow> real \<Rightarrow> nat" where
  "doublings 0 x = 0"
| "doublings (Suc n) x = (if 1 \<le> x then 0 else Suc (doublings n (2 * x)))"

definition exponent :: "real \<Rightarrow> int" where
  "exponent a = (if 1 \<le> a then int (halvings 128 a) else - int (doublings 126 a))"

text \<open>
  Rounding a real to binary32, to nearest with ties to even: the result is a multiple
  of \<open>2 ^ (e - 23)\<close> for the exponent \<open>e\<close> of the argument, so it has 24 significant
  bits, or fewer below \<open>2 ^ -126\<close>, where the step is \<open>2 ^ -149\<close>. A result of magnitude
  \<open>2 ^ 128\<close> or more does not fit and becomes an infinity; this happens from
  \<open>2 ^ 128 - 2 ^ 103\<close> on.
\<close>

definition round_to_single :: "real \<Rightarrow> real" where
  "round_to_single x =
     (let a = \<bar>x\<bar>; q = 2 powi (exponent a - 23) in sgn x * (of_int (rhe (a / q)) * q))"

definition rnd :: "real \<Rightarrow> float" where
  "rnd x =
     (let y = round_to_single x in
      if 2 ^ 128 \<le> y then PlusInf else if y \<le> - (2 ^ 128) then MinusInf else Finite y)"

text \<open>
  The operations of the source on \<^verbatim>\<open>float\<close>s: \<^verbatim>\<open>-a\<close>, \<^verbatim>\<open>a + b\<close>, \<^verbatim>\<open>a - b\<close>, \<^verbatim>\<open>a * b\<close>,
  \<^verbatim>\<open>a / 2\<close> and \<^verbatim>\<open>sqrt(a)\<close>, each the exact result rounded once, with the IEEE-754
  results for infinities and NaNs.
\<close>

fun fneg :: "float \<Rightarrow> float" where
  "fneg (Finite x) = Finite (- x)"
| "fneg PlusInf = MinusInf"
| "fneg MinusInf = PlusInf"
| "fneg NaN = NaN"

fun fadd :: "float \<Rightarrow> float \<Rightarrow> float" where
  "fadd (Finite x) (Finite y) = rnd (x + y)"
| "fadd NaN b = NaN"
| "fadd a NaN = NaN"
| "fadd PlusInf MinusInf = NaN"
| "fadd MinusInf PlusInf = NaN"
| "fadd PlusInf b = PlusInf"
| "fadd a PlusInf = PlusInf"
| "fadd MinusInf b = MinusInf"
| "fadd a MinusInf = MinusInf"

definition fsub :: "float \<Rightarrow> float \<Rightarrow> float" where
  "fsub a b = fadd a (fneg b)"

text \<open>The product of an infinity and a finite factor of sign \<open>s\<close>; zero times infinity is NaN.\<close>

definition inf_of_sign :: "real \<Rightarrow> float" where
  "inf_of_sign s = (if s = 0 then NaN else if 0 < s then PlusInf else MinusInf)"

fun fmul :: "float \<Rightarrow> float \<Rightarrow> float" where
  "fmul (Finite x) (Finite y) = rnd (x * y)"
| "fmul NaN b = NaN"
| "fmul a NaN = NaN"
| "fmul (Finite x) PlusInf = inf_of_sign x"
| "fmul (Finite x) MinusInf = inf_of_sign (- x)"
| "fmul PlusInf (Finite y) = inf_of_sign y"
| "fmul MinusInf (Finite y) = inf_of_sign (- y)"
| "fmul PlusInf PlusInf = PlusInf"
| "fmul PlusInf MinusInf = MinusInf"
| "fmul MinusInf PlusInf = MinusInf"
| "fmul MinusInf MinusInf = PlusInf"

fun fhalf :: "float \<Rightarrow> float" where
  "fhalf (Finite x) = rnd (x / 2)"
| "fhalf a = a"

fun fsqrt :: "float \<Rightarrow> float" where
  "fsqrt (Finite x) = (if x < 0 then NaN else rnd (sqrt x))"
| "fsqrt PlusInf = PlusInf"
| "fsqrt MinusInf = NaN"
| "fsqrt NaN = NaN"

text \<open>
  \<^verbatim>\<open>rmax * 2.0\<close>: the \<^verbatim>\<open>float\<close> is converted to \<^verbatim>\<open>double\<close> and doubled there, which is
  exact. \<^verbatim>\<open>float(i)\<close> converts an \<^verbatim>\<open>int\<close>.
\<close>

fun twice :: "float \<Rightarrow> float" where
  "twice (Finite x) = Finite (2 * x)"
| "twice a = a"

definition float_of_int :: "int \<Rightarrow> float" where
  "float_of_int i = rnd (of_int i)"

text \<open>
  The comparisons \<^verbatim>\<open>a < b\<close>, \<^verbatim>\<open>a <= b\<close> and \<^verbatim>\<open>a > b\<close>, false whenever an operand is a
  NaN, and \<^verbatim>\<open>std::min\<close> and \<^verbatim>\<open>std::max\<close>, which return their first argument unless
  the comparison picks the second.
\<close>

fun flt :: "float \<Rightarrow> float \<Rightarrow> bool" where
  "flt (Finite x) (Finite y) \<longleftrightarrow> x < y"
| "flt NaN b \<longleftrightarrow> False"
| "flt a NaN \<longleftrightarrow> False"
| "flt PlusInf b \<longleftrightarrow> False"
| "flt a MinusInf \<longleftrightarrow> False"
| "flt a PlusInf \<longleftrightarrow> True"
| "flt MinusInf b \<longleftrightarrow> True"

fun fle :: "float \<Rightarrow> float \<Rightarrow> bool" where
  "fle (Finite x) (Finite y) \<longleftrightarrow> x \<le> y"
| "fle NaN b \<longleftrightarrow> False"
| "fle a NaN \<longleftrightarrow> False"
| "fle MinusInf b \<longleftrightarrow> True"
| "fle a PlusInf \<longleftrightarrow> True"
| "fle PlusInf b \<longleftrightarrow> False"
| "fle a MinusInf \<longleftrightarrow> False"

definition fgt :: "float \<Rightarrow> float \<Rightarrow> bool" where
  "fgt a b \<longleftrightarrow> flt b a"

definition fmin :: "float \<Rightarrow> float \<Rightarrow> float" where
  "fmin a b = (if flt b a then b else a)"

definition fmax :: "float \<Rightarrow> float \<Rightarrow> float" where
  "fmax a b = (if flt a b then b else a)"

subsection \<open>Vectors\<close>

text \<open>
  Modelled from the spec: \<^verbatim>\<open>vec3<float>\<close> and its operators (\<^verbatim>\<open>VectorMath.h\<close> is not
  among the sources). Section 3 speaks of 3-vectors; sums, differences and the product
  with a scalar are componentwise, and the dot product is
  \<^verbatim>\<open>a.x*b.x + a.y*b.y + a.z*b.z\<close>, evaluated from left to right, every operation
  rounded.
\<close>

datatype vec3 = Vec3 (vx: float) (vy: float) (vz: float)

abbreviation vec :: "real \<Rightarrow> real \<Rightarrow> real \<Rightarrow> vec3" where
  "vec x y z \<equiv> Vec3 (Finite x) (Finite y) (Finite z)"

definition vadd :: "vec3 \<Rightarrow> vec3 \<Rightarrow> vec3" where
  "vadd a b = Vec3 (fadd (vx a) (vx b)) (fadd (vy a) (vy b)) (fadd (vz a) (vz b))"

definition vsub :: "vec3 \<Rightarrow> vec3 \<Rightarrow> vec3" where
  "vsub a b = Vec3 (fsub (vx a) (vx b)) (fsub (vy a) (vy b)) (fsub (vz a) (vz b))"

definition smul :: "float \<Rightarrow> vec3 \<Rightarrow> vec3" where
  "smul s a = Vec3 (fmul s (vx a)) (fmul s (vy a)) (fmul s (vz a))"

definition dot :: "vec3 \<Rightarrow> vec3 \<Rightarrow> float" where
  "dot a b = fadd (fadd (fmul (vx a) (vx b)) (fmul (vy a) (vy b))) (fmul (vz a) (vz b))"

subsection \<open>\<^verbatim>\<open>NeighborQuery.h\<close>: \<^verbatim>\<open>QueryArgs\<close>\<close>

datatype QueryType = none | ball | nearest

record QueryArgs =
  mode :: QueryType
  num_neigh :: int
  r_max :: real
  scale :: real
  exclude_ii :: bool

text \<open>
  \<^verbatim>\<open>NeighborQuery::inferMode\<close>: only a record whose mode is \<open>none\<close> is changed.
\<close>

definition inferMode :: "QueryArgs \<Rightarrow> QueryArgs" where
  "inferMode args =
     (if mode args = none then
        (if num_neigh args \<noteq> -1 then args\<lparr>mode := nearest\<rparr>
         else if r_max args \<noteq> -1 then args\<lparr>mode := ball\<rparr>
         else args)
      else args)"

text \<open>
  \<^verbatim>\<open>NeighborQuery::validateQueryArgs\<close>: infers the mode, then raises
  "You must set r_max in the query arguments when performing ball queries." or
  "You must set num_neigh in the query arguments when performing number of neighbor
  queries."; a record still of mode \<open>none\<close> passes.
\<close>

definition validateQueryArgs :: "QueryArgs \<Rightarrow> error + QueryArgs" where
  "validateQueryArgs args0 =
     (let args = inferMode args0 in
      if mode args = ball then
        (if r_max args = -1 then Inl InvalidQueryArgs else Inr args)
      else if mode args = nearest then
        (if num_neigh args = -1 then Inl InvalidQueryArgs else Inr args)
      else Inr args)"

text \<open>
  \<^verbatim>\<open>NeighborQuery::queryWithArgs\<close>. The two pure virtual methods \<^verbatim>\<open>query\<close> and
  \<^verbatim>\<open>queryBall\<close> are parameters; either may itself raise (as those of \<^verbatim>\<open>RawPoints\<close> do).
  The \<^verbatim>\<open>int\<close> field \<^verbatim>\<open>num_neigh\<close> is converted to the \<^verbatim>\<open>unsigned int\<close> parameter of
  \<^verbatim>\<open>query\<close>. The last branch raises "Invalid query mode provided to generic query
  function.".
\<close>

definition to_unsigned :: "int \<Rightarrow> nat" where
  "to_unsigned i = nat (i mod 2 ^ 32)"

definition queryWithArgs ::
  "('q \<Rightarrow> nat \<Rightarrow> nat \<Rightarrow> bool \<Rightarrow> error + 'it) \<Rightarrow> ('q \<Rightarrow> nat \<Rightarrow> real \<Rightarrow> bool \<Rightarrow> error + 'it) \<Rightarrow>
   'q \<Rightarrow> nat \<Rightarrow> QueryArgs \<Rightarrow> error + 'it" where
  "queryWithArgs query queryBall query_points n_query_points args0 =
     (case validateQueryArgs args0 of
        Inl e \<Rightarrow> Inl e
      | Inr args \<Rightarrow>
          if mode args = ball then
            queryBall query_points n_query_points (r_max args) (exclude_ii args)
          else if mode args = nearest then
            query query_points n_query_points (to_unsigned (num_neigh args)) (exclude_ii args)
          else Inl InvalidQueryArgs)"

subsection \<open>\<^verbatim>\<open>NeighborQuery.h\<close>: the point set and its indexing operator\<close>

text \<open>
  \<^verbatim>\<open>NeighborQuery\<close> holds a pointer \<^verbatim>\<open>m_points\<close> to an externally owned array and the
  count \<^verbatim>\<open>m_n_points\<close>. The array is a list; a read of the raw array at an index past
  its end is undefined behaviour.
\<close>

record NeighborQuery =
  m_points :: "vec3 list"
  m_n_points :: nat

definition raw_read :: "'a list \<Rightarrow> nat \<Rightarrow> error + 'a" where
  "raw_read xs i = (if i < length xs then Inr (xs ! i) else Inl UndefinedBehavior)"

text \<open>
  \<^verbatim>\<open>NeighborQuery::operator[]\<close>; raises "NeighborQuery attempted to access a point with
  index >= n_points.".
\<close>

definition index_op :: "'a NeighborQuery_scheme \<Rightarrow> nat \<Rightarrow> error + vec3" where
  "index_op nq index =
     (if index \<ge> m_n_points nq then Inl IndexOutOfRange
      else raw_read (m_points nq) index)"

subsection \<open>\<^verbatim>\<open>NeighborQuery.h\<close>: \<^verbatim>\<open>NeighborQueryQueryIterator::toNeighborList\<close>\<close>

text \<open>
  The state of the k-nearest-neighbor iterator that the wrapper touches: the flag
  \<^verbatim>\<open>m_exclude_ii\<close> and the \<^verbatim>\<open>unsigned int\<close> \<^verbatim>\<open>m_k\<close>. The parent class's
  \<^verbatim>\<open>toNeighborList\<close>, which assigns no member, is a parameter that reads the state and
  either raises or returns a list. The wrapper returns the outcome together with the
  state it leaves behind.
\<close>

record QueryIterState =
  m_exclude_ii :: bool
  m_k :: "32 word"

definition toNeighborList_wrapper ::
  "(QueryIterState \<Rightarrow> error + 'nl) \<Rightarrow> QueryIterState \<Rightarrow> (error + 'nl) \<times> QueryIterState" where
  "toNeighborList_wrapper parent st0 =
     (let st1 = (if m_exclude_ii st0 then st0\<lparr>m_k := m_k st0 + 1\<rparr> else st0) in
      case parent st1 of
        Inl e \<Rightarrow> (Inl e, if m_exclude_ii st1 then st1\<lparr>m_k := m_k st1 - 1\<rparr> else st1)
      | Inr nlist \<Rightarrow> (Inr nlist, st1))"

section \<open>Query arguments\<close>

text \<open>
  C8. For a \<^verbatim>\<open>QueryArgs\<close> record of mode \<open>none\<close>: when \<^verbatim>\<open>num_neigh\<close> is not the
  sentinel \<open>-1\<close> the mode becomes \<open>nearest\<close> and the call is dispatched to \<^verbatim>\<open>query\<close>;
  otherwise, when \<^verbatim>\<open>r_max\<close> is not the sentinel, the mode becomes \<open>ball\<close> and the call is
  dispatched to \<^verbatim>\<open>queryBall\<close>; when neither is set the call raises \<open>InvalidQueryArgs\<close>
  and no iterator is returned. An inferred mode never lacks its parameter, so validation
  passes in the first two cases.
\<close>

theorem queryWithArgs_infer_mode:
  assumes "mode args = none"
  shows "(num_neigh args \<noteq> -1 \<longrightarrow>
            mode (inferMode args) = nearest \<and>
            validateQueryArgs args = Inr (args\<lparr>mode := nearest\<rparr>) \<and>
            queryWithArgs query queryBall qp n args =
              query qp n (to_unsigned (num_neigh args)) (exclude_ii args))
       \<and> (num_neigh args = -1 \<and> r_max args \<noteq> -1 \<longrightarrow>
            mode (inferMode args) = ball \<and>
            validateQueryArgs args = Inr (args\<lparr>mode := ball\<rparr>) \<and>
            queryWithArgs query queryBall qp n args =
              queryBall qp n (r_max args) (exclude_ii args))
       \<and> (num_neigh args = -1 \<and> r_max args = -1 \<longrightarrow>
            mode (inferMode args) = none \<and>
            queryWithArgs query queryBall qp n args = Inl InvalidQueryArgs)"
  using assms
  by (simp add: queryWithArgs_def validateQueryArgs_def inferMode_def Let_def)

theorem queryWithArgs_infer_mode_witness:
  "queryWithArgs (\<lambda>qp n k e. Inr (k, e)) (\<lambda>qp n r e. Inl Unsupported) () 1
     \<lparr>mode = none, num_neigh = 4, r_max = -1, scale = 11 / 10, exclude_ii = True\<rparr>
     = Inr (4, True)
   \<and> queryWithArgs (\<lambda>qp n k e. Inl Unsupported) (\<lambda>qp n r e. Inr (r, e)) () 1
     \<lparr>mode = none, num_neigh = -1, r_max = 2, scale = 11 / 10, exclude_ii = False\<rparr>
     = Inr (2, False)
   \<and> queryWithArgs (\<lambda>qp n k e. Inr (0::nat)) (\<lambda>qp n r e. Inr 1) () 1
     \<lparr>mode = none, num_neigh = -1, r_max = -1, scale = 11 / 10, exclude_ii = False\<rparr>
     = Inl InvalidQueryArgs"
  using
    queryWithArgs_infer_mode [of
      "\<lparr>mode = none, num_neigh = 4, r_max = -1, scale = 11 / 10, exclude_ii = True\<rparr>"
      "\<lambda>qp n k e. Inr (k, e)" "\<lambda>qp n r e. Inl Unsupported" "()" 1]
    queryWithArgs_infer_mode [of
      "\<lparr>mode = none, num_neigh = -1, r_max = 2, scale = 11 / 10, exclude_ii = False\<rparr>"
      "\<lambda>qp n k e. Inl Unsupported" "\<lambda>qp n r e. Inr (r, e)" "()" 1]
    queryWithArgs_infer_mode [of
      "\<lparr>mode = none, num_neigh = -1, r_max = -1, scale = 11 / 10, exclude_ii = False\<rparr>"
      "\<lambda>qp n k e. Inr (0::nat)" "\<lambda>qp n r e. Inr 1" "()" 1]
  by (simp add: to_unsigned_def)

section \<open>Point indexing\<close>

text \<open>
  C9. For a handle over \<open>N\<close> points (the array holds exactly \<^verbatim>\<open>m_n_points\<close> entries) the
  indexing operator returns the stored point when \<open>i < N\<close>, raises when \<open>i \<ge> N\<close>, and in
  no case reads past the array.
\<close>

theorem index_op_bounds_checked:
  assumes "length (m_points nq) = m_n_points nq"
  shows "(i < m_n_points nq \<longrightarrow> index_op nq i = Inr (m_points nq ! i))
       \<and> (i \<ge> m_n_points nq \<longrightarrow> index_op nq i = Inl IndexOutOfRange)
       \<and> index_op nq i \<noteq> Inl UndefinedBehavior"
  using assms by (simp add: index_op_def raw_read_def)

theorem index_op_bounds_checked_witness:
  "index_op \<lparr>m_points = [vec 0 0 0, vec 1 2 3], m_n_points = 2\<rparr> 1 = Inr (vec 1 2 3)
   \<and> index_op \<lparr>m_points = [vec 0 0 0, vec 1 2 3], m_n_points = 2\<rparr> 2 = Inl IndexOutOfRange"
  using
    index_op_bounds_checked [of "\<lparr>m_points = [vec 0 0 0, vec 1 2 3], m_n_points = 2\<rparr>" 1]
    index_op_bounds_checked [of "\<lparr>m_points = [vec 0 0 0, vec 1 2 3], m_n_points = 2\<rparr>" 2]
  by simp

section \<open>Materialization of a k-nearest-neighbor query with self-exclusion\<close>

text \<open>
  C10. With \<^verbatim>\<open>m_exclude_ii\<close> set, the wrapper runs the parent's materialization on the
  state whose \<^verbatim>\<open>m_k\<close> is one larger, and when the parent raises, the same error
  propagates and the iterator's state (in particular \<^verbatim>\<open>m_k\<close>) is what it was before the
  call. The arithmetic is that of \<^verbatim>\<open>unsigned int\<close>, so this holds at the largest value too.
\<close>

theorem toNeighborList_wrapper_restores_k:
  assumes "m_exclude_ii st"
  shows "fst (toNeighborList_wrapper parent st) = parent (st\<lparr>m_k := m_k st + 1\<rparr>)
       \<and> (\<forall>e. parent (st\<lparr>m_k := m_k st + 1\<rparr>) = Inl e \<longrightarrow>
            toNeighborList_wrapper parent st = (Inl e, st))"
  using assms
  by (auto simp: toNeighborList_wrapper_def Let_def split: sum.splits)

theorem toNeighborList_wrapper_restores_k_witness:
  "toNeighborList_wrapper (\<lambda>s. if m_k s = 0 then Inl BoxTooSmall else Inr (m_k s))
     \<lparr>m_exclude_ii = True, m_k = 4294967295\<rparr>
   = (Inl BoxTooSmall, \<lparr>m_exclude_ii = True, m_k = 4294967295\<rparr>)"
  using toNeighborList_wrapper_restores_k
    [of "\<lparr>m_exclude_ii = True, m_k = 4294967295\<rparr>"
        "\<lambda>s. if m_k s = 0 then Inl BoxTooSmall else Inr (m_k s)"]
  by simp


section \<open>The bond list (\<^verbatim>\<open>NeighborList.cc\<close>)\<close>

subsection \<open>Definitions\<close>

text \<open>
  The five arrays of a \<^verbatim>\<open>NeighborList\<close>. A row of the two-column array
  \<^verbatim>\<open>m_neighbors\<close> is a pair (query point index, point index).
\<close>

record NeighborList =
  m_num_points :: nat
  m_num_query_points :: nat
  m_neighbors :: "(nat \<times> nat) list"
  m_weights :: "real list"
  m_distances :: "real list"
  m_counts :: "nat list"
  m_segments :: "nat list"

text \<open>
  Modelled from the spec: \<^verbatim>\<open>ManagedArray::prepare\<close> (the array class is not among the
  sources). Section 4.6: "resize(B, reset): adjust capacity; reset controls whether
  existing content is zeroed". New cells hold zero.
\<close>

definition prepare :: "'a \<Rightarrow> nat \<Rightarrow> bool \<Rightarrow> 'a list \<Rightarrow> 'a list" where
  "prepare z n reset xs =
     (if reset then replicate n z else take n xs @ replicate (n - length xs) z)"

definition getNumBonds :: "NeighborList \<Rightarrow> nat" where
  "getNumBonds nl = length (m_neighbors nl)"

definition resize :: "nat \<Rightarrow> bool \<Rightarrow> NeighborList \<Rightarrow> NeighborList" where
  "resize num_bonds reset nl =
     (if num_bonds \<noteq> getNumBonds nl then
        nl\<lparr>m_neighbors := prepare (0, 0) num_bonds reset (m_neighbors nl),
           m_weights := prepare 0 num_bonds reset (m_weights nl),
           m_distances := prepare 0 num_bonds reset (m_distances nl)\<rparr>
      else nl)"

text \<open>A counted \<^verbatim>\<open>for\<close> loop whose body may raise.\<close>

fun for_loop :: "('s \<Rightarrow> nat \<Rightarrow> error + 's) \<Rightarrow> 's \<Rightarrow> nat list \<Rightarrow> error + 's" where
  "for_loop body s [] = Inr s"
| "for_loop body s (i # is) =
     (case body s i of Inl e \<Rightarrow> Inl e | Inr s' \<Rightarrow> for_loop body s' is)"

text \<open>
  The constructor from flat arrays,
  \<^verbatim>\<open>NeighborList(num_bonds, query_point_index, num_query_points, point_index, num_points,
  distances, weights)\<close>. The loop state is \<^verbatim>\<open>last_index\<close> and the list under
  construction. The raises are "NeighborList query_point_index must be sorted.",
  "... query_point_index values must be less than num_query_points." and
  "... point_index values must be less than num_points.". The first column of row \<open>i\<close>
  receives \<^verbatim>\<open>last_index\<close>, as the source has it.
\<close>

definition from_arrays_body ::
  "nat list \<Rightarrow> nat list \<Rightarrow> real list \<Rightarrow> real list \<Rightarrow> nat \<times> NeighborList \<Rightarrow> nat \<Rightarrow>
   error + nat \<times> NeighborList" where
  "from_arrays_body query_point_index point_index distances weights s i =
     (case s of (last_index, nl) \<Rightarrow>
        let index = query_point_index ! i in
        if index < last_index then Inl Unsorted
        else if index \<ge> m_num_query_points nl then Inl IndexOutOfRange
        else if point_index ! i \<ge> m_num_points nl then Inl IndexOutOfRange
        else Inr (index,
                  nl\<lparr>m_neighbors := (m_neighbors nl)[i := (last_index, point_index ! i)],
                     m_weights := (m_weights nl)[i := weights ! i],
                     m_distances := (m_distances nl)[i := distances ! i]\<rparr>))"

definition from_arrays ::
  "nat \<Rightarrow> nat list \<Rightarrow> nat \<Rightarrow> nat list \<Rightarrow> nat \<Rightarrow> real list \<Rightarrow> real list \<Rightarrow>
   error + NeighborList" where
  "from_arrays num_bonds query_point_index num_query_points point_index num_points
     distances weights =
     (let nl = \<lparr>m_num_points = num_points, m_num_query_points = num_query_points,
                m_neighbors = replicate num_bonds (0, 0),
                m_weights = replicate num_bonds 0,
                m_distances = replicate num_bonds 0,
                m_counts = replicate num_query_points 0,
                m_segments = replicate num_query_points 0\<rparr> in
      case for_loop (from_arrays_body query_point_index point_index distances weights)
             (0, nl) [0..<num_bonds] of
        Inl e \<Rightarrow> Inl e
      | Inr (last_index, nl') \<Rightarrow> Inr nl')"

text \<open>
  \<^verbatim>\<open>NeighborList::filter_r(float r_max, float r_min)\<close>: the upper bound is the first
  parameter (\<open>rmax\<close> and \<open>rmin\<close> below). The loop state is \<^verbatim>\<open>num_good\<close> and the list, compacted in place; the
  result is the resized list and the returned \<^verbatim>\<open>unsigned int\<close>
  \<^verbatim>\<open>num_good - old_size\<close>.
\<close>

definition filter_r_body :: "real \<Rightarrow> real \<Rightarrow> nat \<times> NeighborList \<Rightarrow> nat \<Rightarrow> nat \<times> NeighborList" where
  "filter_r_body rmax rmin s i =
     (case s of (num_good, nl) \<Rightarrow>
        if m_distances nl ! i > rmin \<and> m_distances nl ! i < rmax then
          (Suc num_good,
           nl\<lparr>m_neighbors := (m_neighbors nl)[num_good := m_neighbors nl ! i],
              m_weights := (m_weights nl)[num_good := m_weights nl ! i],
              m_distances := (m_distances nl)[num_good := m_distances nl ! i]\<rparr>)
        else (num_good, nl))"

definition filter_r :: "real \<Rightarrow> real \<Rightarrow> NeighborList \<Rightarrow> NeighborList \<times> 32 word" where
  "filter_r rmax rmin nl =
     (case foldl (filter_r_body rmax rmin) (0, nl) [0..<getNumBonds nl] of
        (num_good, nl') \<Rightarrow>
          let old_size = getNumBonds nl' in
          (resize num_good False nl', word_of_nat num_good - word_of_nat old_size))"

text \<open>
  The bonds of a list, read row by row: ((query index, point index), distance, weight).
  The three arrays of a well-formed list have one length.
\<close>

definition bonds_of :: "NeighborList \<Rightarrow> ((nat \<times> nat) \<times> real \<times> real) list" where
  "bonds_of nl = zip (m_neighbors nl) (zip (m_distances nl) (m_weights nl))"

definition arrays_agree :: "NeighborList \<Rightarrow> bool" where
  "arrays_agree nl \<longleftrightarrow>
     length (m_weights nl) = length (m_neighbors nl) \<and>
     length (m_distances nl) = length (m_neighbors nl)"

definition in_range :: "real \<Rightarrow> real \<Rightarrow> (nat \<times> nat) \<times> real \<times> real \<Rightarrow> bool" where
  "in_range rmax rmin b \<longleftrightarrow> rmin < fst (snd b) \<and> fst (snd b) < rmax"

text \<open>Scenario S6: ten bonds of one query point at distances 0.1, 0.2, ..., 1.0.\<close>

definition nl10 :: NeighborList where
  "nl10 = \<lparr>m_num_points = 10, m_num_query_points = 1,
     m_neighbors = [(0,0),(0,1),(0,2),(0,3),(0,4),(0,5),(0,6),(0,7),(0,8),(0,9)],
     m_weights = [1,1,1,1,1,1,1,1,1,1],
     m_distances = [1/10,2/10,3/10,4/10,5/10,6/10,7/10,8/10,9/10,10/10],
     m_counts = [10], m_segments = [0]\<rparr>"

text \<open>The indices that the loop of \<open>filter_r\<close> keeps among the first \<open>n\<close>.\<close>

definition kept :: "real \<Rightarrow> real \<Rightarrow> real list \<Rightarrow> nat \<Rightarrow> nat list" where
  "kept rmax rmin ds n = filter (\<lambda>i. ds ! i > rmin \<and> ds ! i < rmax) [0..<n]"

text \<open>
  The loop invariant for one array: \<open>ys\<close> is \<open>xs\<close> after the kept cells \<open>ks\<close> (all
  below \<open>n\<close>) were moved to the front; cells from \<open>n\<close> on are untouched.
\<close>

definition compacted :: "nat list \<Rightarrow> nat \<Rightarrow> 'a list \<Rightarrow> 'a list \<Rightarrow> bool" where
  "compacted ks n xs ys \<longleftrightarrow>
     length ys = length xs \<and>
     (\<forall>j < length ks. ys ! j = xs ! (ks ! j)) \<and>
     (\<forall>j. n \<le> j \<and> j < length xs \<longrightarrow> ys ! j = xs ! j)"

subsection \<open>Construction from flat arrays\<close>

text \<open>
  C3. The constructor is run on one bond of query point 1 (of 2 query points) to point 0
  (of 1 point), a sorted input with every index in range. It succeeds, but the stored
  row is (0, 0) and not (1, 0): the first column receives \<^verbatim>\<open>last_index\<close>, the query
  index of the previous bond (0 for the first bond), where the claim and the
  validation just above the assignment call for \<^verbatim>\<open>index\<close>.
\<close>

theorem from_arrays_stores_last_index:
  "from_arrays 1 [1] 2 [0] 1 [1 / 2] [1] =
     Inr \<lparr>m_num_points = 1, m_num_query_points = 2, m_neighbors = [(0, 0)],
          m_weights = [1], m_distances = [1 / 2], m_counts = [0, 0], m_segments = [0, 0]\<rparr>"
  by (simp add: from_arrays_def from_arrays_body_def eval_nat_numeral)

lemma for_loop_snoc:
  "for_loop body s (xs @ [i]) =
     (case for_loop body s xs of Inl e \<Rightarrow> Inl e | Inr s' \<Rightarrow> body s' i)"
  by (induction xs arbitrary: s) (auto split: sum.splits)

text \<open>
  What the constructor stores in the first column of row \<open>b\<close>: the query index of the
  bond before it, and 0 for the first row.
\<close>

definition stored_query_index :: "nat list \<Rightarrow> nat \<Rightarrow> nat" where
  "stored_query_index query_point_index b = (if b = 0 then 0 else query_point_index ! (b - 1))"

lemma from_arrays_loop:
  assumes "n \<le> num_bonds" "length qpi = num_bonds" "sorted qpi"
    "\<forall>b < num_bonds. qpi ! b < m_num_query_points nl0 \<and> pidx ! b < m_num_points nl0"
    "length (m_neighbors nl0) = num_bonds" "length (m_weights nl0) = num_bonds"
    "length (m_distances nl0) = num_bonds"
  shows "\<exists>nl. for_loop (from_arrays_body qpi pidx ds ws) (0, nl0) [0..<n] =
                 Inr (stored_query_index qpi n, nl)
           \<and> m_num_points nl = m_num_points nl0 \<and> m_num_query_points nl = m_num_query_points nl0
           \<and> length (m_neighbors nl) = num_bonds \<and> length (m_weights nl) = num_bonds
           \<and> length (m_distances nl) = num_bonds
           \<and> (\<forall>b < n. m_neighbors nl ! b = (stored_query_index qpi b, pidx ! b)
                      \<and> m_weights nl ! b = ws ! b \<and> m_distances nl ! b = ds ! b)"
  using assms(1)
proof (induction n)
  case 0
  then show ?case using assms(5-7) by (simp add: stored_query_index_def)
next
  case (Suc n)
  then obtain nl where
    run: "for_loop (from_arrays_body qpi pidx ds ws) (0, nl0) [0..<n] = Inr (stored_query_index qpi n, nl)"
    and fr: "m_num_points nl = m_num_points nl0" "m_num_query_points nl = m_num_query_points nl0"
    and len: "length (m_neighbors nl) = num_bonds" "length (m_weights nl) = num_bonds"
      "length (m_distances nl) = num_bonds"
    and old: "\<forall>b < n. m_neighbors nl ! b = (stored_query_index qpi b, pidx ! b)
                      \<and> m_weights nl ! b = ws ! b \<and> m_distances nl ! b = ds ! b"
    by auto
  have n: "n < num_bonds" using Suc.prems by simp
  have mono: "stored_query_index qpi n \<le> qpi ! n"
    using assms(2,3) n by (auto simp: stored_query_index_def intro: sorted_nth_mono)
  have rng: "qpi ! n < m_num_query_points nl" "pidx ! n < m_num_points nl"
    using assms(4) n fr by auto
  let ?nl' = "nl\<lparr>m_neighbors := (m_neighbors nl)[n := (stored_query_index qpi n, pidx ! n)],
                 m_weights := (m_weights nl)[n := ws ! n],
                 m_distances := (m_distances nl)[n := ds ! n]\<rparr>"
  have "for_loop (from_arrays_body qpi pidx ds ws) (0, nl0) [0..<Suc n] = Inr (qpi ! n, ?nl')"
    using mono rng by (simp add: for_loop_snoc run from_arrays_body_def Let_def)
  moreover have "stored_query_index qpi (Suc n) = qpi ! n" by (simp add: stored_query_index_def)
  moreover have "\<forall>b < Suc n. m_neighbors ?nl' ! b = (stored_query_index qpi b, pidx ! b)
                      \<and> m_weights ?nl' ! b = ws ! b \<and> m_distances ?nl' ! b = ds ! b"
    using old len n by (auto simp: nth_list_update less_Suc_eq)
  ultimately show ?case using fr len by auto
qed

text \<open>
  On every sorted input with all indices in range the constructor succeeds; the point
  indices, weights and distances are stored as given, the query indices one row late.
\<close>

lemma from_arrays_result:
  assumes "length query_point_index = num_bonds" "sorted query_point_index"
    "\<forall>b < num_bonds. query_point_index ! b < num_query_points \<and> point_index ! b < num_points"
  shows "\<exists>nl. from_arrays num_bonds query_point_index num_query_points point_index num_points
                 distances weights = Inr nl
           \<and> getNumBonds nl = num_bonds
           \<and> (\<forall>b < num_bonds.
                 m_neighbors nl ! b = (stored_query_index query_point_index b, point_index ! b)
                 \<and> m_weights nl ! b = weights ! b \<and> m_distances nl ! b = distances ! b)"
proof -
  let ?nl0 = "\<lparr>m_num_points = num_points, m_num_query_points = num_query_points,
                m_neighbors = replicate num_bonds (0, 0),
                m_weights = replicate num_bonds 0,
                m_distances = replicate num_bonds 0,
                m_counts = replicate num_query_points 0,
                m_segments = replicate num_query_points 0\<rparr>"
  from from_arrays_loop [of num_bonds num_bonds query_point_index ?nl0 point_index distances weights]
    assms
  obtain nl where
    "for_loop (from_arrays_body query_point_index point_index distances weights) (0, ?nl0)
       [0..<num_bonds] = Inr (stored_query_index query_point_index num_bonds, nl)"
    "length (m_neighbors nl) = num_bonds"
    "\<forall>b < num_bonds.
        m_neighbors nl ! b = (stored_query_index query_point_index b, point_index ! b)
        \<and> m_weights nl ! b = weights ! b \<and> m_distances nl ! b = distances ! b"
    by auto
  then show ?thesis by (simp add: from_arrays_def getNumBonds_def)
qed

subsection \<open>Filtering by distance\<close>

lemma kept_Suc:
  "kept rmax rmin ds (Suc n) =
     (if ds ! n > rmin \<and> ds ! n < rmax then kept rmax rmin ds n @ [n]
      else kept rmax rmin ds n)"
  by (simp add: kept_def)

lemma kept_bound: "i \<in> set (kept rmax rmin ds n) \<Longrightarrow> i < n"
  by (simp add: kept_def)

lemma length_kept_le: "length (kept rmax rmin ds n) \<le> n"
  unfolding kept_def by (metis length_filter_le length_upt diff_zero)

lemma compacted_keep:
  assumes "compacted ks n xs ys" "length ks \<le> n" "n < length xs"
  shows "compacted (ks @ [n]) (Suc n) xs (ys[length ks := ys ! n])"
  using assms unfolding compacted_def
  by (auto simp: nth_append nth_list_update)

lemma compacted_skip:
  assumes "compacted ks n xs ys"
  shows "compacted ks (Suc n) xs ys"
  using assms unfolding compacted_def by auto

lemma compacted_take:
  assumes "compacted ks n xs ys" "length ks \<le> length xs"
  shows "take (length ks) ys = map ((!) xs) ks"
  using assms unfolding compacted_def
  by (auto intro!: nth_equalityI)

lemma filter_r_loop:
  assumes "arrays_agree nl" "n \<le> getNumBonds nl"
  shows "\<exists>nl'. foldl (filter_r_body rmax rmin) (0, nl) [0..<n] =
            (length (kept rmax rmin (m_distances nl) n), nl') \<and>
          compacted (kept rmax rmin (m_distances nl) n) n (m_neighbors nl) (m_neighbors nl') \<and>
          compacted (kept rmax rmin (m_distances nl) n) n (m_weights nl) (m_weights nl') \<and>
          compacted (kept rmax rmin (m_distances nl) n) n (m_distances nl) (m_distances nl')"
  using assms(2)
proof (induction n)
  case 0
  show ?case by (simp add: kept_def compacted_def)
next
  case (Suc n)
  let ?ks = "kept rmax rmin (m_distances nl) n"
  from Suc obtain nl' where
    run: "foldl (filter_r_body rmax rmin) (0, nl) [0..<n] = (length ?ks, nl')"
    and cn: "compacted ?ks n (m_neighbors nl) (m_neighbors nl')"
    and cw: "compacted ?ks n (m_weights nl) (m_weights nl')"
    and cd: "compacted ?ks n (m_distances nl) (m_distances nl')"
    by auto
  have n_lt: "n < length (m_neighbors nl)" "n < length (m_weights nl)"
    "n < length (m_distances nl)"
    using Suc.prems assms(1) by (auto simp: getNumBonds_def arrays_agree_def)
  have dn: "m_distances nl' ! n = m_distances nl ! n"
    using cd n_lt unfolding compacted_def by auto
  have le: "length ?ks \<le> n" by (rule length_kept_le)
  show ?case
  proof (cases "m_distances nl ! n > rmin \<and> m_distances nl ! n < rmax")
    case True
    have "foldl (filter_r_body rmax rmin) (0, nl) [0..<Suc n] =
            (Suc (length ?ks),
             nl'\<lparr>m_neighbors := (m_neighbors nl')[length ?ks := m_neighbors nl' ! n],
                 m_weights := (m_weights nl')[length ?ks := m_weights nl' ! n],
                 m_distances := (m_distances nl')[length ?ks := m_distances nl' ! n]\<rparr>)"
      using True dn by (simp add: run filter_r_body_def)
    then show ?thesis
      using True compacted_keep [OF cn le n_lt(1)] compacted_keep [OF cw le n_lt(2)]
        compacted_keep [OF cd le n_lt(3)]
      by (simp add: kept_Suc)
  next
    case False
    have "foldl (filter_r_body rmax rmin) (0, nl) [0..<Suc n] = (length ?ks, nl')"
      using False dn by (auto simp: run filter_r_body_def)
    then show ?thesis
      using False compacted_skip [OF cn] compacted_skip [OF cw] compacted_skip [OF cd]
      by (simp add: kept_Suc)
  qed
qed

lemma filter_via_indices:
  "filter P xs = map ((!) xs) (filter (\<lambda>i. P (xs ! i)) [0..<length xs])"
proof -
  have "filter P xs = filter P (map ((!) xs) [0..<length xs])"
    by (simp add: map_nth)
  also have "\<dots> = map ((!) xs) (filter (P \<circ> (!) xs) [0..<length xs])"
    by (simp only: filter_map)
  finally show ?thesis by (simp add: comp_def)
qed

lemma filter_r_bonds:
  assumes "arrays_agree nl"
  shows "bonds_of (fst (filter_r rmax rmin nl)) = filter (in_range rmax rmin) (bonds_of nl)"
proof -
  let ?n = "getNumBonds nl"
  let ?ks = "kept rmax rmin (m_distances nl) ?n"
  from filter_r_loop [OF assms order_refl, of rmax rmin] obtain nl' where
    run: "foldl (filter_r_body rmax rmin) (0, nl) [0..<?n] = (length ?ks, nl')"
    and cn: "compacted ?ks ?n (m_neighbors nl) (m_neighbors nl')"
    and cw: "compacted ?ks ?n (m_weights nl) (m_weights nl')"
    and cd: "compacted ?ks ?n (m_distances nl) (m_distances nl')"
    by blast
  have len: "length (m_weights nl) = ?n" "length (m_distances nl) = ?n"
    "length (m_neighbors nl) = ?n"
    using assms by (auto simp: arrays_agree_def getNumBonds_def)
  have le: "length ?ks \<le> ?n" by (rule length_kept_le)
  have len': "length (m_neighbors nl') = ?n" "length (m_weights nl') = ?n"
    "length (m_distances nl') = ?n"
    using cn cw cd len unfolding compacted_def by auto
  have res: "fst (filter_r rmax rmin nl) = resize (length ?ks) False nl'"
    by (simp add: filter_r_def run Let_def)
  have tk: "m_neighbors (resize (length ?ks) False nl') = take (length ?ks) (m_neighbors nl')"
    "m_weights (resize (length ?ks) False nl') = take (length ?ks) (m_weights nl')"
    "m_distances (resize (length ?ks) False nl') = take (length ?ks) (m_distances nl')"
    using le len' by (auto simp: resize_def prepare_def getNumBonds_def)
  have mp: "take (length ?ks) (m_neighbors nl') = map ((!) (m_neighbors nl)) ?ks"
    "take (length ?ks) (m_weights nl') = map ((!) (m_weights nl)) ?ks"
    "take (length ?ks) (m_distances nl') = map ((!) (m_distances nl)) ?ks"
    using compacted_take [OF cn] compacted_take [OF cw] compacted_take [OF cd] le len by auto
  have "bonds_of (fst (filter_r rmax rmin nl)) =
          map (\<lambda>i. (m_neighbors nl ! i, m_distances nl ! i, m_weights nl ! i)) ?ks"
    by (intro nth_equalityI) (simp_all add: res bonds_of_def tk mp)
  also have "\<dots> = map ((!) (bonds_of nl)) ?ks"
    using len by (auto simp: bonds_of_def dest!: kept_bound)
  also have "\<dots> = filter (in_range rmax rmin) (bonds_of nl)"
  proof -
    have lb: "length (bonds_of nl) = ?n" using len by (simp add: bonds_of_def)
    have "?ks = filter (\<lambda>i. in_range rmax rmin (bonds_of nl ! i)) [0..<length (bonds_of nl)]"
      unfolding kept_def lb using len
      by (intro filter_cong) (auto simp: in_range_def bonds_of_def)
    then show ?thesis by (simp add: filter_via_indices [of "in_range rmax rmin" "bonds_of nl"])
  qed
  finally show ?thesis .
qed

lemma nl10_agree: "arrays_agree nl10"
  by (simp add: arrays_agree_def nl10_def)

lemma bonds_of_nl10:
  "bonds_of nl10 =
     [((0,0), 1/10, 1), ((0,1), 2/10, 1), ((0,2), 3/10, 1), ((0,3), 4/10, 1), ((0,4), 5/10, 1),
      ((0,5), 6/10, 1), ((0,6), 7/10, 1), ((0,7), 8/10, 1), ((0,8), 9/10, 1), ((0,9), 10/10, 1)]"
  by (simp add: bonds_of_def nl10_def)

text \<open>
  C6, as stated, fails on the code: the first parameter of \<^verbatim>\<open>filter_r\<close> is the upper
  bound. The positional call \<^verbatim>\<open>filter_r(0.25, 0.75)\<close> on the ten bonds of scenario S6
  keeps the bonds with \<open>0.75 < d < 0.25\<close>, that is none, and not five.
\<close>

theorem filter_r_lower_first_counterexample:
  "bonds_of (fst (filter_r (1 / 4) (3 / 4) nl10)) = []
   \<and> length (bonds_of (fst (filter_r (1 / 4) (3 / 4) nl10))) \<noteq> 5"
  unfolding filter_r_bonds [OF nl10_agree] bonds_of_nl10
  by (simp add: in_range_def)

text \<open>
  C6, amended. \<^verbatim>\<open>filter_r(r_max, r_min)\<close> takes the upper bound first. On every
  well-formed bond list it keeps exactly the bonds whose distance lies strictly between
  \<open>rmin\<close> and \<open>rmax\<close>, in their original order (the result is the sublist selected by
  the predicate), so the list never grows; on the ten bonds of scenario S6,
  \<^verbatim>\<open>filter_r(0.75, 0.25)\<close> leaves exactly the five bonds at distances 0.3 to 0.7.
\<close>

theorem filter_r_keeps_open_interval:
  assumes "arrays_agree nl"
  shows "bonds_of (fst (filter_r rmax rmin nl)) =
           filter (\<lambda>b. rmin < fst (snd b) \<and> fst (snd b) < rmax) (bonds_of nl)
       \<and> length (bonds_of (fst (filter_r rmax rmin nl))) \<le> length (bonds_of nl)
       \<and> bonds_of (fst (filter_r (3 / 4) (1 / 4) nl10)) =
           [((0,2), 3/10, 1), ((0,3), 4/10, 1), ((0,4), 5/10, 1), ((0,5), 6/10, 1),
            ((0,6), 7/10, 1)]"
proof (intro conjI)
  have eq: "in_range rmax rmin = (\<lambda>b. rmin < fst (snd b) \<and> fst (snd b) < rmax)"
    by (simp add: in_range_def fun_eq_iff)
  show "bonds_of (fst (filter_r rmax rmin nl)) =
          filter (\<lambda>b. rmin < fst (snd b) \<and> fst (snd b) < rmax) (bonds_of nl)"
    using filter_r_bonds [OF assms, of rmax rmin] by (simp only: eq)
  show "length (bonds_of (fst (filter_r rmax rmin nl))) \<le> length (bonds_of nl)"
    by (simp only: filter_r_bonds [OF assms] length_filter_le)
  show "bonds_of (fst (filter_r (3 / 4) (1 / 4) nl10)) =
           [((0,2), 3/10, 1), ((0,3), 4/10, 1), ((0,4), 5/10, 1), ((0,5), 6/10, 1),
            ((0,6), 7/10, 1)]"
    unfolding filter_r_bonds [OF nl10_agree] bonds_of_nl10
    by (simp add: in_range_def)
qed

theorem filter_r_keeps_open_interval_witness:
  "arrays_agree nl10
   \<and> length (bonds_of (fst (filter_r (3 / 4) (1 / 4) nl10))) = 5
   \<and> length (bonds_of (fst (filter_r (3 / 4) (1 / 4) nl10))) \<le> length (bonds_of nl10)"
proof -
  note inst = filter_r_keeps_open_interval [OF nl10_agree, of "3 / 4" "1 / 4"]
  from inst have five: "bonds_of (fst (filter_r (3 / 4) (1 / 4) nl10)) =
      [((0,2), 3/10, 1), ((0,3), 4/10, 1), ((0,4), 5/10, 1), ((0,5), 6/10, 1), ((0,6), 7/10, 1)]"
    by (elim conjE)
  from inst have le: "length (bonds_of (fst (filter_r (3 / 4) (1 / 4) nl10))) \<le> length (bonds_of nl10)"
    by (elim conjE)
  have "length (bonds_of (fst (filter_r (3 / 4) (1 / 4) nl10))) = 5"
    by (simp only: five) simp
  with le nl10_agree show ?thesis by (intro conjI)
qed


section \<open>Floating-point rounding\<close>

subsection \<open>The exponent\<close>

lemma halvings_le: "halvings n x \<le> n"
  by (induction n arbitrary: x) simp_all

lemma halvings_bounds:
  "1 \<le> x \<Longrightarrow> 2 ^ halvings n x \<le> x \<and> (halvings n x < n \<longrightarrow> x < 2 ^ Suc (halvings n x))"
proof (induction n arbitrary: x)
  case 0
  then show ?case by simp
next
  case (Suc n)
  show ?case
  proof (cases "x < 2")
    case True
    with Suc.prems show ?thesis by simp
  next
    case False
    then have "1 \<le> x / 2" by simp
    from Suc.IH [OF this] False show ?thesis by (simp add: field_simps)
  qed
qed

lemma doublings_le: "doublings n x \<le> n"
  by (induction n arbitrary: x) simp_all

lemma doublings_bounds:
  "x < 1 \<Longrightarrow> 0 < n \<Longrightarrow>
     0 < doublings n x \<and> 2 ^ (doublings n x - 1) * x < 1
     \<and> (doublings n x < n \<longrightarrow> 1 \<le> 2 ^ doublings n x * x)"
proof (induction n arbitrary: x)
  case 0
  then show ?case by simp
next
  case (Suc n)
  show ?case
  proof (cases "1 \<le> 2 * x \<or> n = 0")
    case True
    then have "doublings n (2 * x) = 0" by (cases n) auto
    with Suc.prems True show ?thesis by auto
  next
    case False
    then have "2 * x < 1" "0 < n" by simp_all
    from Suc.IH [OF this] Suc.prems(1) show ?thesis
      by (cases "doublings n (2 * x)") (simp_all add: field_simps)
  qed
qed

lemma exponent_range: "- 126 \<le> exponent a \<and> exponent a \<le> 128"
  using halvings_le [of 128 a] doublings_le [of 126 a] by (simp add: exponent_def)

lemma exponent_lower:
  assumes "- 126 < exponent a"
  shows "2 powi exponent a \<le> a"
proof (cases "1 \<le> a")
  case True
  with halvings_bounds [OF True, of 128] show ?thesis by (simp add: exponent_def)
next
  case False
  then have lt: "a < 1" by simp
  let ?d = "doublings 126 a"
  from assms False have "?d < 126" by (simp add: exponent_def)
  with doublings_bounds [OF lt, of 126] have "1 \<le> 2 ^ ?d * a" by simp
  then have "1 / 2 ^ ?d \<le> a" by (simp add: field_simps)
  with False show ?thesis by (simp add: exponent_def power_int_minus_divide)
qed

lemma exponent_upper:
  assumes "exponent a < 128"
  shows "a < 2 powi (exponent a + 1)"
proof (cases "1 \<le> a")
  case True
  from assms True have "halvings 128 a < 128" by (simp add: exponent_def)
  with halvings_bounds [OF True, of 128] have "a < 2 ^ Suc (halvings 128 a)" by simp
  moreover have "exponent a + 1 = int (Suc (halvings 128 a))" using True by (simp add: exponent_def)
  ultimately show ?thesis by (simp only: power_int_of_nat)
next
  case False
  then have lt: "a < 1" by simp
  let ?d = "doublings 126 a"
  from doublings_bounds [OF lt, of 126] have d: "0 < ?d" "2 ^ (?d - 1) * a < 1" by simp_all
  then have "a < 1 / 2 ^ (?d - 1)" by (simp add: field_simps)
  moreover have "exponent a + 1 = - int (?d - 1)" using False d(1) by (simp add: exponent_def)
  ultimately show ?thesis by (simp only: power_int_minus_divide power_int_of_nat)
qed

lemma exponent_eq:
  assumes "2 powi e \<le> a" "a < 2 powi (e + 1)" "- 126 \<le> e" "e \<le> 127"
  shows "exponent a = e"
proof (rule ccontr)
  assume ne: "exponent a \<noteq> e"
  show False
  proof (cases "exponent a < e")
    case True
    then have "exponent a < 128" using assms(4) by simp
    from exponent_upper [OF this] have "a < 2 powi (exponent a + 1)" .
    also have "\<dots> \<le> 2 powi e" using True by (intro power_int_increasing) simp_all
    finally show False using assms(1) by simp
  next
    case False
    with ne have gt: "e < exponent a" by simp
    then have "- 126 < exponent a" using assms(3) by simp
    from exponent_lower [OF this] have "2 powi exponent a \<le> a" .
    moreover have "2 powi (e + 1) \<le> (2::real) powi exponent a"
      using gt by (intro power_int_increasing) simp_all
    ultimately show False using assms(2) by simp
  qed
qed

lemma exponent_subnormal:
  assumes "a < 2 powi (- 126)"
  shows "exponent a = - 126"
proof (rule ccontr)
  assume "exponent a \<noteq> - 126"
  with exponent_range [of a] have gt: "- 126 < exponent a" by simp
  from exponent_lower [OF gt] have "2 powi exponent a \<le> a" .
  moreover have "2 powi (- 126) \<le> (2::real) powi exponent a"
    using gt by (intro power_int_increasing) simp_all
  ultimately show False using assms by simp
qed

lemma exponent_mono:
  assumes "a \<le> b"
  shows "exponent a \<le> exponent b"
proof (rule ccontr)
  assume "\<not> exponent a \<le> exponent b"
  then have lt: "exponent b < exponent a" by simp
  with exponent_range [of a] exponent_range [of b]
  have "- 126 < exponent a" "exponent b < 128" by simp_all
  from exponent_lower [OF this(1)] exponent_upper [OF this(2)] assms
  have "2 powi exponent a < (2::real) powi (exponent b + 1)" by simp
  moreover have "2 powi (exponent b + 1) \<le> (2::real) powi exponent a"
    using lt by (intro power_int_increasing) simp_all
  ultimately show False by simp
qed

lemma rhe_of_int [simp]: "rhe (of_int n) = n"
  by (simp add: rhe_def)

lemma rhe_0 [simp]: "rhe 0 = 0"
  by (simp add: rhe_def)

lemma rhe_between: "\<lfloor>y\<rfloor> \<le> rhe y \<and> rhe y \<le> \<lfloor>y\<rfloor> + 1"
  by (simp add: rhe_def Let_def)

lemma rhe_mono:
  assumes "x \<le> y"
  shows "rhe x \<le> rhe y"
proof (cases "\<lfloor>x\<rfloor> = \<lfloor>y\<rfloor>")
  case True
  with assms show ?thesis by (auto simp: rhe_def Let_def)
next
  case False
  with assms have "\<lfloor>x\<rfloor> + 1 \<le> \<lfloor>y\<rfloor>" using floor_mono [OF assms] by simp
  with rhe_between [of x] rhe_between [of y] show ?thesis by simp
qed

lemma rhe_eq:
  assumes "of_int n - 1 / 2 < y" "y < of_int n + 1 / 2"
  shows "rhe y = n"
proof (cases "of_int n \<le> y")
  case True
  with assms have "\<lfloor>y\<rfloor> = n" by (simp add: floor_eq_iff)
  with assms show ?thesis by (simp add: rhe_def)
next
  case False
  with assms have f: "\<lfloor>y\<rfloor> = n - 1" by (simp add: floor_eq_iff)
  with assms show ?thesis by (simp add: rhe_def)
qed

subsection \<open>Rounding is symmetric, monotone and exact on floats\<close>

lemma round_to_single_minus: "round_to_single (- x) = - round_to_single x"
  by (simp add: round_to_single_def sgn_minus Let_def)

lemma round_to_single_0 [simp]: "round_to_single 0 = 0"
  by (simp add: round_to_single_def)

lemma round_to_single_pos:
  assumes "0 \<le> a"
  shows "round_to_single a = of_int (rhe (a / 2 powi (exponent a - 23))) * 2 powi (exponent a - 23)"
  using assms by (cases "a = 0") (simp_all add: round_to_single_def Let_def)

lemma round_to_single_nonneg:
  assumes "0 \<le> a"
  shows "0 \<le> round_to_single a"
proof -
  have "0 \<le> a / 2 powi (exponent a - 23)" using assms by simp
  from rhe_mono [OF this] have "0 \<le> rhe (a / 2 powi (exponent a - 23))"
    using rhe_of_int [of 0] by simp
  then show ?thesis unfolding round_to_single_pos [OF assms] by simp
qed

lemma round_to_single_lower:
  assumes "- 126 < exponent a"
  shows "2 powi exponent a \<le> round_to_single a"
proof -
  let ?q = "(2::real) powi (exponent a - 23)"
  have a: "2 powi exponent a \<le> a" by (rule exponent_lower [OF assms])
  have "0 < (2::real) powi exponent a" by simp
  with a have pos: "0 \<le> a" by linarith
  have e: "(2::real) powi exponent a = 2 ^ 23 * ?q"
    by (simp add: power_int_diff)
  have "of_int (2 ^ 23) \<le> a / ?q" using a unfolding e by (simp add: field_simps)
  from rhe_mono [OF this] have "2 ^ 23 \<le> rhe (a / ?q)" by (simp only: rhe_of_int)
  then have "real_of_int (2 ^ 23) \<le> of_int (rhe (a / ?q))" by (simp only: of_int_le_iff)
  then have "(2::real) ^ 23 \<le> of_int (rhe (a / ?q))" by simp
  then have "2 ^ 23 * ?q \<le> of_int (rhe (a / ?q)) * ?q"
    by (intro mult_right_mono) simp_all
  then show ?thesis unfolding round_to_single_pos [OF pos] e .
qed

lemma round_to_single_upper:
  assumes "0 \<le> a" "exponent a < 128"
  shows "round_to_single a \<le> 2 powi (exponent a + 1)"
proof -
  let ?q = "(2::real) powi (exponent a - 23)"
  have a: "a < 2 powi (exponent a + 1)" by (rule exponent_upper [OF assms(2)])
  have e: "(2::real) powi (exponent a + 1) = 2 ^ 24 * ?q"
    by (simp add: power_int_diff power_int_add)
  have "a / ?q \<le> of_int (2 ^ 24)" using a unfolding e by (simp add: field_simps)
  from rhe_mono [OF this] have "rhe (a / ?q) \<le> 2 ^ 24" by (simp only: rhe_of_int)
  then have "of_int (rhe (a / ?q)) \<le> real_of_int (2 ^ 24)" by (simp only: of_int_le_iff)
  then have "of_int (rhe (a / ?q)) \<le> (2::real) ^ 24" by simp
  then have "of_int (rhe (a / ?q)) * ?q \<le> 2 ^ 24 * ?q"
    by (intro mult_right_mono) simp_all
  then show ?thesis unfolding round_to_single_pos [OF assms(1)] e .
qed

lemma round_to_single_mono_pos:
  assumes "0 \<le> a" "a \<le> b"
  shows "round_to_single a \<le> round_to_single b"
proof (cases "exponent a = exponent b")
  case True
  let ?q = "(2::real) powi (exponent b - 23)"
  have "a / ?q \<le> b / ?q" using assms(2) by (simp add: divide_right_mono)
  from rhe_mono [OF this] have "of_int (rhe (a / ?q)) * ?q \<le> of_int (rhe (b / ?q)) * ?q"
    by (intro mult_right_mono) simp_all
  then show ?thesis using assms True by (simp add: round_to_single_pos)
next
  case False
  with exponent_mono [OF assms(2)] have lt: "exponent a < exponent b" by simp
  with exponent_range [of a] exponent_range [of b]
  have r: "exponent a < 128" "- 126 < exponent b" by simp_all
  have "round_to_single a \<le> 2 powi (exponent a + 1)"
    by (rule round_to_single_upper [OF assms(1) r(1)])
  also have "\<dots> \<le> 2 powi exponent b" using lt by (intro power_int_increasing) simp_all
  also have "\<dots> \<le> round_to_single b" by (rule round_to_single_lower [OF r(2)])
  finally show ?thesis .
qed

lemma round_to_single_mono:
  assumes "x \<le> y"
  shows "round_to_single x \<le> round_to_single y"
proof -
  consider "0 \<le> x" | "x < 0" "0 \<le> y" | "y < 0" using assms by linarith
  then show ?thesis
  proof cases
    case 1
    then show ?thesis using assms by (rule round_to_single_mono_pos)
  next
    case 2
    have "0 \<le> round_to_single (- x)" using 2 by (intro round_to_single_nonneg) simp
    then have "round_to_single x \<le> 0" by (simp add: round_to_single_minus)
    also have "0 \<le> round_to_single y" using 2 by (intro round_to_single_nonneg)
    finally show ?thesis .
  next
    case 3
    have "round_to_single (- y) \<le> round_to_single (- x)"
      using 3 assms by (intro round_to_single_mono_pos) simp_all
    then show ?thesis by (simp add: round_to_single_minus)
  qed
qed

lemma rnd_mono:
  assumes "x \<le> y"
  shows "fle (rnd x) (rnd y)"
  using round_to_single_mono [OF assms] by (simp add: rnd_def Let_def)

lemma rnd_minus: "rnd (- x) = fneg (rnd x)"
  by (simp add: rnd_def Let_def round_to_single_minus)

lemma rnd_0 [simp]: "rnd 0 = Finite 0"
  by (simp add: rnd_def)

lemma rnd_not_NaN [simp]: "rnd x \<noteq> NaN"
  by (simp add: rnd_def Let_def)

lemma rnd_nonneg:
  assumes "0 \<le> x"
  shows "fle (Finite 0) (rnd x)"
  using rnd_mono [OF assms] by simp

text \<open>A real with a significand of at most 24 bits in the exponent range is its own rounding.\<close>

lemma round_to_single_exact_pos:
  assumes "0 \<le> n" "n < 2 ^ 24" "- 149 \<le> k"
  shows "round_to_single (of_int n * 2 powi k) = of_int n * 2 powi k"
proof -
  define a where "a = of_int n * (2::real) powi k"
  define e where "e = exponent a"
  have a0: "0 \<le> a" using assms(1) by (simp add: a_def)
  have le: "e - 23 \<le> k"
  proof (cases "- 126 < e")
    case True
    then have "2 powi e \<le> a" unfolding e_def by (rule exponent_lower)
    also have "a < 2 ^ 24 * 2 powi k"
      unfolding a_def using assms(2) by (intro mult_strict_right_mono) simp_all
    also have "\<dots> = 2 powi (k + 24)" by (simp add: power_int_add)
    finally have lt: "2 powi e < (2::real) powi (k + 24)" .
    have "e < k + 24"
    proof (rule ccontr)
      assume "\<not> e < k + 24"
      then have "(2::real) powi (k + 24) \<le> 2 powi e"
        by (intro power_int_increasing) simp_all
      with lt show False by simp
    qed
    then show ?thesis by simp
  next
    case False
    with assms(3) show ?thesis by simp
  qed
  define j where "j = nat (k - (e - 23))"
  have k: "k = (e - 23) + int j" using le by (simp add: j_def)
  have split: "(2::real) powi k = 2 ^ j * 2 powi (e - 23)"
    by (subst k) (simp add: power_int_add)
  have "a / 2 powi (e - 23) = of_int (n * 2 ^ j)"
    by (simp add: a_def split)
  then have "rhe (a / 2 powi (e - 23)) = n * 2 ^ j" by (simp only: rhe_of_int)
  then have "round_to_single a = of_int (n * 2 ^ j) * 2 powi (e - 23)"
    unfolding e_def by (simp only: round_to_single_pos [OF a0])
  also have "\<dots> = a" by (simp add: a_def split)
  finally show ?thesis unfolding a_def .
qed

lemma round_to_single_exact:
  assumes "\<bar>m\<bar> < 2 ^ 24" "- 149 \<le> k"
  shows "round_to_single (of_int m * 2 powi k) = of_int m * 2 powi k"
proof (cases "0 \<le> m")
  case True
  with assms show ?thesis by (intro round_to_single_exact_pos) simp_all
next
  case False
  with assms have "round_to_single (of_int (- m) * 2 powi k) = of_int (- m) * 2 powi k"
    by (intro round_to_single_exact_pos) simp_all
  then show ?thesis using round_to_single_minus [of "of_int m * 2 powi k"] by simp
qed

lemma rnd_exact:
  assumes "\<bar>m\<bar> < 2 ^ 24" "- 149 \<le> k" "k \<le> 104"
  shows "rnd (of_int m * 2 powi k) = Finite (of_int m * 2 powi k)"
proof -
  have "\<bar>of_int m * (2::real) powi k\<bar> < 2 ^ 24 * 2 powi 104"
  proof -
    have "\<bar>real_of_int m\<bar> < real_of_int (2 ^ 24)" using assms(1) by (simp only: of_int_abs [symmetric] of_int_less_iff)
    moreover have "(2::real) powi k \<le> 2 powi 104" using assms(3) by (intro power_int_increasing) simp_all
    ultimately have "\<bar>real_of_int m\<bar> * 2 powi k < real_of_int (2 ^ 24) * 2 powi 104"
      by (intro mult_less_le_imp_less) simp_all
    then show ?thesis by (simp add: abs_mult)
  qed
  then have "\<bar>of_int m * (2::real) powi k\<bar> < 2 ^ 128" by simp
  then show ?thesis
    by (simp add: rnd_def round_to_single_exact [OF assms(1,2)] abs_less_iff)
qed

text \<open>Rounding of a real whose binade is known.\<close>

lemma round_to_single_binade:
  assumes "2 powi e \<le> a" "a < 2 powi (e + 1)" "- 126 \<le> e" "e \<le> 127"
  shows "round_to_single a = of_int (rhe (a / 2 powi (e - 23))) * 2 powi (e - 23)"
proof -
  have "0 < (2::real) powi e" by simp
  with assms(1) have "0 \<le> a" by linarith
  then show ?thesis by (simp add: round_to_single_pos exponent_eq [OF assms])
qed

lemma rnd_from_binade:
  assumes "2 powi e \<le> a" "a < 2 powi (e + 1)" "- 126 \<le> e" "e \<le> 126"
  shows "rnd a = Finite (of_int (rhe (a / 2 powi (e - 23))) * 2 powi (e - 23))"
proof -
  have r: "round_to_single a = of_int (rhe (a / 2 powi (e - 23))) * 2 powi (e - 23)"
    using assms by (intro round_to_single_binade) simp_all
  have "0 < (2::real) powi e" by simp
  with assms(1) have a0: "0 \<le> a" by linarith
  have "exponent a = e" using assms by (intro exponent_eq) simp_all
  with round_to_single_upper [OF a0] assms(4) have "round_to_single a \<le> 2 powi (e + 1)" by simp
  also have "\<dots> \<le> 2 powi 127" using assms(4) by (intro power_int_increasing) simp_all
  finally have "round_to_single a < 2 ^ 128" by simp
  moreover have "0 \<le> round_to_single a" using a0 by (rule round_to_single_nonneg)
  ultimately show ?thesis by (simp add: rnd_def r [symmetric])
qed

text \<open>Below \<open>2 ^ -126\<close> the step is \<open>2 ^ -149\<close>.\<close>

lemma rnd_subnormal:
  assumes "0 \<le> a" "a < 2 powi (- 126)"
  shows "rnd a = Finite (of_int (rhe (a / 2 powi (- 149))) * 2 powi (- 149))"
proof -
  have e: "exponent a = - 126" by (rule exponent_subnormal [OF assms(2)])
  have r: "round_to_single a = of_int (rhe (a / 2 powi (- 149))) * 2 powi (- 149)"
    using round_to_single_pos [OF assms(1)] by (simp add: e)
  from round_to_single_upper [OF assms(1)] e
  have "round_to_single a \<le> 2 powi (- 125)" by simp
  also have "\<dots> \<le> 2 powi 127" by (intro power_int_increasing) simp_all
  finally have "round_to_single a < 2 ^ 128" by simp
  moreover have "0 \<le> round_to_single a" using assms(1) by (rule round_to_single_nonneg)
  ultimately have "rnd a = Finite (round_to_single a)" by (simp add: rnd_def)
  then show ?thesis by (simp only: r)
qed

text \<open>The floats nearest to 0.6 and 0.4.\<close>

lemma rnd_decimal:
  "rnd (3 / 5) = Finite (5033165 / 8388608)" "rnd (2 / 5) = Finite (13421773 / 33554432)"
proof -
  show "rnd (3 / 5) = Finite (5033165 / 8388608)"
    by (subst rnd_from_binade [of "- 1"]) (simp_all add: rhe_def)
  show "rnd (2 / 5) = Finite (13421773 / 33554432)"
    by (subst rnd_from_binade [of "- 2"]) (simp_all add: rhe_def)
qed

lemma rnd_1 [simp]: "rnd 1 = Finite 1"
  using rnd_exact [of 1 0] by simp

lemma rnd_minus_1 [simp]: "rnd (- 1) = Finite (- 1)"
  using rnd_exact [of "- 1" 0] by simp

section \<open>Image vectors (\<^verbatim>\<open>AABBQuery.cc\<close>)\<close>

subsection \<open>Definitions\<close>

text \<open>
  The box class is not among the sources; a box is the record of what its accessors
  return: \<^verbatim>\<open>getLatticeVector(0..2)\<close>, \<^verbatim>\<open>getNearestPlaneDistance()\<close>,
  \<^verbatim>\<open>getPeriodic()\<close> and \<^verbatim>\<open>is2D()\<close>.
\<close>

record Box =
  LatticeVector0 :: vec3
  LatticeVector1 :: vec3
  LatticeVector2 :: vec3
  NearestPlaneDistance :: vec3
  periodic_x :: bool
  periodic_y :: bool
  periodic_z :: bool
  is2D :: bool

text \<open>
  The members of \<^verbatim>\<open>AABBIterator\<close>, those of its parent \<^verbatim>\<open>SpatialDataIterator\<close>
  included (the link \<^verbatim>\<open>m_spatial_data\<close> is passed as an argument where it is read).
\<close>

record AABBIterator =
  m_point :: vec3
  m_finished :: bool
  m_n_images :: nat
  m_image_list :: "vec3 list"

text \<open>
  A \<^verbatim>\<open>for\<close> loop over the given values whose condition has a second conjunct, tested
  before every iteration: \<^verbatim>\<open>for (int i=-1; i <= 1 && n_images < m_n_images; ++i)\<close>.
\<close>

fun for_while :: "int list \<Rightarrow> ('s \<Rightarrow> bool) \<Rightarrow> (int \<Rightarrow> 's \<Rightarrow> 's) \<Rightarrow> 's \<Rightarrow> 's" where
  "for_while [] cond body s = s"
| "for_while (i # is) cond body s =
     (if cond s then for_while is cond body (body i s) else s)"

text \<open>
  The body of the innermost loop; the state is \<^verbatim>\<open>n_images\<close> and the image list. Each
  \<^verbatim>\<open>continue\<close> leaves the state as it is.
\<close>

definition image_body :: "Box \<Rightarrow> int \<Rightarrow> int \<Rightarrow> int \<Rightarrow> nat \<times> vec3 list \<Rightarrow> nat \<times> vec3 list" where
  "image_body box i j k s =
     (case s of (n_images, image_list) \<Rightarrow>
        if \<not> (i = 0 \<and> j = 0 \<and> k = 0) then
          (if i \<noteq> 0 \<and> \<not> periodic_x box then s
           else if j \<noteq> 0 \<and> \<not> periodic_y box then s
           else if k \<noteq> 0 \<and> (is2D box \<or> \<not> periodic_z box) then s
           else
             (let latt_a = LatticeVector0 box;
                  latt_b = LatticeVector1 box;
                  latt_c = (if \<not> is2D box then LatticeVector2 box else vec 0 0 0)
              in (Suc n_images,
                  image_list[n_images :=
                    vadd (vadd (smul (float_of_int i) latt_a) (smul (float_of_int j) latt_b))
                         (smul (float_of_int k) latt_c)])))
        else s)"

definition enumerate_images :: "Box \<Rightarrow> nat \<Rightarrow> vec3 list \<Rightarrow> nat \<times> vec3 list" where
  "enumerate_images box n_total image_list =
     for_while [-1, 0, 1] (\<lambda>s. fst s < n_total)
       (\<lambda>i. for_while [-1, 0, 1] (\<lambda>s. fst s < n_total)
          (\<lambda>j. for_while [-1, 0, 1] (\<lambda>s. fst s < n_total) (image_body box i j)))
       (1, image_list)"

definition n_dim_periodic :: "Box \<Rightarrow> nat" where
  "n_dim_periodic box =
     of_bool (periodic_x box) + of_bool (periodic_y box)
       + of_bool (\<not> is2D box) * of_bool (periodic_z box)"

text \<open>\<^verbatim>\<open>std::vector::resize\<close>: existing elements stay, new ones are value-initialized.\<close>

definition vector_resize :: "nat \<Rightarrow> 'a \<Rightarrow> 'a list \<Rightarrow> 'a list" where
  "vector_resize n z xs = take n xs @ replicate (n - length xs) z"

text \<open>
  The image list as it stands when the enumeration starts: grown if it is too short,
  with the zero shift in its first cell.
\<close>

definition initial_image_list :: "nat \<Rightarrow> vec3 list \<Rightarrow> vec3 list" where
  "initial_image_list n_total image_list =
     (if n_total > length image_list then vector_resize n_total (vec 0 0 0) image_list
      else image_list)[0 := vec 0 0 0]"

text \<open>
  \<^verbatim>\<open>AABBIterator::updateImageVectors\<close>; raises "The AABBData rcut is too large for this
  box.". The comparison is made in double precision on values that are exact there:
  \<open>twice rmax\<close> is \<^verbatim>\<open>rmax * 2.0\<close>.
\<close>

definition updateImageVectors ::
  "Box \<Rightarrow> float \<Rightarrow> 'a AABBIterator_scheme \<Rightarrow> error + 'a AABBIterator_scheme" where
  "updateImageVectors box rmax it =
     (if (periodic_x box \<and> fle (vx (NearestPlaneDistance box)) (twice rmax)) \<or>
         (periodic_y box \<and> fle (vy (NearestPlaneDistance box)) (twice rmax)) \<or>
         (\<not> is2D box \<and> periodic_z box \<and> fle (vz (NearestPlaneDistance box)) (twice rmax))
      then Inl BoxTooSmall
      else
        let n_total = foldl (\<lambda>n dim. n * 3) 1 [0..<n_dim_periodic box] in
        Inr (it\<lparr>m_n_images := n_total,
                m_image_list :=
                  snd (enumerate_images box n_total
                         (initial_image_list n_total (m_image_list it)))\<rparr>))"

text \<open>The unit cube, periodic on all axes or on none.\<close>

definition unit_cube :: "bool \<Rightarrow> Box" where
  "unit_cube p =
     \<lparr>LatticeVector0 = vec 1 0 0, LatticeVector1 = vec 0 1 0, LatticeVector2 = vec 0 0 1,
      NearestPlaneDistance = vec 1 1 1,
      periodic_x = p, periodic_y = p, periodic_z = p, is2D = False\<rparr>"

text \<open>An iterator at the origin before its image vectors are computed.\<close>

definition fresh_iterator :: AABBIterator where
  "fresh_iterator =
     \<lparr>m_point = vec 0 0 0, m_finished = False, m_n_images = 0, m_image_list = []\<rparr>"

subsection \<open>The check and the number of images\<close>

lemma pow3_loop: "foldl (\<lambda>n dim. n * 3) (a::nat) [0..<d] = a * 3 ^ d"
  by (induction d arbitrary: a) simp_all

lemma enumerate_images_count:
  "fst (enumerate_images box (3 ^ n_dim_periodic box) xs) = 3 ^ n_dim_periodic box"
  by (cases "periodic_x box"; cases "periodic_y box"; cases "periodic_z box"; cases "is2D box")
     (simp_all add: enumerate_images_def n_dim_periodic_def image_body_def)

lemma for_while_inv:
  assumes "P s" "\<And>i s. P s \<Longrightarrow> P (body i s)"
  shows "P (for_while is cond body s)"
  using assms(1) by (induction "is" arbitrary: s) (auto intro: assms(2))

lemma image_body_inv:
  assumes "0 < fst s"
  shows "0 < fst (image_body box i j k s)
       \<and> length (snd (image_body box i j k s)) = length (snd s)
       \<and> snd (image_body box i j k s) ! 0 = snd s ! 0"
  using assms by (cases s) (simp add: image_body_def Let_def)

lemma enumerate_images_first:
  "length (snd (enumerate_images box n xs)) = length xs
   \<and> snd (enumerate_images box n xs) ! 0 = xs ! 0"
proof -
  let ?P = "\<lambda>s. 0 < fst s \<and> length (snd s) = length xs \<and> snd s ! 0 = xs ! 0"
  have "?P (enumerate_images box n xs)"
    unfolding enumerate_images_def
    by (intro for_while_inv [where P = ?P]) (simp_all add: image_body_inv)
  then show ?thesis by simp
qed

lemma initial_image_list_props:
  assumes "0 < n"
  shows "n \<le> length (initial_image_list n xs)" "initial_image_list n xs ! 0 = vec 0 0 0"
proof -
  let ?ys = "if n > length xs then vector_resize n (vec 0 0 0) xs else xs"
  have len: "n \<le> length ?ys" by (simp add: vector_resize_def)
  then show "n \<le> length (initial_image_list n xs)"
    by (simp add: initial_image_list_def)
  from len assms have "0 < length ?ys" by linarith
  then show "initial_image_list n xs ! 0 = vec 0 0 0"
    unfolding initial_image_list_def by (rule nth_list_update_eq)
qed

lemma n_dim_periodic_count:
  "n_dim_periodic box =
     length (filter (\<lambda>b. b) [periodic_x box, periodic_y box, \<not> is2D box \<and> periodic_z box])"
  by (simp add: n_dim_periodic_def)

lemma updateImageVectors_Inr:
  assumes "updateImageVectors box rmax it = Inr it'"
  shows "m_n_images it' = 3 ^ n_dim_periodic box"
    and "enumerate_images box (m_n_images it') (initial_image_list (m_n_images it') (m_image_list it))
           = (m_n_images it', m_image_list it')"
    and "m_n_images it' \<le> length (m_image_list it')"
    and "m_image_list it' ! 0 = vec 0 0 0"
proof -
  let ?n = "(3::nat) ^ n_dim_periodic box"
  let ?xs = "initial_image_list ?n (m_image_list it)"
  from assms have it': "it' = it\<lparr>m_n_images := ?n, m_image_list := snd (enumerate_images box ?n ?xs)\<rparr>"
    by (simp add: updateImageVectors_def pow3_loop Let_def split: if_splits)
  show n: "m_n_images it' = ?n" by (simp add: it')
  show "enumerate_images box (m_n_images it') (initial_image_list (m_n_images it') (m_image_list it))
           = (m_n_images it', m_image_list it')"
    unfolding n using enumerate_images_count [of box ?xs]
    by (simp add: it' prod_eq_iff)
  show "m_n_images it' \<le> length (m_image_list it')"
    using enumerate_images_first [of box ?n ?xs] initial_image_list_props(1) [of ?n "m_image_list it"]
    by (simp add: it')
  show "m_image_list it' ! 0 = vec 0 0 0"
    using enumerate_images_first [of box ?n ?xs] initial_image_list_props(2) [of ?n "m_image_list it"]
    by (simp add: it')
qed

text \<open>
  C4. Computing the image vectors raises \<open>BoxTooSmall\<close> exactly when some periodic axis
  (z only in 3D) has a nearest-plane distance of at most \<open>2 * rmax\<close>, the comparison
  being \<^verbatim>\<open><=\<close> on floating-point values and the doubling exact, and raises nothing
  else. When it does not raise, \<^verbatim>\<open>m_n_images\<close> is \<open>3 ^ d\<close> for \<open>d\<close> the number of periodic
  dimensions, the enumeration loop stops with its counter at that number having filled
  the list it returns, the list has room for them, and its first entry is the zero shift.
\<close>

theorem updateImageVectors_raises_iff:
  "(updateImageVectors box rmax it = Inl BoxTooSmall \<longleftrightarrow>
      (periodic_x box \<and> fle (vx (NearestPlaneDistance box)) (twice rmax)) \<or>
      (periodic_y box \<and> fle (vy (NearestPlaneDistance box)) (twice rmax)) \<or>
      (\<not> is2D box \<and> periodic_z box \<and> fle (vz (NearestPlaneDistance box)) (twice rmax)))
   \<and> (\<forall>e. updateImageVectors box rmax it = Inl e \<longrightarrow> e = BoxTooSmall)
   \<and> (\<forall>it'. updateImageVectors box rmax it = Inr it' \<longrightarrow>
        m_n_images it' =
          3 ^ length (filter (\<lambda>b. b) [periodic_x box, periodic_y box, \<not> is2D box \<and> periodic_z box])
        \<and> enumerate_images box (m_n_images it')
            (initial_image_list (m_n_images it') (m_image_list it))
            = (m_n_images it', m_image_list it')
        \<and> m_n_images it' \<le> length (m_image_list it')
        \<and> m_image_list it' ! 0 = vec 0 0 0)"
proof (intro conjI allI impI)
  show "updateImageVectors box rmax it = Inl BoxTooSmall \<longleftrightarrow>
      (periodic_x box \<and> fle (vx (NearestPlaneDistance box)) (twice rmax)) \<or>
      (periodic_y box \<and> fle (vy (NearestPlaneDistance box)) (twice rmax)) \<or>
      (\<not> is2D box \<and> periodic_z box \<and> fle (vz (NearestPlaneDistance box)) (twice rmax))"
    by (simp add: updateImageVectors_def Let_def mult.commute)
next
  fix e assume "updateImageVectors box rmax it = Inl e"
  then show "e = BoxTooSmall"
    by (simp add: updateImageVectors_def Let_def split: if_splits)
next
  fix it' assume r: "updateImageVectors box rmax it = Inr it'"
  show "m_n_images it' =
          3 ^ length (filter (\<lambda>b. b) [periodic_x box, periodic_y box, \<not> is2D box \<and> periodic_z box])"
    using updateImageVectors_Inr(1) [OF r] by (simp only: n_dim_periodic_count)
  show "enumerate_images box (m_n_images it')
            (initial_image_list (m_n_images it') (m_image_list it))
            = (m_n_images it', m_image_list it')"
    by (rule updateImageVectors_Inr(2) [OF r])
  show "m_n_images it' \<le> length (m_image_list it')"
    by (rule updateImageVectors_Inr(3) [OF r])
  show "m_image_list it' ! 0 = vec 0 0 0"
    by (rule updateImageVectors_Inr(4) [OF r])
qed

lemma updateImageVectors_unit_cube:
  "updateImageVectors (unit_cube True) (rnd (2 / 5)) fresh_iterator =
     Inr \<lparr>m_point = vec 0 0 0, m_finished = False, m_n_images = 27,
          m_image_list =
            [vec 0 0 0, vec (- 1) (- 1) (- 1), vec (- 1) (- 1) 0,
             vec (- 1) (- 1) 1, vec (- 1) 0 (- 1), vec (- 1) 0 0,
             vec (- 1) 0 1, vec (- 1) 1 (- 1), vec (- 1) 1 0,
             vec (- 1) 1 1, vec 0 (- 1) (- 1), vec 0 (- 1) 0,
             vec 0 (- 1) 1, vec 0 0 (- 1), vec 0 0 1, vec 0 1 (- 1),
             vec 0 1 0, vec 0 1 1, vec 1 (- 1) (- 1), vec 1 (- 1) 0,
             vec 1 (- 1) 1, vec 1 0 (- 1), vec 1 0 0, vec 1 0 1,
             vec 1 1 (- 1), vec 1 1 0, vec 1 1 1]\<rparr>"
  by (simp add: updateImageVectors_def unit_cube_def n_dim_periodic_def enumerate_images_def
        initial_image_list_def vector_resize_def image_body_def vadd_def smul_def
        float_of_int_def fresh_iterator_def rnd_decimal eval_nat_numeral)

text \<open>
  Scenario S3 (periodic unit cube, cutoff 0.6) raises; at cutoff 0.4 the same box gives
  27 images. The cutoffs are the floats nearest to 0.6 and 0.4.
\<close>

theorem updateImageVectors_raises_iff_witness:
  "updateImageVectors (unit_cube True) (rnd (3 / 5)) fresh_iterator
     = Inl BoxTooSmall
   \<and> (\<exists>it'. updateImageVectors (unit_cube True) (rnd (2 / 5)) fresh_iterator
              = Inr it'
            \<and> m_n_images it' = 27 \<and> m_image_list it' ! 0 = vec 0 0 0)"
proof -
  note a = updateImageVectors_raises_iff
    [of "unit_cube True" "rnd (3 / 5)" "fresh_iterator"]
  note b = updateImageVectors_raises_iff
    [of "unit_cube True" "rnd (2 / 5)" "fresh_iterator"]
  have "updateImageVectors (unit_cube True) (rnd (3 / 5)) fresh_iterator
     = Inl BoxTooSmall"
    using a by (simp add: unit_cube_def rnd_decimal)
  moreover obtain it' where
    r: "updateImageVectors (unit_cube True) (rnd (2 / 5)) fresh_iterator = Inr it'"
    using updateImageVectors_unit_cube by blast
  from b r have "m_n_images it' = 27 \<and> m_image_list it' ! 0 = vec 0 0 0"
    by (simp add: unit_cube_def)
  ultimately show ?thesis using r by blast
qed

section \<open>The ball iterator (\<^verbatim>\<open>AABBQuery.cc\<close>)\<close>

subsection \<open>Definitions\<close>

text \<open>
  \<^verbatim>\<open>NeighborPoint(j, distance)\<close>, the value an iterator of this file yields for the
  query point it was made for.
\<close>

datatype NeighborPoint = NeighborPoint (np_id: nat) (np_distance: float)

text \<open>
  Modelled from the spec: the value of \<^verbatim>\<open>ITERATOR_TERMINATOR\<close> (defined in a file that is
  not among the sources). Section 3: "a designated sentinel (e.g. all-ones indices ...)
  returned by iterators after exhaustion".
\<close>

definition ITERATOR_TERMINATOR :: NeighborPoint where
  "ITERATOR_TERMINATOR = NeighborPoint (2 ^ 32 - 1) (Finite 0)"

text \<open>
  Modelled from the spec: the AABB primitives and the AABB tree (\<^verbatim>\<open>AABB.h\<close> and
  \<^verbatim>\<open>AABBTree.h\<close> are not among the sources). Section 4.2: "overlap(box, sphere): true
  iff the sphere intersects the closed AABB", that is, the squared distance from the
  center to the box is at most the squared radius. Along each axis the distance from
  the center to the box is the gap between the center and the interval of the box, zero
  when the center lies within; the squared distance is the dot product of the vector
  of gaps with itself, computed in \<^verbatim>\<open>float\<close> as the source computes the squared
  distance to a point. Section 3: the tree is an array of
  nodes in pre-order, each with its AABB, a skip offset, a leaf flag and, for a leaf, a
  bucket of point indices. The accessors
  \<^verbatim>\<open>getNumNodes\<close>, \<^verbatim>\<open>getNodeAABB\<close>, \<^verbatim>\<open>isNodeLeaf\<close>, \<^verbatim>\<open>getNodeNumParticles\<close>,
  \<^verbatim>\<open>getNodeParticleTag\<close> and \<^verbatim>\<open>getNodeSkip\<close> read this array.
\<close>

datatype AABB = AABB (lower: vec3) (upper: vec3)

datatype AABBSphere = AABBSphere (position: vec3) (radius: float)

definition axis_gap :: "float \<Rightarrow> float \<Rightarrow> float \<Rightarrow> float" where
  "axis_gap lo hi c = fmax (Finite 0) (fmax (fsub lo c) (fsub c hi))"

definition overlap :: "AABB \<Rightarrow> AABBSphere \<Rightarrow> bool" where
  "overlap a b \<longleftrightarrow>
     (let gap = Vec3 (axis_gap (vx (lower a)) (vx (upper a)) (vx (position b)))
                     (axis_gap (vy (lower a)) (vy (upper a)) (vy (position b)))
                     (axis_gap (vz (lower a)) (vz (upper a)) (vz (position b)))
      in fle (dot gap gap) (fmul (radius b) (radius b)))"

record AABBNode =
  NodeAABB :: AABB
  NodeSkip :: nat
  NodeLeaf :: bool
  NodeParticles :: "nat list"

text \<open>
  \<^verbatim>\<open>AABBQuery\<close>: the point set with its box and tree. The members of the two iterator
  classes follow; \<^verbatim>\<open>AABBQueryBallIterator\<close> adds its radius and three cursors.
\<close>

record AABBQuery = NeighborQuery +
  m_box :: Box
  m_aabb_tree :: "AABBNode list"

record AABBQueryBallIterator = AABBIterator +
  m_r :: float
  cur_image :: nat
  cur_node_idx :: nat
  cur_p :: nat

text \<open>\<^verbatim>\<open>if (box.is2D()) pos.z = 0\<close>, as done for the query point and for each point read.\<close>

definition flatten_z :: "Box \<Rightarrow> vec3 \<Rightarrow> vec3" where
  "flatten_z box v = (if is2D box then Vec3 (vx v) (vy v) (Finite 0) else v)"

text \<open>
  \<^verbatim>\<open>AABBQueryBallIterator::next\<close>. The three nested \<^verbatim>\<open>while\<close> loops resume from the
  cursors, so every pass through a loop body is a recursive call on the updated
  cursors; the two \<^verbatim>\<open>return\<close> statements end the recursion. Reading the point of a tag
  goes through the indexing operator and may raise.
\<close>

function ball_next ::
  "AABBQuery \<Rightarrow> AABBQueryBallIterator \<Rightarrow> (error + NeighborPoint) \<times> AABBQueryBallIterator" where
  "ball_next sd it =
     (let r_cutsq = fmul (m_r it) (m_r it);
          pos_i = flatten_z (m_box sd) (m_point it)
      in
      if cur_image it < m_n_images it then
        (case raw_read (m_image_list it) (cur_image it) of
           Inl e \<Rightarrow> (Inl e, it)
         | Inr image_vec \<Rightarrow>
             let pos_i_image = vadd pos_i image_vec;
                 asphere = AABBSphere pos_i_image (m_r it)
             in
             if cur_node_idx it < length (m_aabb_tree sd) then
               (if overlap (NodeAABB (m_aabb_tree sd ! cur_node_idx it)) asphere then
                  (if NodeLeaf (m_aabb_tree sd ! cur_node_idx it) then
                     (if cur_p it < length (NodeParticles (m_aabb_tree sd ! cur_node_idx it)) then
                        (let j = NodeParticles (m_aabb_tree sd ! cur_node_idx it) ! cur_p it in
                         case index_op sd j of
                           Inl e \<Rightarrow> (Inl e, it)
                         | Inr p \<Rightarrow>
                             let pos_j = flatten_z (m_box sd) p;
                                 drij = vsub pos_j pos_i_image;
                                 dr_sq = dot drij drij
                             in
                             if flt dr_sq r_cutsq then
                               (Inr (NeighborPoint j (fsqrt dr_sq)), it\<lparr>cur_p := cur_p it + 1\<rparr>)
                             else ball_next sd (it\<lparr>cur_p := cur_p it + 1\<rparr>))
                      else ball_next sd (it\<lparr>cur_node_idx := cur_node_idx it + 1, cur_p := 0\<rparr>))
                   else ball_next sd (it\<lparr>cur_node_idx := cur_node_idx it + 1, cur_p := 0\<rparr>))
                else ball_next sd
                       (it\<lparr>cur_node_idx :=
                             cur_node_idx it + NodeSkip (m_aabb_tree sd ! cur_node_idx it) + 1,
                           cur_p := 0\<rparr>))
             else ball_next sd (it\<lparr>cur_image := cur_image it + 1, cur_node_idx := 0\<rparr>))
      else (Inr ITERATOR_TERMINATOR, it\<lparr>m_finished := True\<rparr>))"
  by pat_completeness auto

text \<open>
  Every pass moves the cursors forward: images left, then nodes left, then particles
  left in the current leaf.
\<close>

definition ball_measure :: "(AABBQuery \<times> AABBQueryBallIterator) \<Rightarrow> nat \<times> nat \<times> nat" where
  "ball_measure x = (case x of (sd, it) \<Rightarrow>
     (m_n_images it - cur_image it,
      length (m_aabb_tree sd) - cur_node_idx it,
      length (NodeParticles (m_aabb_tree sd ! cur_node_idx it)) - cur_p it))"

termination ball_next
  by (relation "inv_image (less_than <*lex*> less_than <*lex*> less_than) ball_measure")
     (auto simp: ball_measure_def)


subsection \<open>One pass through the loop bodies\<close>

text \<open>
  For the proofs, \<open>ball_next\<close> is one step repeated: a step yields a neighbor, raises,
  moves a cursor, or finds the images exhausted.
\<close>

datatype ball_step = Hit NeighborPoint AABBQueryBallIterator | Fail error
  | Advance AABBQueryBallIterator | Exhausted

definition ball_dr_sq :: "AABBQuery \<Rightarrow> vec3 \<Rightarrow> vec3 \<Rightarrow> nat \<Rightarrow> float" where
  "ball_dr_sq sd q image_vec j =
     (let drij = vsub (flatten_z (m_box sd) (m_points sd ! j))
                      (vadd (flatten_z (m_box sd) q) image_vec)
      in dot drij drij)"

definition ball_sphere :: "AABBQuery \<Rightarrow> vec3 \<Rightarrow> float \<Rightarrow> vec3 \<Rightarrow> AABBSphere" where
  "ball_sphere sd q r image_vec = AABBSphere (vadd (flatten_z (m_box sd) q) image_vec) r"

definition ball_step :: "AABBQuery \<Rightarrow> AABBQueryBallIterator \<Rightarrow> ball_step" where
  "ball_step sd it =
     (if cur_image it < m_n_images it then
        (case raw_read (m_image_list it) (cur_image it) of
           Inl e \<Rightarrow> Fail e
         | Inr image_vec \<Rightarrow>
             if cur_node_idx it < length (m_aabb_tree sd) then
               (if overlap (NodeAABB (m_aabb_tree sd ! cur_node_idx it)) (ball_sphere sd (m_point it) (m_r it) image_vec) then
                  (if NodeLeaf (m_aabb_tree sd ! cur_node_idx it) then
                     (if cur_p it < length (NodeParticles (m_aabb_tree sd ! cur_node_idx it)) then
                        (let j = NodeParticles (m_aabb_tree sd ! cur_node_idx it) ! cur_p it in
                         case index_op sd j of
                           Inl e \<Rightarrow> Fail e
                         | Inr p \<Rightarrow>
                             if flt (ball_dr_sq sd (m_point it) image_vec j) (fmul (m_r it) (m_r it)) then
                               Hit (NeighborPoint j (fsqrt (ball_dr_sq sd (m_point it) image_vec j)))
                                 (it\<lparr>cur_p := cur_p it + 1\<rparr>)
                             else Advance (it\<lparr>cur_p := cur_p it + 1\<rparr>))
                      else Advance (it\<lparr>cur_node_idx := cur_node_idx it + 1, cur_p := 0\<rparr>))
                   else Advance (it\<lparr>cur_node_idx := cur_node_idx it + 1, cur_p := 0\<rparr>))
                else Advance
                       (it\<lparr>cur_node_idx :=
                             cur_node_idx it + NodeSkip (m_aabb_tree sd ! cur_node_idx it) + 1,
                           cur_p := 0\<rparr>))
             else Advance (it\<lparr>cur_image := cur_image it + 1, cur_node_idx := 0\<rparr>))
      else Exhausted)"

lemma index_op_read: "index_op sd j = Inr p \<Longrightarrow> p = m_points sd ! j"
  by (auto simp: index_op_def raw_read_def split: if_splits)

declare ball_next.simps [simp del]

lemma ball_next_step:
  "ball_next sd it =
     (case ball_step sd it of
        Hit np it' \<Rightarrow> (Inr np, it')
      | Fail e \<Rightarrow> (Inl e, it)
      | Advance it' \<Rightarrow> ball_next sd it'
      | Exhausted \<Rightarrow> (Inr ITERATOR_TERMINATOR, it\<lparr>m_finished := True\<rparr>))"
  by (subst ball_next.simps)
     (auto simp: ball_step_def ball_dr_sq_def ball_sphere_def Let_def
           split: sum.splits dest: index_op_read)


definition ball_rel :: "((AABBQuery \<times> AABBQueryBallIterator) \<times> (AABBQuery \<times> AABBQueryBallIterator)) set" where
  "ball_rel = inv_image (less_than <*lex*> less_than <*lex*> less_than) ball_measure"

lemma wf_ball_rel: "wf ball_rel"
  unfolding ball_rel_def by (intro wf_inv_image wf_lex_prod wf_less_than)

lemma trans_ball_rel: "trans ball_rel"
  unfolding ball_rel_def by (intro trans_inv_image trans_lex_prod trans_less_than)

definition same_query :: "AABBQueryBallIterator \<Rightarrow> AABBQueryBallIterator \<Rightarrow> bool" where
  "same_query it it' \<longleftrightarrow>
     m_point it' = m_point it \<and> m_n_images it' = m_n_images it \<and>
     m_image_list it' = m_image_list it \<and> m_r it' = m_r it \<and> m_finished it' = m_finished it"

lemma ball_step_Advance:
  "ball_step sd it = Advance it' \<Longrightarrow> ((sd, it'), (sd, it)) \<in> ball_rel \<and> same_query it it'"
  by (auto simp: ball_step_def ball_rel_def ball_measure_def same_query_def Let_def
           split: if_splits sum.splits)

lemma ball_step_Hit:
  "ball_step sd it = Hit np it' \<Longrightarrow> ((sd, it'), (sd, it)) \<in> ball_rel \<and> same_query it it'"
  by (auto simp: ball_step_def ball_rel_def ball_measure_def same_query_def Let_def
           split: if_splits sum.splits)

lemma ball_step_induct:
  assumes "\<And>it. (\<And>it'. ball_step sd it = Advance it' \<Longrightarrow> P it') \<Longrightarrow> P it"
  shows "P it"
proof -
  have "\<forall>it. x = (sd, it) \<longrightarrow> P it" for x
  proof (rule wf_induct [OF wf_ball_rel, of _ x], intro allI impI)
    fix y it
    assume IH: "\<forall>z. (z, y) \<in> ball_rel \<longrightarrow> (\<forall>it. z = (sd, it) \<longrightarrow> P it)" and y: "y = (sd, it)"
    show "P it"
    proof (rule assms)
      fix it' assume "ball_step sd it = Advance it'"
      then have "((sd, it'), y) \<in> ball_rel" unfolding y by (simp add: ball_step_Advance)
      with IH show "P it'" by blast
    qed
  qed
  then show ?thesis by blast
qed

lemma ball_next_progress:
  "ball_next sd it = (Inr np, it') \<Longrightarrow>
     m_finished it' \<or> (\<not> m_finished it \<longrightarrow> \<not> m_finished it' \<and> ((sd, it'), (sd, it)) \<in> ball_rel)"
proof (induction it rule: ball_step_induct [where sd = sd])
  case (1 it)
  show ?case
  proof (cases "ball_step sd it")
    case (Hit np1 it1)
    with "1.prems" have "it' = it1" by (simp add: ball_next_step)
    with ball_step_Hit [OF Hit] show ?thesis by (simp add: same_query_def)
  next
    case (Fail e)
    with "1.prems" show ?thesis by (simp add: ball_next_step)
  next
    case (Advance it1)
    note adv = ball_step_Advance [OF Advance]
    from Advance "1.prems" have "ball_next sd it1 = (Inr np, it')" by (simp add: ball_next_step)
    from "1.IH" [OF Advance this]
    have "m_finished it' \<or> (\<not> m_finished it1 \<longrightarrow> \<not> m_finished it' \<and> ((sd, it'), (sd, it1)) \<in> ball_rel)" .
    moreover have "m_finished it1 = m_finished it" using adv by (simp add: same_query_def)
    moreover have "((sd, it'), (sd, it1)) \<in> ball_rel \<Longrightarrow> ((sd, it'), (sd, it)) \<in> ball_rel"
      using adv trans_ball_rel by (blast dest: transD)
    ultimately show ?thesis by blast
  next
    case Exhausted
    with "1.prems" show ?thesis by (auto simp: ball_next_step)
  qed
qed

text \<open>
  Draining an iterator, as the source does it:
  \<^verbatim>\<open>while(!ball_it->end()) buf.emplace_back(ball_it->next());\<close>. The last element
  pushed is the terminator. When \<^verbatim>\<open>next\<close> raises, the buffer holds what was pushed
  before.
\<close>

function ball_collect ::
  "AABBQuery \<Rightarrow> AABBQueryBallIterator \<Rightarrow> NeighborPoint list \<Rightarrow>
   (error + unit) \<times> NeighborPoint list \<times> AABBQueryBallIterator" where
  "ball_collect sd it buf =
     (if \<not> m_finished it then
        (case ball_next sd it of
           (Inl e, it') \<Rightarrow> (Inl e, buf, it')
         | (Inr np, it') \<Rightarrow> ball_collect sd it' (buf @ [np]))
      else (Inr (), buf, it))"
  by pat_completeness auto

termination ball_collect
proof (relation "inv_image (less_than <*lex*> ball_rel)
          (\<lambda>(sd, it, buf). (if m_finished it then 0 else (1::nat), (sd, it)))")
  show "wf (inv_image (less_than <*lex*> ball_rel)
          (\<lambda>(sd, it, buf). (if m_finished it then 0 else (1::nat), (sd, it))))"
    by (intro wf_inv_image wf_lex_prod wf_less_than wf_ball_rel)
next
  fix sd it buf x1 it' np
  assume "\<not> m_finished it" "(x1, it') = ball_next sd it" "x1 = Inr np"
  then have "ball_next sd it = (Inr np, it')" by simp
  from ball_next_progress [OF this] \<open>\<not> m_finished it\<close>
  have "m_finished it' \<or> (\<not> m_finished it' \<and> ((sd, it'), (sd, it)) \<in> ball_rel)" by blast
  with \<open>\<not> m_finished it\<close>
  show "((sd, it', buf @ [np]), (sd, it, buf)) \<in> inv_image (less_than <*lex*> ball_rel)
          (\<lambda>(sd, it, buf). (if m_finished it then 0 else (1::nat), (sd, it)))"
    by (cases "m_finished it'") simp_all
qed

declare ball_collect.simps [simp del]


subsection \<open>What a traversal yields\<close>

text \<open>
  The neighbors of the points \<open>js\<close> for one image, and what the stackless traversal
  yields from a node on.
\<close>

definition in_ball :: "AABBQuery \<Rightarrow> vec3 \<Rightarrow> float \<Rightarrow> vec3 \<Rightarrow> nat \<Rightarrow> bool" where
  "in_ball sd q r image_vec j \<longleftrightarrow> flt (ball_dr_sq sd q image_vec j) (fmul r r)"

definition ball_bond :: "AABBQuery \<Rightarrow> vec3 \<Rightarrow> vec3 \<Rightarrow> nat \<Rightarrow> NeighborPoint" where
  "ball_bond sd q image_vec j = NeighborPoint j (fsqrt (ball_dr_sq sd q image_vec j))"

definition leaf_hits :: "AABBQuery \<Rightarrow> vec3 \<Rightarrow> float \<Rightarrow> vec3 \<Rightarrow> nat list \<Rightarrow> NeighborPoint list" where
  "leaf_hits sd q r image_vec js = map (ball_bond sd q image_vec) (filter (in_ball sd q r image_vec) js)"

function trav :: "AABBQuery \<Rightarrow> vec3 \<Rightarrow> float \<Rightarrow> vec3 \<Rightarrow> nat \<Rightarrow> NeighborPoint list" where
  "trav sd q r image_vec node =
     (if node < length (m_aabb_tree sd) then
        (if overlap (NodeAABB (m_aabb_tree sd ! node)) (ball_sphere sd q r image_vec) then
           (if NodeLeaf (m_aabb_tree sd ! node)
            then leaf_hits sd q r image_vec (NodeParticles (m_aabb_tree sd ! node)) else [])
           @ trav sd q r image_vec (node + 1)
         else trav sd q r image_vec (node + NodeSkip (m_aabb_tree sd ! node) + 1))
      else [])"
  by pat_completeness auto

termination trav
  by (relation "measure (\<lambda>(sd, q, r, image_vec, node). length (m_aabb_tree sd) - node)") auto

declare trav.simps [simp del]

text \<open>
  What is left to yield from a cursor position: the rest of the current image, then the
  later images.
\<close>

definition cur_part :: "AABBQuery \<Rightarrow> AABBQueryBallIterator \<Rightarrow> vec3 \<Rightarrow> NeighborPoint list" where
  "cur_part sd it image_vec =
     (if cur_node_idx it < length (m_aabb_tree sd) then
        (if overlap (NodeAABB (m_aabb_tree sd ! cur_node_idx it))
              (ball_sphere sd (m_point it) (m_r it) image_vec) then
           (if NodeLeaf (m_aabb_tree sd ! cur_node_idx it)
            then leaf_hits sd (m_point it) (m_r it) image_vec
                   (drop (cur_p it) (NodeParticles (m_aabb_tree sd ! cur_node_idx it)))
            else [])
           @ trav sd (m_point it) (m_r it) image_vec (cur_node_idx it + 1)
         else trav sd (m_point it) (m_r it) image_vec
                (cur_node_idx it + NodeSkip (m_aabb_tree sd ! cur_node_idx it) + 1))
      else [])"

definition later_images :: "AABBQuery \<Rightarrow> AABBQueryBallIterator \<Rightarrow> nat \<Rightarrow> NeighborPoint list" where
  "later_images sd it i =
     concat (map (\<lambda>i. trav sd (m_point it) (m_r it) (m_image_list it ! i) 0) [i..<m_n_images it])"

definition ball_rest :: "AABBQuery \<Rightarrow> AABBQueryBallIterator \<Rightarrow> NeighborPoint list" where
  "ball_rest sd it =
     (if cur_image it < m_n_images it
      then cur_part sd it (m_image_list it ! cur_image it) @ later_images sd it (cur_image it + 1)
      else [])"

text \<open>
  The image list holds the images counted, and the particle cursor is zero once the
  node cursor has left the tree (the source resets it after every node). Every tag in
  the tree is a point index.
\<close>

definition iter_ok :: "AABBQuery \<Rightarrow> AABBQueryBallIterator \<Rightarrow> bool" where
  "iter_ok sd it \<longleftrightarrow>
     m_n_images it \<le> length (m_image_list it) \<and>
     (length (m_aabb_tree sd) \<le> cur_node_idx it \<longrightarrow> cur_p it = 0)"

definition tags_ok :: "AABBQuery \<Rightarrow> bool" where
  "tags_ok sd \<longleftrightarrow>
     length (m_points sd) = m_n_points sd \<and>
     (\<forall>nd \<in> set (m_aabb_tree sd). \<forall>j \<in> set (NodeParticles nd). j < m_n_points sd)"

lemma cur_part_start:
  assumes "cur_p it = 0"
  shows "cur_part sd it image_vec = trav sd (m_point it) (m_r it) image_vec (cur_node_idx it)"
  using assms by (subst trav.simps) (simp add: cur_part_def)

lemma later_images_unfold:
  "i < m_n_images it \<Longrightarrow>
     later_images sd it i =
       trav sd (m_point it) (m_r it) (m_image_list it ! i) 0 @ later_images sd it (i + 1)"
  by (simp add: later_images_def upt_conv_Cons)

lemma later_images_done: "m_n_images it \<le> i \<Longrightarrow> later_images sd it i = []"
  by (simp add: later_images_def)

lemma ball_rest_Advance:
  assumes "ball_step sd it = Advance it'" "iter_ok sd it"
  shows "ball_rest sd it' = ball_rest sd it \<and> iter_ok sd it'"
proof -
  from assms(1) have img: "cur_image it < m_n_images it"
    by (auto simp: ball_step_def split: if_splits)
  with assms(2) have rd: "raw_read (m_image_list it) (cur_image it) = Inr (m_image_list it ! cur_image it)"
    by (simp add: raw_read_def iter_ok_def)
  let ?s = "m_image_list it ! cur_image it"
  let ?nd = "m_aabb_tree sd ! cur_node_idx it"
  show ?thesis
  proof (cases "cur_node_idx it < length (m_aabb_tree sd)")
    case False
    with assms img rd have it': "it' = it\<lparr>cur_image := cur_image it + 1, cur_node_idx := 0\<rparr>"
      by (simp add: ball_step_def)
    from False assms(2) have p0: "cur_p it = 0" by (simp add: iter_ok_def)
    have ok: "iter_ok sd it'" using assms(2) p0 by (simp add: iter_ok_def it')
    have a: "ball_rest sd it = later_images sd it (cur_image it + 1)"
      using img False by (simp add: ball_rest_def cur_part_def)
    have li: "later_images sd it' = later_images sd it"
      by (simp add: later_images_def it' fun_eq_iff)
    show ?thesis
    proof (cases "cur_image it + 1 < m_n_images it")
      case True
      have "cur_part sd it' (m_image_list it ! (cur_image it + 1)) =
              trav sd (m_point it) (m_r it) (m_image_list it ! (cur_image it + 1)) 0"
        using cur_part_start [of it' sd] p0 by (simp add: it')
      then have "ball_rest sd it' =
           trav sd (m_point it) (m_r it) (m_image_list it ! (cur_image it + 1)) 0
           @ later_images sd it (cur_image it + 1 + 1)"
        using True li by (simp add: ball_rest_def it')
      with a later_images_unfold [OF True, of sd] ok show ?thesis by simp
    next
      case False
      then have "ball_rest sd it' = []" by (simp add: ball_rest_def it')
      with a later_images_done [of it "cur_image it + 1" sd] False ok show ?thesis by simp
    qed
  next
    case node: True
    show ?thesis
    proof (cases "overlap (NodeAABB ?nd) (ball_sphere sd (m_point it) (m_r it) ?s)")
      case False
      with assms img rd node have it': "it' = it\<lparr>cur_node_idx := cur_node_idx it + NodeSkip ?nd + 1, cur_p := 0\<rparr>"
        by (simp add: ball_step_def)
      have ok: "iter_ok sd it'" using assms(2) by (simp add: iter_ok_def it')
      have li: "later_images sd it' = later_images sd it"
        by (simp add: later_images_def it' fun_eq_iff)
      have "cur_part sd it' ?s = trav sd (m_point it) (m_r it) ?s (cur_node_idx it + NodeSkip ?nd + 1)"
        using cur_part_start [of it' sd] by (simp add: it')
      moreover have "cur_part sd it ?s = trav sd (m_point it) (m_r it) ?s (cur_node_idx it + NodeSkip ?nd + 1)"
        using node False by (simp add: cur_part_def)
      ultimately show ?thesis using img li ok by (simp add: ball_rest_def it')
    next
      case ov: True
      show ?thesis
      proof (cases "NodeLeaf ?nd \<and> cur_p it < length (NodeParticles ?nd)")
        case False
        with assms img rd node ov have it': "it' = it\<lparr>cur_node_idx := cur_node_idx it + 1, cur_p := 0\<rparr>"
          by (auto simp: ball_step_def split: if_splits)
        have ok: "iter_ok sd it'" using assms(2) by (simp add: iter_ok_def it')
        have li: "later_images sd it' = later_images sd it"
          by (simp add: later_images_def it' fun_eq_iff)
        have "cur_part sd it' ?s = trav sd (m_point it) (m_r it) ?s (cur_node_idx it + 1)"
          using cur_part_start [of it' sd] by (simp add: it')
        moreover have "cur_part sd it ?s = trav sd (m_point it) (m_r it) ?s (cur_node_idx it + 1)"
          using node ov False by (auto simp: cur_part_def leaf_hits_def)
        ultimately show ?thesis using img li ok by (simp add: ball_rest_def it')
      next
        case True
        let ?j = "NodeParticles ?nd ! cur_p it"
        from True assms img rd node ov have
          it': "it' = it\<lparr>cur_p := cur_p it + 1\<rparr>" and
          out: "\<not> flt (ball_dr_sq sd (m_point it) ?s ?j) (fmul (m_r it) (m_r it))"
          by (auto simp: ball_step_def Let_def split: sum.splits if_splits)
        have ok: "iter_ok sd it'" using assms(2) node by (simp add: iter_ok_def it')
        have li: "later_images sd it' = later_images sd it"
          by (simp add: later_images_def it' fun_eq_iff)
        have dr: "drop (cur_p it) (NodeParticles ?nd) = ?j # drop (cur_p it + 1) (NodeParticles ?nd)"
          using True by (simp add: Cons_nth_drop_Suc)
        have "cur_part sd it' ?s = cur_part sd it ?s"
          using out by (simp add: cur_part_def it' dr leaf_hits_def in_ball_def)
        then show ?thesis using img li ok by (simp add: ball_rest_def it')
      qed
    qed
  qed
qed

lemma ball_rest_Hit:
  assumes "ball_step sd it = Hit np it'" "iter_ok sd it"
  shows "ball_rest sd it = np # ball_rest sd it' \<and> iter_ok sd it'"
proof -
  from assms(1) have img: "cur_image it < m_n_images it"
    by (auto simp: ball_step_def split: if_splits)
  with assms(2) have rd: "raw_read (m_image_list it) (cur_image it) = Inr (m_image_list it ! cur_image it)"
    by (simp add: raw_read_def iter_ok_def)
  let ?s = "m_image_list it ! cur_image it"
  let ?nd = "m_aabb_tree sd ! cur_node_idx it"
  let ?j = "NodeParticles ?nd ! cur_p it"
  from assms(1) img rd have
    node: "cur_node_idx it < length (m_aabb_tree sd)" and
    ov: "overlap (NodeAABB ?nd) (ball_sphere sd (m_point it) (m_r it) ?s)" and
    leaf: "NodeLeaf ?nd" and p: "cur_p it < length (NodeParticles ?nd)" and
    hit: "flt (ball_dr_sq sd (m_point it) ?s ?j) (fmul (m_r it) (m_r it))" and
    np: "np = NeighborPoint ?j (fsqrt (ball_dr_sq sd (m_point it) ?s ?j))" and
    it': "it' = it\<lparr>cur_p := cur_p it + 1\<rparr>"
    by (auto simp: ball_step_def Let_def split: sum.splits if_splits)
  have ok: "iter_ok sd it'" using assms(2) node by (simp add: iter_ok_def it')
  have li: "later_images sd it' = later_images sd it"
    by (simp add: later_images_def it' fun_eq_iff)
  have dr: "drop (cur_p it) (NodeParticles ?nd) = ?j # drop (cur_p it + 1) (NodeParticles ?nd)"
    using p by (simp add: Cons_nth_drop_Suc)
  have "cur_part sd it ?s = np # cur_part sd it' ?s"
    using node ov leaf hit
    by (simp add: cur_part_def it' dr leaf_hits_def in_ball_def np ball_bond_def)
  then show ?thesis using img li ok by (simp add: ball_rest_def it')
qed

lemma ball_rest_Exhausted:
  assumes "ball_step sd it = Exhausted"
  shows "ball_rest sd it = []"
  using assms by (auto simp: ball_step_def ball_rest_def Let_def split: if_splits sum.splits)

lemma ball_step_no_Fail:
  assumes "iter_ok sd it" "tags_ok sd"
  shows "ball_step sd it \<noteq> Fail e"
proof -
  have "index_op sd (NodeParticles (m_aabb_tree sd ! cur_node_idx it) ! cur_p it) \<noteq> Inl e'"
    if "cur_node_idx it < length (m_aabb_tree sd)"
       "cur_p it < length (NodeParticles (m_aabb_tree sd ! cur_node_idx it))" for e'
  proof -
    have "NodeParticles (m_aabb_tree sd ! cur_node_idx it) ! cur_p it < m_n_points sd"
      using that assms(2) unfolding tags_ok_def by (meson nth_mem)
    then show ?thesis using assms(2) by (simp add: tags_ok_def index_op_def raw_read_def)
  qed
  then show ?thesis
    using assms(1)
    by (auto simp: ball_step_def iter_ok_def raw_read_def Let_def split: sum.splits)
qed


lemma ball_next_rest:
  assumes "tags_ok sd" "iter_ok sd it"
  shows "\<exists>it'. ball_next sd it =
           (Inr (case ball_rest sd it of [] \<Rightarrow> ITERATOR_TERMINATOR | b # bs \<Rightarrow> b), it')
         \<and> (case ball_rest sd it of
              [] \<Rightarrow> m_finished it'
            | b # bs \<Rightarrow> ball_rest sd it' = bs \<and> iter_ok sd it' \<and> m_finished it' = m_finished it)"
  using assms(2)
proof (induction it rule: ball_step_induct [where sd = sd])
  case (1 it)
  show ?case
  proof (cases "ball_step sd it")
    case (Hit np it1)
    from ball_rest_Hit [OF Hit "1.prems"] ball_step_Hit [OF Hit] show ?thesis
      by (simp add: ball_next_step Hit same_query_def)
  next
    case (Fail e)
    with ball_step_no_Fail [OF "1.prems" assms(1), of e] show ?thesis by simp
  next
    case (Advance it1)
    from ball_rest_Advance [OF Advance "1.prems"] ball_step_Advance [OF Advance]
    have eq: "ball_rest sd it1 = ball_rest sd it" "iter_ok sd it1" "m_finished it1 = m_finished it"
      by (simp_all add: same_query_def)
    have "ball_next sd it = ball_next sd it1"
      by (subst ball_next_step) (simp add: Advance)
    with "1.IH" [OF Advance eq(2)] show ?thesis
      by (auto simp: eq split: list.splits)
  next
    case Exhausted
    with ball_rest_Exhausted [OF Exhausted] show ?thesis
      by (simp add: ball_next_step)
  qed
qed

lemma ball_collect_rest:
  assumes "tags_ok sd" "iter_ok sd it" "\<not> m_finished it"
  shows "\<exists>it'. ball_collect sd it buf = (Inr (), buf @ ball_rest sd it @ [ITERATOR_TERMINATOR], it')
            \<and> m_finished it'"
  using assms(2,3)
proof (induction "ball_rest sd it" arbitrary: it buf)
  case Nil
  from ball_next_rest [OF assms(1) Nil.prems(1)] Nil.hyps [symmetric]
  obtain it' where "ball_next sd it = (Inr ITERATOR_TERMINATOR, it')" "m_finished it'"
    by auto
  then show ?case
    using Nil.prems(2) Nil.hyps [symmetric]
    by (subst ball_collect.simps, simp, subst ball_collect.simps, simp)
next
  case (Cons b bs)
  from ball_next_rest [OF assms(1) Cons.prems(1)] Cons.hyps(2) [symmetric]
  obtain it' where n: "ball_next sd it = (Inr b, it')" "ball_rest sd it' = bs" "iter_ok sd it'"
    "m_finished it' = m_finished it"
    by auto
  have nf: "\<not> m_finished it'" using n(4) Cons.prems(2) by simp
  from Cons.hyps(1) [OF n(2) [symmetric] n(3) nf, of "buf @ [b]"]
  obtain it'' where
    "ball_collect sd it' (buf @ [b]) =
       (Inr (), (buf @ [b]) @ ball_rest sd it' @ [ITERATOR_TERMINATOR], it'')"
    "m_finished it''" by blast
  then show ?case
    using Cons.prems(2) n(1) n(2) Cons.hyps(2) [symmetric]
    by (subst ball_collect.simps) simp
qed

subsection \<open>The tree\<close>

text \<open>
  Modelled from the spec: the tree that \<^verbatim>\<open>buildTree\<close> lays out (Section 3). The array is
  the pre-order layout of a binary tree; the skip offset of a node is the number of its
  descendants, which is what a miss adds before the increment in the traversal of the
  source; the AABB of a node contains the points below it; every point index is in
  exactly one leaf. The points are those given to the build, their z zeroed in 2D.
\<close>

datatype aabb_tree = Leaf AABB "nat list" | Node AABB aabb_tree aabb_tree

fun flatten :: "aabb_tree \<Rightarrow> AABBNode list" where
  "flatten (Leaf bb js) =
     [\<lparr>NodeAABB = bb, NodeSkip = 0, NodeLeaf = True, NodeParticles = js\<rparr>]"
| "flatten (Node bb l r) =
     \<lparr>NodeAABB = bb, NodeSkip = length (flatten l) + length (flatten r), NodeLeaf = False,
      NodeParticles = []\<rparr> # flatten l @ flatten r"

fun tags :: "aabb_tree \<Rightarrow> nat list" where
  "tags (Leaf bb js) = js"
| "tags (Node bb l r) = tags l @ tags r"

definition inside :: "AABB \<Rightarrow> vec3 \<Rightarrow> bool" where
  "inside bb p \<longleftrightarrow>
     fle (vx (lower bb)) (vx p) \<and> fle (vx p) (vx (upper bb)) \<and>
     fle (vy (lower bb)) (vy p) \<and> fle (vy p) (vy (upper bb)) \<and>
     fle (vz (lower bb)) (vz p) \<and> fle (vz p) (vz (upper bb))"

fun bounding :: "(nat \<Rightarrow> vec3) \<Rightarrow> aabb_tree \<Rightarrow> bool" where
  "bounding pos (Leaf bb js) \<longleftrightarrow> (\<forall>j \<in> set js. inside bb (pos j))"
| "bounding pos (Node bb l r) \<longleftrightarrow>
     (\<forall>j \<in> set (tags l @ tags r). inside bb (pos j)) \<and> bounding pos l \<and> bounding pos r"

definition tree_over_points :: "AABBQuery \<Rightarrow> aabb_tree \<Rightarrow> bool" where
  "tree_over_points sd t \<longleftrightarrow>
     m_aabb_tree sd = flatten t \<and>
     bounding (\<lambda>j. flatten_z (m_box sd) (m_points sd ! j)) t \<and>
     mset (tags t) = mset [0..<m_n_points sd]"

text \<open>
  Pruning is sound in floating point: a box that contains a point within the radius,
  as the source tests it, overlaps the sphere. Rounding is monotone, so the squared
  distance to the box never comes out above the squared distance to the point.
\<close>

lemma rnd_le_Finite:
  assumes "0 \<le> x" "x \<le> y" "rnd y = Finite s"
  shows "\<exists>t. rnd x = Finite t \<and> 0 \<le> t \<and> t \<le> s"
  using rnd_mono [OF assms(2)] rnd_nonneg [OF assms(1)] assms(3)
  by (cases "rnd x") simp_all

lemma fmul_self_Finite:
  assumes "fmul a a = Finite s"
  shows "\<exists>x. a = Finite x \<and> rnd (x * x) = Finite s \<and> 0 \<le> s"
proof (cases a)
  case (Finite x)
  with assms have r: "rnd (x * x) = Finite s" by simp
  with rnd_nonneg [of "x * x"] have "0 \<le> s" by simp
  with Finite r show ?thesis by simp
qed (use assms in simp_all)

lemma fadd_Finite:
  assumes "fadd a b = Finite s"
  shows "\<exists>x y. a = Finite x \<and> b = Finite y \<and> rnd (x + y) = Finite s"
  using assms by (cases a; cases b) simp_all

lemma fsub_Finite:
  assumes "fsub a b = Finite s"
  shows "\<exists>x y. a = Finite x \<and> b = Finite y \<and> rnd (x - y) = Finite s"
  using assms by (cases a; cases b) (simp_all add: fsub_def)

text \<open>A product of a float with itself, and a sum of such, is a NaN or not negative.\<close>

definition nonneg_or_NaN :: "float \<Rightarrow> bool" where
  "nonneg_or_NaN a \<longleftrightarrow> a = NaN \<or> fle (Finite 0) a"

lemma fmul_self_nonneg: "nonneg_or_NaN (fmul a a)"
  using rnd_nonneg [of "x * x" for x]
  by (cases a) (simp_all add: nonneg_or_NaN_def inf_of_sign_def)

lemma fadd_nonneg:
  assumes "nonneg_or_NaN a" "nonneg_or_NaN b"
  shows "nonneg_or_NaN (fadd a b)"
proof (cases a; cases b)
  fix x y assume "a = Finite x" "b = Finite y"
  with assms rnd_nonneg [of "x + y"] show ?thesis by (simp add: nonneg_or_NaN_def)
qed (use assms in \<open>simp_all add: nonneg_or_NaN_def\<close>)

lemma dot_self_nonneg: "nonneg_or_NaN (dot d d)"
  unfolding dot_def by (intro fadd_nonneg fmul_self_nonneg)

lemma flt_nonneg_Finite:
  assumes "flt a b" "nonneg_or_NaN a"
  shows "\<exists>x. a = Finite x \<and> 0 \<le> x"
  using assms by (cases a; cases b) (simp_all add: nonneg_or_NaN_def)

text \<open>
  Along one axis: for a point between the bounds whose difference from the center is
  finite, the gap from the center to the interval is finite, not negative and at most
  that difference in absolute value.
\<close>

lemma axis_gap_le:
  assumes "fle lo p" "fle p hi" "fsub p c = Finite d"
  shows "\<exists>g. axis_gap lo hi c = Finite g \<and> 0 \<le> g \<and> g \<le> \<bar>d\<bar>"
proof -
  from fsub_Finite [OF assms(3)] obtain x y where
    p: "p = Finite x" and c: "c = Finite y" and d: "rnd (x - y) = Finite d" by blast
  have a: "fle (fsub lo c) (Finite d)"
  proof (cases lo)
    case (Finite l)
    with assms(1) p have "l - y \<le> x - y" by simp
    from rnd_mono [OF this] show ?thesis by (simp add: Finite c fsub_def d)
  qed (use assms(1) p c in \<open>simp_all add: fsub_def\<close>)
  have b: "fle (fsub c hi) (Finite (- d))"
  proof (cases hi)
    case (Finite h)
    with assms(2) p have "y - h \<le> y - x" by simp
    moreover have "rnd (y - x) = Finite (- d)" using rnd_minus [of "x - y"] d by simp
    ultimately show ?thesis using rnd_mono [of "y - h" "y - x"] by (simp add: Finite c fsub_def)
  qed (use assms(2) p c in \<open>simp_all add: fsub_def\<close>)
  have m: "fle (fmax (fsub lo c) (fsub c hi)) (Finite \<bar>d\<bar>)"
    using a b by (cases "fsub lo c"; cases "fsub c hi") (auto simp: fmax_def)
  then show ?thesis
    by (cases "fmax (fsub lo c) (fsub c hi)") (auto simp: axis_gap_def fmax_def)
qed

lemma square_le_Finite:
  assumes "0 \<le> g" "g \<le> \<bar>d\<bar>" "rnd (d * d) = Finite s"
  shows "\<exists>t. rnd (g * g) = Finite t \<and> 0 \<le> t \<and> t \<le> s"
proof -
  have "g * g \<le> \<bar>d\<bar> * \<bar>d\<bar>" using assms(1,2) by (intro mult_mono) simp_all
  then have "g * g \<le> d * d" by simp
  with assms(1,3) show ?thesis by (intro rnd_le_Finite) simp_all
qed

lemma overlap_if_inside:
  assumes "inside bb p" "flt (dot (vsub p c) (vsub p c)) (fmul r r)"
  shows "overlap bb (AABBSphere c r)"
proof -
  let ?d = "vsub p c"
  from flt_nonneg_Finite [OF assms(2) dot_self_nonneg] obtain D where
    D: "dot ?d ?d = Finite D" by blast
  from fadd_Finite [OF D [unfolded dot_def]] obtain u sz where
    u: "fadd (fmul (vx ?d) (vx ?d)) (fmul (vy ?d) (vy ?d)) = Finite u" and
    sz: "fmul (vz ?d) (vz ?d) = Finite sz" and uD: "rnd (u + sz) = Finite D" by blast
  from fadd_Finite [OF u] obtain sx sy where
    sx: "fmul (vx ?d) (vx ?d) = Finite sx" and sy: "fmul (vy ?d) (vy ?d) = Finite sy" and
    su: "rnd (sx + sy) = Finite u" by blast
  from fmul_self_Finite [OF sx] obtain dx where
    dx: "fsub (vx p) (vx c) = Finite dx" "rnd (dx * dx) = Finite sx" "0 \<le> sx"
    by (auto simp: vsub_def)
  from fmul_self_Finite [OF sy] obtain dy where
    dy: "fsub (vy p) (vy c) = Finite dy" "rnd (dy * dy) = Finite sy" "0 \<le> sy"
    by (auto simp: vsub_def)
  from fmul_self_Finite [OF sz] obtain dz where
    dz: "fsub (vz p) (vz c) = Finite dz" "rnd (dz * dz) = Finite sz" "0 \<le> sz"
    by (auto simp: vsub_def)
  from assms(1) axis_gap_le [OF _ _ dx(1)] obtain gx where
    gx: "axis_gap (vx (lower bb)) (vx (upper bb)) (vx c) = Finite gx" "0 \<le> gx" "gx \<le> \<bar>dx\<bar>"
    unfolding inside_def by blast
  from assms(1) axis_gap_le [OF _ _ dy(1)] obtain gy where
    gy: "axis_gap (vy (lower bb)) (vy (upper bb)) (vy c) = Finite gy" "0 \<le> gy" "gy \<le> \<bar>dy\<bar>"
    unfolding inside_def by blast
  from assms(1) axis_gap_le [OF _ _ dz(1)] obtain gz where
    gz: "axis_gap (vz (lower bb)) (vz (upper bb)) (vz c) = Finite gz" "0 \<le> gz" "gz \<le> \<bar>dz\<bar>"
    unfolding inside_def by blast
  from square_le_Finite [OF gx(2,3) dx(2)] obtain tx where
    tx: "rnd (gx * gx) = Finite tx" "0 \<le> tx" "tx \<le> sx" by blast
  from square_le_Finite [OF gy(2,3) dy(2)] obtain ty where
    ty: "rnd (gy * gy) = Finite ty" "0 \<le> ty" "ty \<le> sy" by blast
  from square_le_Finite [OF gz(2,3) dz(2)] obtain tz where
    tz: "rnd (gz * gz) = Finite tz" "0 \<le> tz" "tz \<le> sz" by blast
  from rnd_le_Finite [OF _ _ su, of "tx + ty"] tx ty obtain v where
    v: "rnd (tx + ty) = Finite v" "0 \<le> v" "v \<le> u" by auto
  from rnd_le_Finite [OF _ _ uD, of "v + tz"] v tz obtain T where
    T: "rnd (v + tz) = Finite T" "T \<le> D" by auto
  have "fle (Finite T) (fmul r r)"
    using assms(2) T(2) unfolding D by (cases "fmul r r") simp_all
  then show ?thesis
    by (simp add: overlap_def dot_def gx(1) gy(1) gz(1) tx(1) ty(1) tz(1) v(1) T(1))
qed

lemma leaf_hits_empty:
  assumes "\<forall>j \<in> set js. inside bb (flatten_z (m_box sd) (m_points sd ! j))"
    "\<not> overlap bb (ball_sphere sd q r s)"
  shows "leaf_hits sd q r s js = []"
proof -
  have "\<not> in_ball sd q r s j" if "j \<in> set js" for j
    using overlap_if_inside [of bb "flatten_z (m_box sd) (m_points sd ! j)"
        "vadd (flatten_z (m_box sd) q) s" r] that assms
    by (auto simp: in_ball_def ball_dr_sq_def ball_sphere_def Let_def)
  then show ?thesis by (simp add: leaf_hits_def filter_empty_conv)
qed

lemma leaf_hits_append:
  "leaf_hits sd q r s (xs @ ys) = leaf_hits sd q r s xs @ leaf_hits sd q r s ys"
  by (simp add: leaf_hits_def)

lemma trav_subtree:
  assumes "m_aabb_tree sd = pre @ flatten t @ post"
    "bounding (\<lambda>j. flatten_z (m_box sd) (m_points sd ! j)) t"
  shows "trav sd q r s (length pre) =
           leaf_hits sd q r s (tags t) @ trav sd q r s (length pre + length (flatten t))"
  using assms
proof (induction t arbitrary: pre post)
  case (Leaf bb js)
  let ?nd = "\<lparr>NodeAABB = bb, NodeSkip = 0, NodeLeaf = True, NodeParticles = js\<rparr>"
  have nd: "m_aabb_tree sd ! length pre = ?nd" "length pre < length (m_aabb_tree sd)"
    using Leaf.prems(1) by simp_all
  show ?case
  proof (cases "overlap bb (ball_sphere sd q r s)")
    case True
    then show ?thesis by (subst trav.simps) (simp add: nd)
  next
    case False
    with leaf_hits_empty [of js bb sd q r s] Leaf.prems(2) show ?thesis
      by (subst trav.simps) (simp add: nd)
  qed
next
  case (Node bb l rt)
  let ?nd = "\<lparr>NodeAABB = bb, NodeSkip = length (flatten l) + length (flatten rt),
              NodeLeaf = False, NodeParticles = []\<rparr>"
  have nd: "m_aabb_tree sd ! length pre = ?nd" "length pre < length (m_aabb_tree sd)"
    using Node.prems(1) by simp_all
  show ?case
  proof (cases "overlap bb (ball_sphere sd q r s)")
    case True
    have l: "trav sd q r s (length (pre @ [?nd])) =
               leaf_hits sd q r s (tags l) @ trav sd q r s (length (pre @ [?nd]) + length (flatten l))"
      using Node.prems by (intro Node.IH(1) [of "pre @ [?nd]" "flatten rt @ post"]) simp_all
    have r: "trav sd q r s (length (pre @ ?nd # flatten l)) =
               leaf_hits sd q r s (tags rt)
               @ trav sd q r s (length (pre @ ?nd # flatten l) + length (flatten rt))"
      using Node.prems by (intro Node.IH(2) [of "pre @ ?nd # flatten l" post]) simp_all
    have "trav sd q r s (length pre) = trav sd q r s (length pre + 1)"
      using True by (subst trav.simps) (simp add: nd)
    with l r show ?thesis by (simp add: leaf_hits_append ac_simps)
  next
    case False
    have "leaf_hits sd q r s (tags (Node bb l rt)) = []"
      using leaf_hits_empty [of "tags (Node bb l rt)" bb sd q r s] Node.prems(2) False by simp
    moreover have "trav sd q r s (length pre) =
        trav sd q r s (length pre + (length (flatten l) + length (flatten rt)) + 1)"
      using False by (subst trav.simps) (simp add: nd)
    ultimately show ?thesis by (simp add: ac_simps)
  qed
qed

lemma trav_past_end: "length (m_aabb_tree sd) \<le> node \<Longrightarrow> trav sd q r s node = []"
  by (subst trav.simps) simp

lemma trav_root:
  assumes "tree_over_points sd t"
  shows "trav sd q r s 0 = leaf_hits sd q r s (tags t)"
  using trav_subtree [of sd "[]" t "[]" q r s] assms trav_past_end [of sd "length (flatten t)" q r s]
  by (simp add: tree_over_points_def)

lemma tags_flatten: "(\<Union>nd \<in> set (flatten t). set (NodeParticles nd)) = set (tags t)"
  by (induction t) auto

lemma tree_tags_ok:
  assumes "tree_over_points sd t" "length (m_points sd) = m_n_points sd"
  shows "tags_ok sd"
proof -
  have "set (tags t) = {0..<m_n_points sd}"
    using assms(1) by (metis tree_over_points_def set_mset_mset set_upt)
  with tags_flatten [of t] assms show ?thesis
    by (fastforce simp: tags_ok_def tree_over_points_def)
qed


subsection \<open>Completeness of the ball query\<close>

text \<open>
  Modelled from the spec: the constructor of \<^verbatim>\<open>AABBQueryBallIterator\<close> that
  \<^verbatim>\<open>AABBQuery::queryBall\<close> calls (its header is not among the sources). Section 4.5.1
  and Section 7: the cursors start at zero and the image vectors are computed for the
  radius at construction.
\<close>

definition queryBall :: "AABBQuery \<Rightarrow> vec3 \<Rightarrow> float \<Rightarrow> error + AABBQueryBallIterator" where
  "queryBall sd point r =
     updateImageVectors (m_box sd) r
       \<lparr>m_point = point, m_finished = False, m_n_images = 0, m_image_list = [],
        m_r = r, cur_image = 0, cur_node_idx = 0, cur_p = 0\<rparr>"

text \<open>
  The bonds of a ball, stated apart from the iterator. In 2D all z coordinates are
  treated as zero (Section 3). \<open>image_dist_sq\<close> is the squared distance from the image
  \<open>q + s\<close> of the query point to point \<open>j\<close> in \<^verbatim>\<open>float\<close> arithmetic: the difference
  vector, then its dot product with itself. A point belongs to the ball of radius \<open>r\<close>
  when this is below the \<^verbatim>\<open>float\<close> product \<open>r * r\<close>, and its bond carries the \<^verbatim>\<open>float\<close>
  square root as distance.
\<close>

definition project :: "Box \<Rightarrow> vec3 \<Rightarrow> vec3" where
  "project box v = Vec3 (vx v) (vy v) (if is2D box then Finite 0 else vz v)"

definition image_dist_sq :: "AABBQuery \<Rightarrow> vec3 \<Rightarrow> vec3 \<Rightarrow> nat \<Rightarrow> float" where
  "image_dist_sq sd q s j =
     (let d = vsub (project (m_box sd) (m_points sd ! j)) (vadd (project (m_box sd) q) s)
      in dot d d)"

definition ball_bonds :: "AABBQuery \<Rightarrow> vec3 \<Rightarrow> float \<Rightarrow> vec3 list \<Rightarrow> NeighborPoint list" where
  "ball_bonds sd q r images =
     concat (map (\<lambda>s. map (\<lambda>j. NeighborPoint j (fsqrt (image_dist_sq sd q s j)))
                         (filter (\<lambda>j. flt (image_dist_sq sd q s j) (fmul r r))
                            [0..<m_n_points sd]))
                 images)"

text \<open>
  The claim as it is stated, in exact arithmetic on finite coordinates: the Euclidean
  distance from the image \<open>q + s\<close> to point \<open>j\<close> as a real number, and the pairs
  \<open>(j, d)\<close> with \<open>d < r\<close>.
\<close>

definition value_of :: "float \<Rightarrow> real" where
  "value_of a = (case a of Finite x \<Rightarrow> x | PlusInf \<Rightarrow> 0 | MinusInf \<Rightarrow> 0 | NaN \<Rightarrow> 0)"

definition exact_distance :: "AABBQuery \<Rightarrow> vec3 \<Rightarrow> vec3 \<Rightarrow> nat \<Rightarrow> real" where
  "exact_distance sd q s j =
     (let p = project (m_box sd) (m_points sd ! j); c = project (m_box sd) q in
      sqrt ((value_of (vx p) - (value_of (vx c) + value_of (vx s)))\<^sup>2
          + (value_of (vy p) - (value_of (vy c) + value_of (vy s)))\<^sup>2
          + (value_of (vz p) - (value_of (vz c) + value_of (vz s)))\<^sup>2))"

definition exact_ball :: "AABBQuery \<Rightarrow> vec3 \<Rightarrow> real \<Rightarrow> vec3 list \<Rightarrow> (nat \<times> real) list" where
  "exact_ball sd q r images =
     concat (map (\<lambda>s. map (\<lambda>j. (j, exact_distance sd q s j))
                         (filter (\<lambda>j. exact_distance sd q s j < r) [0..<m_n_points sd]))
                 images)"

text \<open>
  The image vectors of a box as a fresh iterator computes them, and what a ball query
  of radius \<open>r\<close> around \<open>q\<close> yields, in the order of the traversal.
\<close>

definition box_images :: "Box \<Rightarrow> vec3 list" where
  "box_images box =
     take (3 ^ n_dim_periodic box)
       (snd (enumerate_images box (3 ^ n_dim_periodic box)
               (initial_image_list (3 ^ n_dim_periodic box) [])))"

definition ball_found :: "AABBQuery \<Rightarrow> aabb_tree \<Rightarrow> vec3 \<Rightarrow> float \<Rightarrow> NeighborPoint list" where
  "ball_found sd t q r =
     concat (map (\<lambda>s. leaf_hits sd q r s (tags t)) (box_images (m_box sd)))"

lemma updateImageVectors_frame:
  assumes "updateImageVectors box rmax it = Inr it'"
  shows "\<exists>n xs. it' = it\<lparr>m_n_images := n, m_image_list := xs\<rparr>"
  using assms by (auto simp: updateImageVectors_def Let_def split: if_splits)

lemma queryBall_Inr:
  assumes "queryBall sd q r = Inr it0"
  shows "m_point it0 = q" "m_r it0 = r" "\<not> m_finished it0" "cur_image it0 = 0"
    "cur_node_idx it0 = 0" "cur_p it0 = 0" "m_n_images it0 \<le> length (m_image_list it0)"
proof -
  from assms updateImageVectors_frame obtain n xs where
    "it0 = \<lparr>m_point = q, m_finished = False, m_n_images = 0, m_image_list = [],
        m_r = r, cur_image = 0, cur_node_idx = 0, cur_p = 0\<rparr>\<lparr>m_n_images := n, m_image_list := xs\<rparr>"
    unfolding queryBall_def by blast
  then show "m_point it0 = q" "m_r it0 = r" "\<not> m_finished it0" "cur_image it0 = 0"
    "cur_node_idx it0 = 0" "cur_p it0 = 0" by simp_all
  show "m_n_images it0 \<le> length (m_image_list it0)"
    using assms unfolding queryBall_def by (rule updateImageVectors_Inr(3))
qed

lemma queryBall_images:
  assumes "queryBall sd q r = Inr it0"
  shows "take (m_n_images it0) (m_image_list it0) = box_images (m_box sd)"
  using assms
  by (auto simp: queryBall_def updateImageVectors_def box_images_def pow3_loop Let_def
           split: if_splits)

lemma queryBall_Inl:
  assumes "queryBall sd q r = Inl e"
  shows "e = BoxTooSmall"
  using assms by (auto simp: queryBall_def updateImageVectors_def Let_def split: if_splits)

lemma flatten_z_project: "flatten_z box v = project box v"
  by (cases v) (simp add: flatten_z_def project_def)

lemma ball_dr_sq_image: "ball_dr_sq sd q s j = image_dist_sq sd q s j"
  by (simp add: ball_dr_sq_def image_dist_sq_def flatten_z_project)

lemma mset_leaf_hits:
  assumes "mset js = mset ks"
  shows "mset (leaf_hits sd q r s js) = mset (leaf_hits sd q r s ks)"
proof -
  have "mset (leaf_hits sd q r s xs) =
          image_mset (ball_bond sd q s) (filter_mset (in_ball sd q r s) (mset xs))" for xs
    by (simp add: leaf_hits_def)
  then show ?thesis using assms by simp
qed

lemma leaf_hits_bonds:
  "leaf_hits sd q r s js =
     map (\<lambda>j. NeighborPoint j (fsqrt (image_dist_sq sd q s j)))
       (filter (\<lambda>j. flt (image_dist_sq sd q s j) (fmul r r)) js)"
  by (simp add: leaf_hits_def ball_bond_def in_ball_def ball_dr_sq_image fun_eq_iff
        cong: filter_cong)

lemma ball_rest_initial:
  assumes "tree_over_points sd t" "queryBall sd q r = Inr it0"
  shows "ball_rest sd it0 =
           concat (map (\<lambda>s. leaf_hits sd q r s (tags t)) (take (m_n_images it0) (m_image_list it0)))"
proof -
  note i = queryBall_Inr [OF assms(2)]
  have "ball_rest sd it0 = later_images sd it0 0"
    using cur_part_start [of it0 sd "m_image_list it0 ! 0"] i later_images_unfold [of 0 it0 sd]
      later_images_done [of it0 0 sd]
    by (cases "0 < m_n_images it0") (simp_all add: ball_rest_def)
  also have "\<dots> = concat (map (\<lambda>i. leaf_hits sd q r (m_image_list it0 ! i) (tags t)) [0..<m_n_images it0])"
    by (simp add: later_images_def i trav_root [OF assms(1)])
  also have "map (\<lambda>i. leaf_hits sd q r (m_image_list it0 ! i) (tags t)) [0..<m_n_images it0] =
      map (\<lambda>s. leaf_hits sd q r s (tags t)) (take (m_n_images it0) (m_image_list it0))"
    using i(7) by (intro nth_equalityI) simp_all
  finally show ?thesis .
qed

lemma mset_concat_map_cong:
  assumes "\<And>x. x \<in> set xs \<Longrightarrow> mset (f x) = mset (g x)"
  shows "mset (concat (map f xs)) = mset (concat (map g xs))"
  using assms by (induction xs) simp_all

text \<open>
  Draining a fresh ball iterator over a tree yields the points found, in traversal
  order, then the terminator.
\<close>

lemma ball_collect_found:
  assumes "tree_over_points sd t" "length (m_points sd) = m_n_points sd"
    "queryBall sd q r = Inr it0"
  shows "\<exists>it'. ball_collect sd it0 buf =
                 (Inr (), buf @ ball_found sd t q r @ [ITERATOR_TERMINATOR], it')
               \<and> m_finished it'"
proof -
  note i = queryBall_Inr [OF assms(3)]
  have ok: "iter_ok sd it0" using i by (simp add: iter_ok_def)
  from ball_collect_rest [OF tree_tags_ok [OF assms(1,2)] ok i(3), of buf]
  obtain it' where
    "ball_collect sd it0 buf = (Inr (), buf @ ball_rest sd it0 @ [ITERATOR_TERMINATOR], it')"
    "m_finished it'"
    by auto
  then show ?thesis
    by (simp add: ball_rest_initial [OF assms(1,3)] queryBall_images [OF assms(3)] ball_found_def)
qed

lemma mset_ball_found:
  assumes "tree_over_points sd t"
  shows "mset (ball_found sd t q r) = mset (ball_bonds sd q r (box_images (m_box sd)))"
proof -
  have "mset (ball_found sd t q r) =
          mset (concat (map (\<lambda>s. leaf_hits sd q r s [0..<m_n_points sd]) (box_images (m_box sd))))"
    unfolding ball_found_def
    using assms(1) by (intro mset_concat_map_cong mset_leaf_hits) (simp add: tree_over_points_def)
  then show ?thesis by (simp add: ball_bonds_def leaf_hits_bonds)
qed


text \<open>
  C1, amended. For a tree laid out over the points and an iterator that the
  image-vector check let through, whatever the radius, draining the ball iterator
  terminates with the terminator as its last value and the iterator finished. The bonds
  before the terminator are, as a multiset, exactly the pairs \<open>(j, d)\<close> with \<open>j\<close> a point
  index and \<open>s\<close> one of the enumerated images such that the squared distance from
  \<open>q + s\<close> to point \<open>j\<close> is below \<open>r * r\<close>, both computed in \<^verbatim>\<open>float\<close> and compared
  strictly, and \<open>d\<close> is the \<^verbatim>\<open>float\<close> square root of that squared distance.
\<close>

theorem ball_query_complete:
  assumes "tree_over_points sd t" "length (m_points sd) = m_n_points sd"
    "queryBall sd q r = Inr it0"
  shows "\<exists>bonds it'. ball_collect sd it0 [] = (Inr (), bonds @ [ITERATOR_TERMINATOR], it')
           \<and> m_finished it'
           \<and> mset bonds =
               mset (concat (map (\<lambda>s. map (\<lambda>j. NeighborPoint j (fsqrt (image_dist_sq sd q s j)))
                                         (filter (\<lambda>j. flt (image_dist_sq sd q s j) (fmul r r))
                                            [0..<m_n_points sd]))
                                 (take (m_n_images it0) (m_image_list it0))))"
proof -
  from ball_collect_found [OF assms, of "[]"] obtain it' where
    "ball_collect sd it0 [] = (Inr (), ball_found sd t q r @ [ITERATOR_TERMINATOR], it')"
    "m_finished it'" by auto
  moreover have "mset (ball_found sd t q r) =
      mset (concat (map (\<lambda>s. map (\<lambda>j. NeighborPoint j (fsqrt (image_dist_sq sd q s j)))
                                (filter (\<lambda>j. flt (image_dist_sq sd q s j) (fmul r r))
                                   [0..<m_n_points sd]))
                        (take (m_n_images it0) (m_image_list it0))))"
    using mset_ball_found [OF assms(1), of q r]
    by (simp only: ball_bonds_def queryBall_images [OF assms(3)])
  ultimately show ?thesis by blast
qed

subsection \<open>Examples\<close>

text \<open>
  The unit cube with open boundaries and three points on the x axis in one leaf, after
  scenario S1 but with coordinates that are exact in binary: the points are at 0, 0.375
  and 0.875, the query point at 0.25.
\<close>

definition line_tree :: aabb_tree where
  "line_tree = Leaf (AABB (vec 0 0 0) (vec (7 / 8) 0 0)) [0, 1, 2]"

definition line_query :: AABBQuery where
  "line_query =
     \<lparr>m_points = [vec 0 0 0, vec (3 / 8) 0 0, vec (7 / 8) 0 0], m_n_points = 3,
      m_box = unit_cube False, m_aabb_tree = flatten line_tree\<rparr>"

text \<open>The ball iterator for the point (0.25, 0, 0) and the radius \<open>r\<close> as constructed.\<close>

definition line_iter :: "float \<Rightarrow> AABBQueryBallIterator" where
  "line_iter r =
     \<lparr>m_point = vec (1 / 4) 0 0, m_finished = False, m_n_images = 1,
      m_image_list = [vec 0 0 0], m_r = r, cur_image = 0, cur_node_idx = 0, cur_p = 0\<rparr>"

text \<open>
  A cube of side 32768 with open boundaries and the single point (11277, 2864, 0), at
  distance 11635 from the origin.
\<close>

definition wide_box :: Box where
  "wide_box =
     \<lparr>LatticeVector0 = vec 32768 0 0, LatticeVector1 = vec 0 32768 0,
      LatticeVector2 = vec 0 0 32768, NearestPlaneDistance = vec 32768 32768 32768,
      periodic_x = False, periodic_y = False, periodic_z = False, is2D = False\<rparr>"

definition wide_tree :: aabb_tree where
  "wide_tree = Leaf (AABB (vec 11277 2864 0) (vec 11277 2864 0)) [0]"

definition wide_query :: AABBQuery where
  "wide_query =
     \<lparr>m_points = [vec 11277 2864 0], m_n_points = 1,
      m_box = wide_box, m_aabb_tree = flatten wide_tree\<rparr>"

definition wide_iter :: AABBQueryBallIterator where
  "wide_iter =
     \<lparr>m_point = vec 0 0 0, m_finished = False, m_n_images = 1,
      m_image_list = [vec 0 0 0], m_r = Finite 11635, cur_image = 0, cur_node_idx = 0,
      cur_p = 0\<rparr>"

lemma line_tree_ok: "tree_over_points line_query line_tree"
  by (simp add: tree_over_points_def line_query_def line_tree_def inside_def flatten_z_def
        unit_cube_def upt_rec)

lemma line_length: "length (m_points line_query) = m_n_points line_query"
  by (simp add: line_query_def)

lemma line_queryBall: "queryBall line_query (vec (1 / 4) 0 0) r = Inr (line_iter r)"
  by (simp add: queryBall_def line_query_def line_iter_def updateImageVectors_def unit_cube_def
        n_dim_periodic_def enumerate_images_def initial_image_list_def vector_resize_def
        image_body_def)

lemma line_box_images: "box_images (m_box line_query) = [vec 0 0 0]"
  by (simp add: box_images_def line_query_def unit_cube_def n_dim_periodic_def
        enumerate_images_def initial_image_list_def vector_resize_def image_body_def)

lemma wide_tree_ok: "tree_over_points wide_query wide_tree"
  by (simp add: tree_over_points_def wide_query_def wide_tree_def inside_def flatten_z_def
        wide_box_def)

lemma wide_length: "length (m_points wide_query) = m_n_points wide_query"
  by (simp add: wide_query_def)

lemma wide_queryBall: "queryBall wide_query (vec 0 0 0) (Finite 11635) = Inr wide_iter"
  by (simp add: queryBall_def wide_query_def wide_iter_def updateImageVectors_def wide_box_def
        n_dim_periodic_def enumerate_images_def initial_image_list_def vector_resize_def
        image_body_def)

lemma wide_box_images: "box_images (m_box wide_query) = [vec 0 0 0]"
  by (simp add: box_images_def wide_query_def wide_box_def n_dim_periodic_def
        enumerate_images_def initial_image_list_def vector_resize_def image_body_def)

text \<open>The roundings that occur in the examples.\<close>

lemma rounding_dyadic:
  "rnd (1 / 4) = Finite (1 / 4)" "rnd (1 / 8) = Finite (1 / 8)" "rnd (5 / 8) = Finite (5 / 8)"
  "rnd (1 / 16) = Finite (1 / 16)" "rnd (1 / 64) = Finite (1 / 64)"
  "rnd (25 / 64) = Finite (25 / 64)"
  using rnd_exact [of 1 "- 2"] rnd_exact [of 1 "- 3"] rnd_exact [of 5 "- 3"]
    rnd_exact [of 1 "- 4"] rnd_exact [of 1 "- 6"] rnd_exact [of 25 "- 6"]
  by simp_all

lemma sqrt_dyadic: "sqrt (1 / 64) = 1 / 8" "sqrt (1 / 16) = 1 / 4"
  by (rule real_sqrt_unique; simp add: power2_eq_square)+

lemma wide_rounding:
  "rnd 11277 = Finite 11277" "rnd 2864 = Finite 2864"
  "rnd 8202496 = Finite 8202496" "rnd 135373216 = Finite 135373216"
  "rnd 127170729 = Finite 127170728"
  "rnd 135373224 = Finite 135373216"
  "rnd 135373225 = Finite 135373232"
proof -
  show "rnd 11277 = Finite 11277" "rnd 2864 = Finite 2864"
    "rnd 8202496 = Finite 8202496" "rnd 135373216 = Finite 135373216"
    using rnd_exact [of 11277 0] rnd_exact [of 2864 0] rnd_exact [of 8202496 0]
      rnd_exact [of 8460826 4]
    by simp_all
  show "rnd 127170729 = Finite 127170728"
    by (subst rnd_from_binade [of 26]) (simp_all add: rhe_def)
  show "rnd 135373224 = Finite 135373216"
    by (subst rnd_from_binade [of 27]) (simp_all add: rhe_def)
  show "rnd 135373225 = Finite 135373232"
    by (subst rnd_from_binade [of 27]) (simp_all add: rhe_def)
qed

lemma wide_sqrt: "rnd (sqrt 135373216) = Finite 11635"
proof -
  have lo: "11635 - 1 / 2048 < sqrt 135373216"
    by (rule real_less_rsqrt) (simp add: power2_eq_square field_simps)
  have hi: "sqrt 135373216 < 11635"
    by (rule real_less_lsqrt) (simp_all add: power2_eq_square)
  have "rhe (sqrt 135373216 / 2 powi (13 - 23)) = 11914240"
    using lo hi by (intro rhe_eq) (simp_all add: field_simps)
  moreover have "2 powi 13 \<le> sqrt 135373216" "sqrt 135373216 < 2 powi (13 + 1)"
    using lo hi by simp_all
  ultimately show ?thesis
    by (subst rnd_from_binade [of 13]) simp_all
qed

text \<open>What the ball queries of the examples find.\<close>

lemma line_found:
  "ball_found line_query line_tree (vec (1 / 4) 0 0) (Finite (1 / 4)) =
     [NeighborPoint 1 (Finite (1 / 8))]"
  "ball_found line_query line_tree (vec (1 / 4) 0 0) (Finite (- (1 / 2))) =
     [NeighborPoint 0 (Finite (1 / 4)), NeighborPoint 1 (Finite (1 / 8))]"
  unfolding ball_found_def line_box_images
  by (simp_all add: line_query_def leaf_hits_bonds line_tree_def image_dist_sq_def project_def
       unit_cube_def vsub_def vadd_def dot_def fsub_def rounding_dyadic rnd_minus sqrt_dyadic)

lemma wide_found:
  "ball_found wide_query wide_tree (vec 0 0 0) (Finite 11635) = [NeighborPoint 0 (Finite 11635)]"
  unfolding ball_found_def wide_box_images
  by (simp add: wide_query_def leaf_hits_bonds wide_tree_def image_dist_sq_def project_def
       wide_box_def vsub_def vadd_def dot_def fsub_def wide_rounding wide_sqrt)

lemma line_bonds:
  "ball_bonds line_query (vec (1 / 4) 0 0) (Finite (1 / 4)) [vec 0 0 0] =
     [NeighborPoint 1 (Finite (1 / 8))]"
  using mset_ball_found [OF line_tree_ok, of "vec (1 / 4) 0 0" "Finite (1 / 4)"]
  by (simp add: line_found line_box_images)

text \<open>
  On the first example with radius 0.25 the hypotheses hold and the iterator yields the
  bond to point 1 at distance 0.125 and then the terminator. Point 0 lies at distance
  0.25, which is not below the radius.
\<close>

theorem ball_query_complete_witness:
  "\<exists>it'. ball_collect line_query (line_iter (Finite (1 / 4))) [] =
           (Inr (), [NeighborPoint 1 (Finite (1 / 8)), ITERATOR_TERMINATOR], it')
         \<and> m_finished it'"
proof -
  from ball_query_complete [OF line_tree_ok line_length line_queryBall, of "Finite (1 / 4)"]
  obtain bonds it' where
    c: "ball_collect line_query (line_iter (Finite (1 / 4))) [] =
          (Inr (), bonds @ [ITERATOR_TERMINATOR], it')"
      "m_finished it'" and
    m: "mset bonds =
          mset (concat (map (\<lambda>s. map (\<lambda>j. NeighborPoint j
                  (fsqrt (image_dist_sq line_query (vec (1 / 4) 0 0) s j)))
              (filter (\<lambda>j. flt (image_dist_sq line_query (vec (1 / 4) 0 0) s j)
                              (fmul (Finite (1 / 4)) (Finite (1 / 4))))
                 [0..<m_n_points line_query]))
            (take (m_n_images (line_iter (Finite (1 / 4))))
               (m_image_list (line_iter (Finite (1 / 4)))))))"
    by blast
  have tk: "take (m_n_images (line_iter (Finite (1 / 4))))
              (m_image_list (line_iter (Finite (1 / 4)))) = [vec 0 0 0]"
    by (simp add: line_iter_def)
  have "mset bonds =
          mset (ball_bonds line_query (vec (1 / 4) 0 0) (Finite (1 / 4)) [vec 0 0 0])"
    using m unfolding tk by (simp only: ball_bonds_def)
  then have "mset bonds = mset [NeighborPoint 1 (Finite (1 / 8))]" by (simp only: line_bonds)
  then have "bonds = [NeighborPoint 1 (Finite (1 / 8))]" by simp
  with c show ?thesis by auto
qed

text \<open>
  C1, as stated, fails on the code, in two ways.

  The comparison is made between rounded squares. In the second example the point lies
  at distance 11635 from the query point, exactly, and the radius is 11635, so the
  claimed set is empty. The squares of the coordinates are 127170729, rounded to
  127170728, and 8202496; their sum 135373224 lies halfway between two floats and is
  rounded to 135373216, while the square of the radius, 135373225, is rounded to
  135373232. The iterator yields the point, with the distance 11635.

  The radius is squared before it is used. A negative radius passes the image-vector
  check; in the first example at radius -0.5 the iterator yields the points 0 and 1,
  and no distance is below -0.5.
\<close>

theorem ball_query_not_the_exact_ball:
  "queryBall wide_query (vec 0 0 0) (Finite 11635) = Inr wide_iter
   \<and> fst (snd (ball_collect wide_query wide_iter [])) =
       [NeighborPoint 0 (Finite 11635), ITERATOR_TERMINATOR]
   \<and> exact_distance wide_query (vec 0 0 0) (vec 0 0 0) 0 = 11635
   \<and> exact_ball wide_query (vec 0 0 0) 11635 [vec 0 0 0] = []
   \<and> queryBall line_query (vec (1 / 4) 0 0) (Finite (- (1 / 2))) = Inr (line_iter (Finite (- (1 / 2))))
   \<and> fst (snd (ball_collect line_query (line_iter (Finite (- (1 / 2)))) [])) =
       [NeighborPoint 0 (Finite (1 / 4)), NeighborPoint 1 (Finite (1 / 8)), ITERATOR_TERMINATOR]
   \<and> exact_ball line_query (vec (1 / 4) 0 0) (- (1 / 2)) [vec 0 0 0] = []"
proof -
  from ball_collect_found [OF wide_tree_ok wide_length wide_queryBall, of "[]"]
  have w: "fst (snd (ball_collect wide_query wide_iter [])) =
             [NeighborPoint 0 (Finite 11635), ITERATOR_TERMINATOR]"
    by (auto simp: wide_found)
  from ball_collect_found
    [OF line_tree_ok line_length line_queryBall [of "Finite (- (1 / 2))"], of "[]"]
  have l: "fst (snd (ball_collect line_query (line_iter (Finite (- (1 / 2)))) [])) =
       [NeighborPoint 0 (Finite (1 / 4)), NeighborPoint 1 (Finite (1 / 8)), ITERATOR_TERMINATOR]"
    by (auto simp: line_found)
  have "sqrt (135373225::real) = 11635"
    by (rule real_sqrt_unique) simp_all
  then have d: "exact_distance wide_query (vec 0 0 0) (vec 0 0 0) 0 = 11635"
    by (simp add: exact_distance_def wide_query_def project_def wide_box_def value_of_def)
  have ew: "exact_ball wide_query (vec 0 0 0) 11635 [vec 0 0 0] = []"
    using d by (simp add: exact_ball_def wide_query_def)
  have "0 \<le> exact_distance line_query (vec (1 / 4) 0 0) (vec 0 0 0) j" for j
    by (simp add: exact_distance_def Let_def)
  then have "\<not> exact_distance line_query (vec (1 / 4) 0 0) (vec 0 0 0) j < - (1 / 2)" for j
    by (simp add: not_less order_trans [of "- (1 / 2)" 0])
  then have el: "exact_ball line_query (vec (1 / 4) 0 0) (- (1 / 2)) [vec 0 0 0] = []"
    by (simp add: exact_ball_def)
  from w l d ew el wide_queryBall line_queryBall show ?thesis by simp
qed

section \<open>The k-nearest-neighbor iterator (\<^verbatim>\<open>AABBQuery.cc\<close>)\<close>

subsection \<open>Definitions\<close>

text \<open>
  The members of \<^verbatim>\<open>AABBQueryIterator\<close>. The members \<^verbatim>\<open>m_k\<close> and \<^verbatim>\<open>m_r\<close> of the source
  are \<open>m_k_nn\<close> and \<open>m_r_nn\<close> here, the plain names being those of the records above.
\<close>

record AABBQueryIterator = AABBIterator +
  m_k_nn :: nat
  m_r_nn :: float
  m_scale :: float
  m_current_neighbors :: "NeighborPoint list"

text \<open>
  Modelled from the spec: the order \<^verbatim>\<open>std::sort\<close> uses, \<^verbatim>\<open>operator<\<close> of
  \<^verbatim>\<open>NeighborPoint\<close> (its header is not among the sources). Section 4.5.2: "Sort the
  buffer by (distance, point_idx) ascending". The distances are ranked as \<^verbatim>\<open><\<close> on
  \<^verbatim>\<open>float\<close> ranks them; a NaN, which no ball query yields, is put last.
\<close>

fun float_rank :: "float \<Rightarrow> nat \<times> real" where
  "float_rank MinusInf = (0, 0)"
| "float_rank (Finite x) = (1, x)"
| "float_rank PlusInf = (2, 0)"
| "float_rank NaN = (3, 0)"

definition np_key :: "NeighborPoint \<Rightarrow> (nat \<times> real) \<times> nat" where
  "np_key b = (float_rank (np_distance b), np_id b)"

text \<open>\<^verbatim>\<open>std::min(std::min(plane_distance.x, plane_distance.y), plane_distance.z)\<close>.\<close>

definition min_plane_distance :: "Box \<Rightarrow> float" where
  "min_plane_distance box =
     fmin (fmin (vx (NearestPlaneDistance box)) (vy (NearestPlaneDistance box)))
          (vz (NearestPlaneDistance box))"

text \<open>
  The \<^verbatim>\<open>while (true)\<close> loop of \<^verbatim>\<open>AABBQueryIterator::next\<close>: the buffer is cleared, a ball
  query at the current radius is drained into it and the terminator popped; then one
  of the two \<^verbatim>\<open>break\<close>s or another round at the radius \<^verbatim>\<open>m_r *= m_scale\<close>. The loop has
  no bound, so the function is partial: \<open>None\<close> is a loop that never ends. An exception
  of the ball query leaves the loop; the iterator is then as the loop left it, the
  buffer cleared or partly filled and the radius as scaled so far.
\<close>

partial_function (option) expand_radius ::
  "AABBQuery \<Rightarrow> AABBQueryIterator \<Rightarrow> ((error + unit) \<times> AABBQueryIterator) option" where
  "expand_radius sd it =
     (let it0 = it\<lparr>m_current_neighbors := []\<rparr> in
      case queryBall sd (m_point it0) (m_r_nn it0) of
        Inl e \<Rightarrow> Some (Inl e, it0)
      | Inr ball_it \<Rightarrow>
          (case ball_collect sd ball_it (m_current_neighbors it0) of
             (Inl e, buf, ball_it') \<Rightarrow> Some (Inl e, it0\<lparr>m_current_neighbors := buf\<rparr>)
           | (Inr u, buf, ball_it') \<Rightarrow>
               let it1 = it0\<lparr>m_current_neighbors := butlast buf\<rparr> in
               if length (m_current_neighbors it1) \<ge> m_k_nn it1 then Some (Inr (), it1)
               else
                 let it2 = it1\<lparr>m_r_nn := fmul (m_r_nn it1) (m_scale it1)\<rparr> in
                 if fgt (m_r_nn it2) (fhalf (min_plane_distance (m_box sd)))
                 then Some (Inr (), it2)
                 else expand_radius sd it2))"

text \<open>
  \<^verbatim>\<open>AABBQueryIterator::next\<close>. The buffer is sorted in descending order (reverse
  iterators), so \<^verbatim>\<open>back()\<close> is the nearest neighbor left. When the buffer is empty after
  the loop, control reaches the closing brace of a function returning a value, which is
  undefined behaviour.
\<close>

definition knn_next ::
  "AABBQuery \<Rightarrow> AABBQueryIterator \<Rightarrow> ((error + NeighborPoint) \<times> AABBQueryIterator) option" where
  "knn_next sd it =
     (if m_finished it then Some (Inr ITERATOR_TERMINATOR, it)
      else
        (case (if m_current_neighbors it = [] then expand_radius sd it else Some (Inr (), it)) of
           None \<Rightarrow> None
         | Some (Inl e, it1) \<Rightarrow> Some (Inl e, it1)
         | Some (Inr u, it1) \<Rightarrow>
             if m_current_neighbors it1 \<noteq> [] then
               (let sorted_desc = rev (sort_key np_key (m_current_neighbors it1));
                    ret_obj = last sorted_desc;
                    it2 = it1\<lparr>m_current_neighbors := butlast sorted_desc\<rparr>;
                    it3 = (if m_current_neighbors it2 = [] then it2\<lparr>m_finished := True\<rparr> else it2)
                in Some (Inr ret_obj, it3))
             else Some (Inl UndefinedBehavior, it1)))"

text \<open>The results of the first \<open>n\<close> calls of \<^verbatim>\<open>next\<close>, stopping at an error.\<close>

fun knn_take ::
  "AABBQuery \<Rightarrow> AABBQueryIterator \<Rightarrow> nat \<Rightarrow> ((error + NeighborPoint) list \<times> AABBQueryIterator) option" where
  "knn_take sd it 0 = Some ([], it)"
| "knn_take sd it (Suc n) =
     (case knn_next sd it of
        None \<Rightarrow> None
      | Some (Inl e, it') \<Rightarrow> Some ([Inl e], it')
      | Some (Inr np, it') \<Rightarrow>
          (case knn_take sd it' n of
             None \<Rightarrow> None
           | Some (rs, it'') \<Rightarrow> Some (Inr np # rs, it'')))"

text \<open>
  The radius of round \<open>n\<close> of the loop, the iterator as round \<open>n\<close> finds it, and when
  round \<open>n\<close> is the last: its ball query raises, or finds \<open>k\<close> points or more, or the
  next radius exceeds half the smallest plane distance. The points of a ball are
  counted by \<open>ball_bonds\<close>, apart from the iterator.
\<close>

primrec radius_after :: "AABBQueryIterator \<Rightarrow> nat \<Rightarrow> float" where
  "radius_after it 0 = m_r_nn it"
| "radius_after it (Suc n) = fmul (radius_after it n) (m_scale it)"

definition knn_round :: "AABBQueryIterator \<Rightarrow> nat \<Rightarrow> AABBQueryIterator" where
  "knn_round it n = it\<lparr>m_r_nn := radius_after it n, m_current_neighbors := []\<rparr>"

definition knn_ball :: "AABBQuery \<Rightarrow> AABBQueryIterator \<Rightarrow> nat \<Rightarrow> NeighborPoint list" where
  "knn_ball sd it n = ball_bonds sd (m_point it) (radius_after it n) (box_images (m_box sd))"

definition knn_halts :: "AABBQuery \<Rightarrow> AABBQueryIterator \<Rightarrow> nat \<Rightarrow> bool" where
  "knn_halts sd it n \<longleftrightarrow>
     isl (queryBall sd (m_point it) (radius_after it n))
     \<or> m_k_nn it \<le> length (knn_ball sd it n)
     \<or> fgt (radius_after it (Suc n)) (fhalf (min_plane_distance (m_box sd)))"

subsection \<open>The radius expansion\<close>

lemma radius_after_step:
  "radius_after (it\<lparr>m_current_neighbors := B, m_r_nn := fmul (m_r_nn it) (m_scale it)\<rparr>) n
     = radius_after it (Suc n)"
  by (induction n) simp_all

lemma knn_ball_length:
  assumes "tree_over_points sd t"
  shows "length (ball_found sd t (m_point it) (radius_after it n)) = length (knn_ball sd it n)"
  using mset_ball_found [OF assms, of "m_point it" "radius_after it n"]
  by (metis knn_ball_def size_mset)

lemma knn_halts_step:
  "knn_halts sd (it\<lparr>m_current_neighbors := B, m_r_nn := fmul (m_r_nn it) (m_scale it)\<rparr>) n
     = knn_halts sd it (Suc n)"
  unfolding knn_halts_def knn_ball_def radius_after_step by simp

text \<open>One round of the loop over a tree: the ball query does not raise in the draining.\<close>

lemma expand_radius_step:
  assumes "tree_over_points sd t" "length (m_points sd) = m_n_points sd"
  shows "expand_radius sd it =
     (case queryBall sd (m_point it) (m_r_nn it) of
        Inl e \<Rightarrow> Some (Inl BoxTooSmall, it\<lparr>m_current_neighbors := []\<rparr>)
      | Inr ball_it \<Rightarrow>
          if m_k_nn it \<le> length (ball_found sd t (m_point it) (m_r_nn it))
          then Some (Inr (), it\<lparr>m_current_neighbors := ball_found sd t (m_point it) (m_r_nn it)\<rparr>)
          else if fgt (fmul (m_r_nn it) (m_scale it)) (fhalf (min_plane_distance (m_box sd)))
          then Some (Inr (), it\<lparr>m_current_neighbors := ball_found sd t (m_point it) (m_r_nn it),
                                m_r_nn := fmul (m_r_nn it) (m_scale it)\<rparr>)
          else expand_radius sd
                 (it\<lparr>m_current_neighbors := ball_found sd t (m_point it) (m_r_nn it),
                     m_r_nn := fmul (m_r_nn it) (m_scale it)\<rparr>))"
proof (cases "queryBall sd (m_point it) (m_r_nn it)")
  case (Inl e)
  with queryBall_Inl [OF Inl] show ?thesis by (subst expand_radius.simps) simp
next
  case (Inr it0)
  from ball_collect_found [OF assms Inr, of "[]"] obtain it' where
    "ball_collect sd it0 [] =
       (Inr (), ball_found sd t (m_point it) (m_r_nn it) @ [ITERATOR_TERMINATOR], it')" by auto
  then show ?thesis using Inr
    by (subst expand_radius.simps) (simp add: Let_def)
qed

text \<open>
  The loop that ends in round \<open>n\<close>: with the exception of the ball query, or with the
  buffer of round \<open>n\<close> and the radius of that round, scaled once more when it found
  fewer than \<open>k\<close> points.
\<close>

definition knn_outcome ::
  "AABBQuery \<Rightarrow> aabb_tree \<Rightarrow> AABBQueryIterator \<Rightarrow> nat \<Rightarrow> (error + unit) \<times> AABBQueryIterator" where
  "knn_outcome sd t it n =
     (if isl (queryBall sd (m_point it) (radius_after it n))
      then (Inl BoxTooSmall, it\<lparr>m_r_nn := radius_after it n, m_current_neighbors := []\<rparr>)
      else (Inr (),
            it\<lparr>m_r_nn := (if m_k_nn it \<le> length (knn_ball sd it n) then radius_after it n
                           else radius_after it (Suc n)),
               m_current_neighbors := ball_found sd t (m_point it) (radius_after it n)\<rparr>))"

lemma knn_outcome_step:
  "knn_outcome sd t (it\<lparr>m_current_neighbors := B, m_r_nn := fmul (m_r_nn it) (m_scale it)\<rparr>) n
     = knn_outcome sd t it (Suc n)"
  unfolding knn_outcome_def knn_ball_def radius_after_step by simp

lemma expand_radius_rounds:
  assumes "tree_over_points sd t" "length (m_points sd) = m_n_points sd"
    "knn_halts sd it n" "\<forall>m < n. \<not> knn_halts sd it m"
  shows "expand_radius sd it = Some (knn_outcome sd t it n)"
  using assms(3,4)
proof (induction n arbitrary: it)
  case 0
  note len = knn_ball_length [OF assms(1), of it 0]
  show ?case
  proof (cases "queryBall sd (m_point it) (m_r_nn it)")
    case (Inl e)
    then show ?thesis
      by (subst expand_radius_step [OF assms(1,2)]) (simp add: knn_outcome_def)
  next
    case (Inr it0)
    with "0.prems"(1) len show ?thesis
      by (subst expand_radius_step [OF assms(1,2)]) (auto simp: knn_outcome_def knn_halts_def)
  qed
next
  case (Suc n)
  let ?it2 = "it\<lparr>m_current_neighbors := ball_found sd t (m_point it) (m_r_nn it),
                 m_r_nn := fmul (m_r_nn it) (m_scale it)\<rparr>"
  note len = knn_ball_length [OF assms(1), of it 0]
  from Suc.prems(2) have no: "\<not> knn_halts sd it 0" by simp
  then obtain it0 where q: "queryBall sd (m_point it) (m_r_nn it) = Inr it0"
    by (cases "queryBall sd (m_point it) (m_r_nn it)") (simp_all add: knn_halts_def)
  have go: "expand_radius sd it = expand_radius sd ?it2"
    using no len q
    by (subst expand_radius_step [OF assms(1,2)]) (simp add: knn_halts_def)
  have h: "knn_halts sd ?it2 n" using Suc.prems(1) by (simp only: knn_halts_step)
  have b: "\<forall>m < n. \<not> knn_halts sd ?it2 m"
    using Suc.prems(2) by (simp only: knn_halts_step) auto
  from Suc.IH [OF h b] go show ?case by (simp only: knn_outcome_step)
qed

text \<open>A loop that ends has a last round.\<close>

lemma expand_radius_Some_halts:
  assumes "expand_radius sd it = Some y"
  shows "tree_over_points sd t \<longrightarrow> length (m_points sd) = m_n_points sd \<longrightarrow>
           (\<exists>n. knn_halts sd it n)"
  using assms
proof (induction sd it y rule: expand_radius.raw_induct [rotated 1, consumes 1, case_names round])
  case (round f sd it y)
  show ?case
  proof (intro impI)
    assume tr: "tree_over_points sd t" "length (m_points sd) = m_n_points sd"
    let ?found = "ball_found sd t (m_point it) (m_r_nn it)"
    let ?it2 = "it\<lparr>m_current_neighbors := ?found, m_r_nn := fmul (m_r_nn it) (m_scale it)\<rparr>"
    note len = knn_ball_length [OF tr(1), of it 0]
    show "\<exists>n. knn_halts sd it n"
    proof (cases "knn_halts sd it 0")
      case True
      then show ?thesis by blast
    next
      case False
      then obtain it0 where q: "queryBall sd (m_point it) (m_r_nn it) = Inr it0"
        by (cases "queryBall sd (m_point it) (m_r_nn it)") (simp_all add: knn_halts_def)
      from ball_collect_found [OF tr q, of "[]"] obtain it' where
        c: "ball_collect sd it0 [] = (Inr (), ?found @ [ITERATOR_TERMINATOR], it')" by auto
      from round.hyps q c False len have "f sd ?it2 = Some y"
        by (simp add: Let_def knn_halts_def)
      from round.IH [OF this] tr obtain n where "knn_halts sd ?it2 n" by blast
      then have "knn_halts sd it (Suc n)" by (simp only: knn_halts_step)
      then show ?thesis by blast
    qed
  qed
qed

lemma expand_radius_None:
  assumes "tree_over_points sd t" "length (m_points sd) = m_n_points sd"
    "\<forall>n. \<not> knn_halts sd it n"
  shows "expand_radius sd it = None"
proof (cases "expand_radius sd it")
  case (Some y)
  from expand_radius_Some_halts [OF Some, of t] assms show ?thesis by blast
qed simp

subsection \<open>Draining the buffer\<close>

lemma inj_np_key: "inj np_key"
proof (rule injI)
  fix a b assume "np_key a = np_key b"
  moreover have "float_rank x = float_rank y \<Longrightarrow> x = y" for x y
    by (cases x; cases y) simp_all
  ultimately show "a = b" by (auto simp: np_key_def NeighborPoint.expand)
qed

lemma sort_key_mset:
  assumes "mset xs = mset ys"
  shows "sort_key np_key xs = sort_key np_key ys"
proof (rule sort_key_inj_key_eq)
  show "mset xs = mset (sort_key np_key ys)" using assms by simp
  show "inj_on np_key (set xs)" by (rule inj_on_subset [OF inj_np_key]) simp
  show "sorted (map np_key (sort_key np_key ys))" by (rule sorted_sort_key)
qed

lemma knn_next_finished:
  "m_finished it \<Longrightarrow> knn_next sd it = Some (Inr ITERATOR_TERMINATOR, it)"
  by (simp add: knn_next_def)

lemma knn_next_pop:
  assumes "\<not> m_finished it" "m_current_neighbors it \<noteq> []"
  shows "\<exists>it'. knn_next sd it = Some (Inr (hd (sort_key np_key (m_current_neighbors it))), it')
           \<and> m_current_neighbors it' = rev (tl (sort_key np_key (m_current_neighbors it)))
           \<and> m_finished it' = (tl (sort_key np_key (m_current_neighbors it)) = [])"
proof -
  let ?S = "sort_key np_key (m_current_neighbors it)"
  have ne: "?S \<noteq> []" using assms(2) by (metis length_sort length_0_conv)
  then have "last (rev ?S) = hd ?S" "butlast (rev ?S) = rev (tl ?S)"
    by (simp_all add: last_rev butlast_rev)
  then show ?thesis using assms by (simp add: knn_next_def Let_def)
qed

lemma knn_next_after_expand:
  assumes "\<not> m_finished it" "m_current_neighbors it = []"
    "expand_radius sd it = Some (Inr (), it1)" "\<not> m_finished it1" "m_current_neighbors it1 \<noteq> []"
  shows "knn_next sd it = knn_next sd it1"
  using assms by (simp add: knn_next_def)

lemma knn_take_finished:
  "m_finished it \<Longrightarrow> knn_take sd it (Suc 0) = Some ([Inr ITERATOR_TERMINATOR], it)"
  by (simp add: knn_next_finished)

lemma knn_drain:
  assumes "\<not> m_finished it" "m_current_neighbors it = B" "B \<noteq> []"
  shows "\<exists>it'. knn_take sd it (Suc (length B)) =
                 Some (map Inr (sort_key np_key B) @ [Inr ITERATOR_TERMINATOR], it')
             \<and> m_finished it'"
  using assms
proof (induction "length B" arbitrary: it B)
  case 0
  then show ?case by simp
next
  case (Suc n)
  let ?S = "sort_key np_key B"
  have len: "length ?S = Suc n" using Suc.hyps(2) by simp
  then obtain a A where S: "?S = a # A" by (cases ?S) auto
  from knn_next_pop [of it sd] Suc.prems S obtain it1 where
    nx: "knn_next sd it = Some (Inr a, it1)" and
    buf: "m_current_neighbors it1 = rev A" and fin: "m_finished it1 = (A = [])"
    by auto
  show ?case
  proof (cases "A = []")
    case True
    with fin knn_take_finished [of it1 sd] S len show ?thesis
      using nx Suc.hyps(2) [symmetric] by simp
  next
    case False
    have lenA: "n = length (rev A)" using len S by simp
    from Suc.hyps(1) [OF lenA _ buf] fin False obtain it' where
      tk: "knn_take sd it1 (Suc (length (rev A))) =
             Some (map Inr (sort_key np_key (rev A)) @ [Inr ITERATOR_TERMINATOR], it')"
      and f': "m_finished it'" by auto
    have "sorted (map np_key ?S)" by (rule sorted_sort_key)
    then have "sorted (map np_key A)" by (simp add: S)
    then have "sort_key np_key (rev A) = A"
      by (intro sort_key_inj_key_eq) (simp_all add: inj_on_subset [OF inj_np_key])
    with tk f' nx S lenA Suc.hyps(2) [symmetric] show ?thesis by simp
  qed
qed

subsection \<open>The first call\<close>

text \<open>
  The first call of \<^verbatim>\<open>next\<close> on an iterator over a tree, by the round in which the loop
  ends, if it ends.
\<close>

lemma knn_next_never:
  assumes "tree_over_points sd t" "length (m_points sd) = m_n_points sd"
    "\<not> m_finished it" "m_current_neighbors it = []" "\<forall>n. \<not> knn_halts sd it n"
  shows "knn_next sd it = None"
  using expand_radius_None [OF assms(1,2,5)] assms(3,4) by (simp add: knn_next_def)

lemma knn_next_raises:
  assumes "tree_over_points sd t" "length (m_points sd) = m_n_points sd"
    "\<not> m_finished it" "m_current_neighbors it = []"
    "knn_halts sd it n" "\<forall>m < n. \<not> knn_halts sd it m"
    "isl (queryBall sd (m_point it) (radius_after it n))"
  shows "knn_next sd it = Some (Inl BoxTooSmall, it\<lparr>m_r_nn := radius_after it n\<rparr>)"
proof -
  have "it\<lparr>m_r_nn := radius_after it n, m_current_neighbors := []\<rparr>
          = it\<lparr>m_r_nn := radius_after it n\<rparr>"
    using assms(4) by simp
  with expand_radius_rounds [OF assms(1,2,5,6)] assms(3,4,7) show ?thesis
    by (simp add: knn_next_def knn_outcome_def)
qed

lemma knn_next_empty:
  assumes "tree_over_points sd t" "length (m_points sd) = m_n_points sd"
    "\<not> m_finished it" "m_current_neighbors it = []"
    "knn_halts sd it n" "\<forall>m < n. \<not> knn_halts sd it m"
    "\<not> isl (queryBall sd (m_point it) (radius_after it n))" "knn_ball sd it n = []"
  shows "knn_next sd it =
           Some (Inl UndefinedBehavior,
                 it\<lparr>m_r_nn := (if m_k_nn it = 0 then radius_after it n
                                else radius_after it (Suc n))\<rparr>)"
proof -
  have f: "ball_found sd t (m_point it) (radius_after it n) = []"
    using knn_ball_length [OF assms(1), of it n] assms(8) by simp
  have "it\<lparr>m_r_nn := r, m_current_neighbors := []\<rparr> = it\<lparr>m_r_nn := r\<rparr>" for r
    using assms(4) by simp
  with expand_radius_rounds [OF assms(1,2,5,6)] assms(3,4,7,8) f show ?thesis
    by (simp add: knn_next_def knn_outcome_def)
qed

lemma knn_take_ball:
  assumes "tree_over_points sd t" "length (m_points sd) = m_n_points sd"
    "\<not> m_finished it" "m_current_neighbors it = []"
    "knn_halts sd it n" "\<forall>m < n. \<not> knn_halts sd it m"
    "\<not> isl (queryBall sd (m_point it) (radius_after it n))" "knn_ball sd it n \<noteq> []"
  shows "\<exists>it'. knn_take sd it (Suc (length (knn_ball sd it n))) =
                 Some (map Inr (sort_key np_key (knn_ball sd it n)) @ [Inr ITERATOR_TERMINATOR],
                       it')
               \<and> m_finished it'"
proof -
  let ?found = "ball_found sd t (m_point it) (radius_after it n)"
  let ?it1 = "it\<lparr>m_r_nn := (if m_k_nn it \<le> length (knn_ball sd it n) then radius_after it n
                              else radius_after it (Suc n)),
                 m_current_neighbors := ?found\<rparr>"
  have len: "length ?found = length (knn_ball sd it n)"
    by (rule knn_ball_length [OF assms(1)])
  with assms(8) have ne: "?found \<noteq> []" by auto
  have e: "expand_radius sd it = Some (Inr (), ?it1)"
    using expand_radius_rounds [OF assms(1,2,5,6)] assms(7) by (simp add: knn_outcome_def)
  have nf: "\<not> m_finished ?it1" using assms(3) by simp
  have "knn_next sd it = knn_next sd ?it1"
    using knn_next_after_expand [OF assms(3,4) e nf] ne by simp
  then have "knn_take sd it (Suc (length ?found)) = knn_take sd ?it1 (Suc (length ?found))"
    by simp
  moreover from knn_drain [OF nf _ ne, of sd] obtain it' where
    "knn_take sd ?it1 (Suc (length ?found)) =
       Some (map Inr (sort_key np_key ?found) @ [Inr ITERATOR_TERMINATOR], it')"
    "m_finished it'" by auto
  moreover have "sort_key np_key ?found = sort_key np_key (knn_ball sd it n)"
    using mset_ball_found [OF assms(1), of "m_point it" "radius_after it n"]
    by (intro sort_key_mset) (simp add: knn_ball_def)
  ultimately show ?thesis unfolding len by auto
qed


subsection \<open>Examples\<close>

text \<open>
  k-nearest-neighbor iterators over the three points on the x axis, as constructed:
  for a query point, \<open>k\<close>, an initial radius and a scale.
\<close>

definition line_knn :: "vec3 \<Rightarrow> nat \<Rightarrow> float \<Rightarrow> float \<Rightarrow> AABBQueryIterator" where
  "line_knn q k r s =
     \<lparr>m_point = q, m_finished = False, m_n_images = 0, m_image_list = [],
      m_k_nn = k, m_r_nn = r, m_scale = s, m_current_neighbors = []\<rparr>"

lemma line_knn_fresh:
  "\<not> m_finished (line_knn q k r s)" "m_current_neighbors (line_knn q k r s) = []"
  by (simp_all add: line_knn_def)

lemma line_queryBall_any: "\<not> isl (queryBall line_query q r)"
  by (simp add: queryBall_def updateImageVectors_def line_query_def unit_cube_def Let_def)

lemma line_half_plane_distance: "fhalf (min_plane_distance (m_box line_query)) = Finite (1 / 2)"
  using rnd_exact [of 1 "- 1"]
  by (simp add: min_plane_distance_def line_query_def unit_cube_def fmin_def)

lemma rounding_more:
  "rnd (1 / 2) = Finite (1 / 2)" "rnd (3 / 4) = Finite (3 / 4)" "rnd (3 / 8) = Finite (3 / 8)"
  "rnd (9 / 64) = Finite (9 / 64)" "rnd (13 / 64) = Finite (13 / 64)"
  "rnd (5 / 32) = Finite (5 / 32)" "rnd (17 / 32) = Finite (17 / 32)"
  "rnd (9 / 256) = Finite (9 / 256)" "rnd (3 / 16) = Finite (3 / 16)"
  using rnd_exact [of 1 "- 1"] rnd_exact [of 3 "- 2"] rnd_exact [of 3 "- 3"]
    rnd_exact [of 9 "- 6"] rnd_exact [of 13 "- 6"] rnd_exact [of 5 "- 5"]
    rnd_exact [of 17 "- 5"] rnd_exact [of 9 "- 8"] rnd_exact [of 3 "- 4"]
  by simp_all

lemmas line_eval =
  ball_bonds_def line_query_def image_dist_sq_def project_def unit_cube_def vsub_def vadd_def
  dot_def fsub_def rounding_dyadic rounding_more rnd_minus sqrt_dyadic upt_rec

lemma line_balls:
  "ball_bonds line_query (vec (1 / 4) 0 0) (Finite (1 / 2)) [vec 0 0 0] =
     [NeighborPoint 0 (Finite (1 / 4)), NeighborPoint 1 (Finite (1 / 8))]"
  "ball_bonds line_query (vec (1 / 4) 0 0) (Finite (3 / 16)) [vec 0 0 0] =
     [NeighborPoint 1 (Finite (1 / 8))]"
  "ball_bonds line_query (vec (1 / 4) 0 0) (Finite 0) [vec 0 0 0] = []"
  "ball_bonds line_query (vec (1 / 4) (3 / 8) 0) (Finite (3 / 8)) [vec 0 0 0] = []"
  by (simp_all add: line_eval)

text \<open>
  Four iterators, all with scale 2 or 4: at (0.25, 0, 0) with \<open>k = 1\<close> and initial radius
  0.5; there with \<open>k = 2\<close> and initial radius 0.1875; there with \<open>k = 1\<close> and initial
  radius 0; and at (0.25, 0.375, 0) with \<open>k = 1\<close> and initial radius 0.375.
\<close>

definition near_knn :: AABBQueryIterator where
  "near_knn = line_knn (vec (1 / 4) 0 0) 1 (Finite (1 / 2)) (Finite 2)"

definition short_knn :: AABBQueryIterator where
  "short_knn = line_knn (vec (1 / 4) 0 0) 2 (Finite (3 / 16)) (Finite 4)"

definition still_knn :: AABBQueryIterator where
  "still_knn = line_knn (vec (1 / 4) 0 0) 1 (Finite 0) (Finite 2)"

definition far_knn :: AABBQueryIterator where
  "far_knn = line_knn (vec (1 / 4) (3 / 8) 0) 1 (Finite (3 / 8)) (Finite 2)"

lemma near_knn_halts:
  "knn_halts line_query near_knn 0"
  "knn_ball line_query near_knn 0 =
     [NeighborPoint 0 (Finite (1 / 4)), NeighborPoint 1 (Finite (1 / 8))]"
  by (simp_all add: knn_halts_def knn_ball_def near_knn_def line_knn_def line_box_images
        line_balls)

lemma short_knn_halts:
  "knn_halts line_query short_knn 0"
  "knn_ball line_query short_knn 0 = [NeighborPoint 1 (Finite (1 / 8))]"
  by (simp_all add: knn_halts_def knn_ball_def short_knn_def line_knn_def line_box_images
        line_balls line_half_plane_distance rounding_more fgt_def)

lemma still_knn_radius: "radius_after still_knn n = Finite 0"
  by (induction n) (simp_all add: still_knn_def line_knn_def)

lemma still_knn_never: "\<not> knn_halts line_query still_knn n"
  unfolding knn_halts_def knn_ball_def still_knn_radius
  by (simp add: line_queryBall_any still_knn_def line_knn_def line_box_images line_balls
        line_half_plane_distance fgt_def)

lemma line_examples_fresh:
  "\<not> m_finished near_knn" "m_current_neighbors near_knn = []"
  "\<not> m_finished short_knn" "m_current_neighbors short_knn = []"
  "\<not> m_finished still_knn" "m_current_neighbors still_knn = []"
  "\<not> m_finished far_knn" "m_current_neighbors far_knn = []"
  by (simp_all add: near_knn_def short_knn_def still_knn_def far_knn_def line_knn_fresh)

lemma far_knn_halts:
  "knn_halts line_query far_knn 0"
  "knn_ball line_query far_knn 0 = []"
  "radius_after far_knn (Suc 0) = Finite (3 / 4)"
  by (simp_all add: knn_halts_def knn_ball_def far_knn_def line_knn_def line_box_images
        line_balls line_half_plane_distance rounding_more fgt_def)

text \<open>
  C5. On the three points on the x axis (unit cube, open boundaries), a query at
  (0.25, 0.375, 0) with \<open>k = 1\<close>, initial radius 0.375 and scale 2 finds no point within
  0.375; the radius becomes 0.75, which exceeds half the smallest plane distance, and
  the loop ends with an empty buffer. The call then returns nothing: it runs off the
  end of the function, the terminator is not returned and \<^verbatim>\<open>m_finished\<close> is still
  false.
\<close>

theorem knn_falls_off_the_end:
  "knn_next line_query far_knn =
     Some (Inl UndefinedBehavior,
           \<lparr>m_point = vec (1 / 4) (3 / 8) 0, m_finished = False, m_n_images = 0,
            m_image_list = [], m_k_nn = 1, m_r_nn = Finite (3 / 4), m_scale = Finite 2,
            m_current_neighbors = []\<rparr>)"
proof -
  have first: "\<forall>m < 0. \<not> knn_halts line_query far_knn m" by simp
  have "knn_next line_query far_knn =
          Some (Inl UndefinedBehavior,
                far_knn\<lparr>m_r_nn := (if m_k_nn far_knn = 0 then radius_after far_knn 0
                                     else radius_after far_knn (Suc 0))\<rparr>)"
    by (rule knn_next_empty [OF line_tree_ok line_length line_examples_fresh(7,8)
          far_knn_halts(1) first line_queryBall_any far_knn_halts(2)])
  then show ?thesis unfolding far_knn_halts(3) by (simp add: far_knn_def line_knn_def)
qed

text \<open>
  The exact distances from the query point (0.25, 0, 0) to the points 0 and 1, and half
  the smallest plane distance.
\<close>

lemma line_within_half_plane_distance:
  "exact_distance line_query (vec (1 / 4) 0 0) (vec 0 0 0) 0 = 1 / 4"
  "exact_distance line_query (vec (1 / 4) 0 0) (vec 0 0 0) (Suc 0) = 1 / 8"
  "value_of (min_plane_distance (m_box line_query)) / 2 = 1 / 2"
proof -
  have "sqrt ((1 / 4)\<^sup>2) = (1 / 4 :: real)" "sqrt ((1 / 8)\<^sup>2) = (1 / 8 :: real)"
    by simp_all
  then show
    "exact_distance line_query (vec (1 / 4) 0 0) (vec 0 0 0) 0 = 1 / 4"
    "exact_distance line_query (vec (1 / 4) 0 0) (vec 0 0 0) (Suc 0) = 1 / 8"
    by (simp_all add: exact_distance_def line_query_def project_def unit_cube_def value_of_def)
  show "value_of (min_plane_distance (m_box line_query)) / 2 = 1 / 2"
    by (simp add: min_plane_distance_def line_query_def unit_cube_def fmin_def value_of_def)
qed

lemma near_knn_take:
  "\<exists>it'. knn_take line_query near_knn 3 =
           Some ([Inr (NeighborPoint 1 (Finite (1 / 8))), Inr (NeighborPoint 0 (Finite (1 / 4))),
                  Inr ITERATOR_TERMINATOR], it')"
proof -
  have first: "\<forall>m < 0. \<not> knn_halts line_query near_knn m" by simp
  have ne: "knn_ball line_query near_knn 0 \<noteq> []" by (simp add: near_knn_halts(2))
  from knn_take_ball [OF line_tree_ok line_length line_examples_fresh(1,2) near_knn_halts(1)
      first line_queryBall_any ne]
  obtain it' where
    "knn_take line_query near_knn (Suc (length (knn_ball line_query near_knn 0))) =
       Some (map Inr (sort_key np_key (knn_ball line_query near_knn 0))
             @ [Inr ITERATOR_TERMINATOR], it')"
    by blast
  then have "knn_take line_query near_knn 3 =
       Some ([Inr (NeighborPoint 1 (Finite (1 / 8))), Inr (NeighborPoint 0 (Finite (1 / 4))),
              Inr ITERATOR_TERMINATOR], it')"
    unfolding near_knn_halts(2) by (simp add: np_key_def eval_nat_numeral)
  then show ?thesis by blast
qed

lemma short_knn_take:
  "\<exists>it'. knn_take line_query short_knn 2 =
           Some ([Inr (NeighborPoint 1 (Finite (1 / 8))), Inr ITERATOR_TERMINATOR], it')"
proof -
  have first: "\<forall>m < 0. \<not> knn_halts line_query short_knn m" by simp
  have ne: "knn_ball line_query short_knn 0 \<noteq> []" by (simp add: short_knn_halts(2))
  from knn_take_ball [OF line_tree_ok line_length line_examples_fresh(3,4) short_knn_halts(1)
      first line_queryBall_any ne]
  obtain it' where
    "knn_take line_query short_knn (Suc (length (knn_ball line_query short_knn 0))) =
       Some (map Inr (sort_key np_key (knn_ball line_query short_knn 0))
             @ [Inr ITERATOR_TERMINATOR], it')"
    by blast
  then have "knn_take line_query short_knn 2 =
       Some ([Inr (NeighborPoint 1 (Finite (1 / 8))), Inr ITERATOR_TERMINATOR], it')"
    unfolding short_knn_halts(2) by (simp add: np_key_def eval_nat_numeral)
  then show ?thesis by blast
qed

text \<open>
  An iterator at (0.25, 0, 0) with \<open>k = 1\<close> whose initial radius is \<open>2 ^ -149\<close>, the
  smallest positive \<^verbatim>\<open>float\<close>, and whose scale is the \<^verbatim>\<open>float\<close> nearest to 1.1. The
  product of the two rounds back to \<open>2 ^ -149\<close>, and the square of the radius to zero.
\<close>

definition tiny_knn :: AABBQueryIterator where
  "tiny_knn = line_knn (vec (1 / 4) 0 0) 1 (Finite (1 / 2 ^ 149)) (rnd (11 / 10))"

lemma rnd_tiny:
  "rnd (11 / 10) = Finite (9227469 / 8388608)"
  "rnd (1 / 2 ^ 149 * (9227469 / 8388608)) = Finite (1 / 2 ^ 149)"
  "rnd (1 / 2 ^ 149 * (1 / 2 ^ 149)) = Finite 0"
proof -
  show "rnd (11 / 10) = Finite (9227469 / 8388608)"
    by (subst rnd_from_binade [of 0]) (simp_all add: rhe_def)
  show "rnd (1 / 2 ^ 149 * (9227469 / 8388608)) = Finite (1 / 2 ^ 149)"
    by (subst rnd_subnormal) (simp_all add: rhe_def power_int_minus)
  show "rnd (1 / 2 ^ 149 * (1 / 2 ^ 149)) = Finite 0"
    by (subst rnd_subnormal) (simp_all add: rhe_def power_int_minus)
qed

lemma tiny_products:
  "fmul (Finite (1 / 2 ^ 149)) (rnd (11 / 10)) = Finite (1 / 2 ^ 149)"
  "fmul (Finite (1 / 2 ^ 149)) (Finite (1 / 2 ^ 149)) = Finite 0"
  unfolding rnd_tiny(1) fmul.simps by (rule rnd_tiny(2), rule rnd_tiny(3))

lemma tiny_knn_radius: "radius_after tiny_knn n = Finite (1 / 2 ^ 149)"
proof (induction n)
  case 0
  show ?case by (simp add: tiny_knn_def line_knn_def)
next
  case (Suc n)
  have "m_scale tiny_knn = rnd (11 / 10)" by (simp add: tiny_knn_def line_knn_def)
  then show ?case unfolding radius_after.simps Suc by (simp only: tiny_products)
qed

lemma tiny_ball:
  "ball_bonds line_query (vec (1 / 4) 0 0) (Finite (1 / 2 ^ 149)) [vec 0 0 0] = []"
  unfolding ball_bonds_def tiny_products by (simp add: line_eval)

lemma tiny_knn_never: "\<not> knn_halts line_query tiny_knn n"
proof -
  have p: "m_point tiny_knn = vec (1 / 4) 0 0" "m_k_nn tiny_knn = 1"
    by (simp_all add: tiny_knn_def line_knn_def)
  have "\<not> fgt (Finite (1 / 2 ^ 149)) (Finite (1 / 2))" by (simp add: fgt_def)
  then show ?thesis
    unfolding knn_halts_def knn_ball_def tiny_knn_radius p line_box_images tiny_ball
      line_half_plane_distance
    by (simp add: line_queryBall_any)
qed

lemma tiny_knn_fresh: "\<not> m_finished tiny_knn" "m_current_neighbors tiny_knn = []"
  by (simp_all add: tiny_knn_def line_knn_fresh)

text \<open>
  The same three points in the unit cube periodic along z only, and an iterator at
  (0.25, 0, 0) with \<open>k = 3\<close>, initial radius 0.125 and scale 4. A ball query of radius
  0.125 is accepted and finds no point; one of radius 0.5 is refused, as twice the
  radius reaches the plane distance 1.
\<close>

definition slab_box :: Box where
  "slab_box =
     \<lparr>LatticeVector0 = vec 1 0 0, LatticeVector1 = vec 0 1 0, LatticeVector2 = vec 0 0 1,
      NearestPlaneDistance = vec 1 1 1,
      periodic_x = False, periodic_y = False, periodic_z = True, is2D = False\<rparr>"

definition slab_query :: AABBQuery where
  "slab_query =
     \<lparr>m_points = [vec 0 0 0, vec (3 / 8) 0 0, vec (7 / 8) 0 0], m_n_points = 3,
      m_box = slab_box, m_aabb_tree = flatten line_tree\<rparr>"

definition slab_knn :: AABBQueryIterator where
  "slab_knn = line_knn (vec (1 / 4) 0 0) 3 (Finite (1 / 8)) (Finite 4)"

lemma slab_tree_ok: "tree_over_points slab_query line_tree"
  by (simp add: tree_over_points_def slab_query_def line_tree_def inside_def flatten_z_def
        slab_box_def upt_rec)

lemma slab_length: "length (m_points slab_query) = m_n_points slab_query"
  by (simp add: slab_query_def)

lemma slab_knn_fresh: "\<not> m_finished slab_knn" "m_current_neighbors slab_knn = []"
  by (simp_all add: slab_knn_def line_knn_fresh)

lemma slab_box_images:
  "box_images (m_box slab_query) = [vec 0 0 0, vec 0 0 (- 1), vec 0 0 1]"
  by (simp add: box_images_def slab_query_def slab_box_def n_dim_periodic_def
        enumerate_images_def initial_image_list_def vector_resize_def image_body_def
        vadd_def smul_def float_of_int_def eval_nat_numeral)

lemma slab_queryBall:
  "\<not> isl (queryBall slab_query q (Finite (1 / 8)))"
  "isl (queryBall slab_query q (Finite (1 / 2)))"
  by (simp_all add: queryBall_def updateImageVectors_def slab_query_def slab_box_def Let_def)

lemma rounding_slab:
  "rnd (17 / 16) = Finite (17 / 16)" "rnd (65 / 64) = Finite (65 / 64)"
  "rnd (89 / 64) = Finite (89 / 64)"
  using rnd_exact [of 17 "- 4"] rnd_exact [of 65 "- 6"] rnd_exact [of 89 "- 6"]
  by simp_all

lemma slab_ball:
  "ball_bonds slab_query (vec (1 / 4) 0 0) (Finite (1 / 8))
     [vec 0 0 0, vec 0 0 (- 1), vec 0 0 1] = []"
  by (simp add: ball_bonds_def slab_query_def image_dist_sq_def project_def slab_box_def
        vsub_def vadd_def dot_def fsub_def rounding_dyadic rounding_more rounding_slab
        rnd_minus upt_rec)

lemma slab_knn_halts:
  "\<not> knn_halts slab_query slab_knn 0"
  "knn_halts slab_query slab_knn (Suc 0)"
  "radius_after slab_knn (Suc 0) = Finite (1 / 2)"
proof -
  have h: "fhalf (min_plane_distance (m_box slab_query)) = Finite (1 / 2)"
    using rnd_exact [of 1 "- 1"]
    by (simp add: min_plane_distance_def slab_query_def slab_box_def fmin_def)
  show r: "radius_after slab_knn (Suc 0) = Finite (1 / 2)"
    by (simp add: slab_knn_def line_knn_def rounding_more)
  have p: "m_point slab_knn = vec (1 / 4) 0 0" "m_k_nn slab_knn = 3"
    "radius_after slab_knn 0 = Finite (1 / 8)"
    by (simp_all add: slab_knn_def line_knn_def)
  show "\<not> knn_halts slab_query slab_knn 0"
    unfolding knn_halts_def knn_ball_def r p slab_box_images slab_ball h
    by (simp add: slab_queryBall fgt_def)
  show "knn_halts slab_query slab_knn (Suc 0)"
    unfolding knn_halts_def r by (simp add: slab_queryBall)
qed

text \<open>
  C2, as stated, fails on the code, in three ways. The points 0 and 1 lie at the
  distances 0.25 and 0.125 from the query point (0.25, 0, 0), both within half the
  smallest plane distance, 0.5.

  With \<open>k = 1\<close> and initial radius 0.5 the first ball query finds both points, and the
  iterator returns two bonds before the terminator, not one.

  With \<open>k = 2\<close>, initial radius 0.1875 and scale 4 the first ball query finds point 1
  only; the next radius, 0.75, exceeds half the smallest plane distance and the loop
  ends; the iterator returns one bond before the terminator, not two.

  With \<open>k = 1\<close> and initial radius 0 every ball query is empty and the radius stays 0:
  the first call never returns.
\<close>

theorem knn_returns_more_than_k:
  "exact_distance line_query (vec (1 / 4) 0 0) (vec 0 0 0) 0
     < value_of (min_plane_distance (m_box line_query)) / 2
   \<and> exact_distance line_query (vec (1 / 4) 0 0) (vec 0 0 0) 1
     < value_of (min_plane_distance (m_box line_query)) / 2
   \<and> m_point near_knn = vec (1 / 4) 0 0 \<and> m_k_nn near_knn = 1
   \<and> map_option fst (knn_take line_query near_knn 3) =
       Some [Inr (NeighborPoint 1 (Finite (1 / 8))), Inr (NeighborPoint 0 (Finite (1 / 4))),
             Inr ITERATOR_TERMINATOR]
   \<and> m_point short_knn = vec (1 / 4) 0 0 \<and> m_k_nn short_knn = 2
   \<and> map_option fst (knn_take line_query short_knn 2) =
       Some [Inr (NeighborPoint 1 (Finite (1 / 8))), Inr ITERATOR_TERMINATOR]
   \<and> m_point still_knn = vec (1 / 4) 0 0 \<and> m_k_nn still_knn = 1
   \<and> m_r_nn still_knn = Finite 0
   \<and> knn_next line_query still_knn = None"
proof -
  from near_knn_take have
    "map_option fst (knn_take line_query near_knn 3) =
       Some [Inr (NeighborPoint 1 (Finite (1 / 8))), Inr (NeighborPoint 0 (Finite (1 / 4))),
             Inr ITERATOR_TERMINATOR]" by auto
  moreover from short_knn_take have
    "map_option fst (knn_take line_query short_knn 2) =
       Some [Inr (NeighborPoint 1 (Finite (1 / 8))), Inr ITERATOR_TERMINATOR]" by auto
  moreover have "knn_next line_query still_knn = None"
    using still_knn_never
    by (intro knn_next_never [OF line_tree_ok line_length line_examples_fresh(5,6)]) simp
  ultimately show ?thesis
    by (simp add: line_within_half_plane_distance near_knn_def short_knn_def still_knn_def
          line_knn_def)
qed

text \<open>
  C2, amended. On the first call of \<^verbatim>\<open>next\<close> on an iterator over a tree the radius runs
  through \<open>r\<close>, \<open>r * scale\<close>, \<open>r * scale * scale\<close>, ..., each product rounded. Round \<open>n\<close> is
  the last when its ball query raises \<open>BoxTooSmall\<close>, or its ball holds at least \<open>k\<close>
  points, or the next radius exceeds half the smallest plane distance. When no round is
  the last, the call never returns. Otherwise it returns from the first such round:
  with the exception, the radius being that of the round; or, when the ball of that
  round is not empty, with its nearest point, and the calls of \<^verbatim>\<open>next\<close> yield all points
  of that ball (not only \<open>k\<close> of them, and fewer than \<open>k\<close> when the ball holds fewer) in
  ascending order of (distance, index), then the terminator, and the iterator is
  finished; or, when the ball of that round is empty, by running off the end of the
  function (C5), the radius being the next one unless \<open>k = 0\<close>. The ball of a round is
  that of C1, amended.
\<close>

theorem knn_returns_whole_ball:
  assumes "tree_over_points sd t" "length (m_points sd) = m_n_points sd"
    "\<not> m_finished it" "m_current_neighbors it = []"
  shows "((\<forall>n. \<not> knn_halts sd it n) \<longrightarrow> knn_next sd it = None)
       \<and> (\<forall>n. knn_halts sd it n \<and> (\<forall>m < n. \<not> knn_halts sd it m) \<longrightarrow>
              knn_next sd it \<noteq> None
            \<and> (isl (queryBall sd (m_point it) (radius_after it n)) \<longrightarrow>
                 knn_next sd it = Some (Inl BoxTooSmall, it\<lparr>m_r_nn := radius_after it n\<rparr>))
            \<and> (\<not> isl (queryBall sd (m_point it) (radius_after it n))
                 \<and> knn_ball sd it n \<noteq> [] \<longrightarrow>
                 (\<exists>it'. knn_take sd it (Suc (length (knn_ball sd it n))) =
                          Some (map Inr (sort_key np_key (knn_ball sd it n))
                                @ [Inr ITERATOR_TERMINATOR], it')
                        \<and> m_finished it'))
            \<and> (\<not> isl (queryBall sd (m_point it) (radius_after it n))
                 \<and> knn_ball sd it n = [] \<longrightarrow>
                 knn_next sd it =
                   Some (Inl UndefinedBehavior,
                         it\<lparr>m_r_nn := (if m_k_nn it = 0 then radius_after it n
                                        else radius_after it (Suc n))\<rparr>)))"
proof (intro conjI allI impI)
  assume "\<forall>n. \<not> knn_halts sd it n"
  then show "knn_next sd it = None" by (rule knn_next_never [OF assms])
next
  fix n assume h: "knn_halts sd it n \<and> (\<forall>m < n. \<not> knn_halts sd it m)"
  then have h1: "knn_halts sd it n" and h2: "\<forall>m < n. \<not> knn_halts sd it m" by simp_all
  show "knn_next sd it \<noteq> None"
  proof (cases "isl (queryBall sd (m_point it) (radius_after it n))")
    case True
    from knn_next_raises [OF assms h1 h2 True] show ?thesis by simp
  next
    case False
    show ?thesis
    proof (cases "knn_ball sd it n = []")
      case True
      from knn_next_empty [OF assms h1 h2 False True] show ?thesis by simp
    next
      case ne: False
      from knn_take_ball [OF assms h1 h2 False ne] show ?thesis
        by (auto split: option.splits)
    qed
  qed
next
  fix n assume h: "knn_halts sd it n \<and> (\<forall>m < n. \<not> knn_halts sd it m)"
    and r: "isl (queryBall sd (m_point it) (radius_after it n))"
  from h have h1: "knn_halts sd it n" and h2: "\<forall>m < n. \<not> knn_halts sd it m" by simp_all
  show "knn_next sd it = Some (Inl BoxTooSmall, it\<lparr>m_r_nn := radius_after it n\<rparr>)"
    by (rule knn_next_raises [OF assms h1 h2 r])
next
  fix n assume h: "knn_halts sd it n \<and> (\<forall>m < n. \<not> knn_halts sd it m)"
    and b: "\<not> isl (queryBall sd (m_point it) (radius_after it n)) \<and> knn_ball sd it n \<noteq> []"
  from h have h1: "knn_halts sd it n" and h2: "\<forall>m < n. \<not> knn_halts sd it m" by simp_all
  from b have b1: "\<not> isl (queryBall sd (m_point it) (radius_after it n))"
    and b2: "knn_ball sd it n \<noteq> []" by simp_all
  show "\<exists>it'. knn_take sd it (Suc (length (knn_ball sd it n))) =
                 Some (map Inr (sort_key np_key (knn_ball sd it n))
                       @ [Inr ITERATOR_TERMINATOR], it')
               \<and> m_finished it'"
    by (rule knn_take_ball [OF assms h1 h2 b1 b2])
next
  fix n assume h: "knn_halts sd it n \<and> (\<forall>m < n. \<not> knn_halts sd it m)"
    and b: "\<not> isl (queryBall sd (m_point it) (radius_after it n)) \<and> knn_ball sd it n = []"
  from h have h1: "knn_halts sd it n" and h2: "\<forall>m < n. \<not> knn_halts sd it m" by simp_all
  from b have b1: "\<not> isl (queryBall sd (m_point it) (radius_after it n))"
    and b2: "knn_ball sd it n = []" by simp_all
  show "knn_next sd it =
          Some (Inl UndefinedBehavior,
                it\<lparr>m_r_nn := (if m_k_nn it = 0 then radius_after it n
                               else radius_after it (Suc n))\<rparr>)"
    by (rule knn_next_empty [OF assms h1 h2 b1 b2])
qed

text \<open>
  On the first example the hypotheses hold and round 0 is the last: the iterator
  returns the points 1 and 0, in this order, then the terminator.

  With \<open>k = 3\<close>, initial radius 0.125 and scale 4 on the same points in the unit cube
  periodic along z, round 0 finds nothing within 0.125, the radius becomes 0.5, and the
  ball query of round 1 raises: the exception leaves the iterator with the radius 0.5.

  With initial radius 0 no round is the last and the call never returns. The same
  happens with the initial radius \<open>2 ^ -149\<close>, the smallest positive \<^verbatim>\<open>float\<close>, and the
  scale 1.1: the product rounds back to \<open>2 ^ -149\<close>, so the radius never grows.
\<close>

theorem knn_returns_whole_ball_witness:
  "(\<exists>it'. knn_take line_query near_knn 3 =
            Some ([Inr (NeighborPoint 1 (Finite (1 / 8))),
                   Inr (NeighborPoint 0 (Finite (1 / 4))),
                   Inr ITERATOR_TERMINATOR], it')
          \<and> m_finished it')
   \<and> knn_next slab_query slab_knn =
       Some (Inl BoxTooSmall,
             \<lparr>m_point = vec (1 / 4) 0 0, m_finished = False, m_n_images = 0,
              m_image_list = [], m_k_nn = 3, m_r_nn = Finite (1 / 2), m_scale = Finite 4,
              m_current_neighbors = []\<rparr>)
   \<and> knn_next line_query still_knn = None
   \<and> m_r_nn tiny_knn = Finite (1 / 2 ^ 149) \<and> m_scale tiny_knn = rnd (11 / 10)
   \<and> knn_next line_query tiny_knn = None"
proof -
  note a = knn_returns_whole_ball [OF line_tree_ok line_length line_examples_fresh(1,2)]
  note b = knn_returns_whole_ball [OF line_tree_ok line_length line_examples_fresh(5,6)]
  note c = knn_returns_whole_ball [OF line_tree_ok line_length tiny_knn_fresh]
  note d = knn_returns_whole_ball [OF slab_tree_ok slab_length slab_knn_fresh]
  have first: "\<forall>m < 0. \<not> knn_halts line_query near_knn m" by simp
  have ne: "knn_ball line_query near_knn 0 \<noteq> []" by (simp add: near_knn_halts(2))
  from a near_knn_halts(1) first line_queryBall_any ne
  have "\<exists>it'. knn_take line_query near_knn (Suc (length (knn_ball line_query near_knn 0))) =
                 Some (map Inr (sort_key np_key (knn_ball line_query near_knn 0))
                       @ [Inr ITERATOR_TERMINATOR], it')
               \<and> m_finished it'"
    by blast
  then have "\<exists>it'. knn_take line_query near_knn 3 =
            Some ([Inr (NeighborPoint 1 (Finite (1 / 8))),
                   Inr (NeighborPoint 0 (Finite (1 / 4))),
                   Inr ITERATOR_TERMINATOR], it')
          \<and> m_finished it'"
    unfolding near_knn_halts(2) by (simp add: np_key_def eval_nat_numeral)
  moreover from b still_knn_never have "knn_next line_query still_knn = None" by blast
  moreover from c tiny_knn_never have "knn_next line_query tiny_knn = None" by blast
  moreover have "knn_next slab_query slab_knn =
       Some (Inl BoxTooSmall,
             \<lparr>m_point = vec (1 / 4) 0 0, m_finished = False, m_n_images = 0,
              m_image_list = [], m_k_nn = 3, m_r_nn = Finite (1 / 2), m_scale = Finite 4,
              m_current_neighbors = []\<rparr>)"
  proof -
    have before: "\<forall>m < Suc 0. \<not> knn_halts slab_query slab_knn m"
      using slab_knn_halts(1) by simp
    have raises: "isl (queryBall slab_query (m_point slab_knn) (radius_after slab_knn (Suc 0)))"
      unfolding slab_knn_halts(3) by (rule slab_queryBall(2))
    from d slab_knn_halts(2) before raises
    have "knn_next slab_query slab_knn =
            Some (Inl BoxTooSmall, slab_knn\<lparr>m_r_nn := radius_after slab_knn (Suc 0)\<rparr>)"
      by blast
    then show ?thesis unfolding slab_knn_halts(3) by (simp add: slab_knn_def line_knn_def)
  qed
  moreover have "m_r_nn tiny_knn = Finite (1 / 2 ^ 149)" "m_scale tiny_knn = rnd (11 / 10)"
    by (simp_all add: tiny_knn_def line_knn_def)
  ultimately show ?thesis by blast
qed

section \<open>Materialization and the per-pair driver\<close>

subsection \<open>Definitions\<close>

text \<open>
  \<^verbatim>\<open>NeighborBond\<close> as \<^verbatim>\<open>NeighborQuery.h\<close> and \<^verbatim>\<open>NeighborComputeFunctional.h\<close> use it:
  the members \<^verbatim>\<open>id\<close> (query point index), \<^verbatim>\<open>ref_id\<close> (point index), \<^verbatim>\<open>distance\<close> and
  \<^verbatim>\<open>weight\<close>.
\<close>

datatype NeighborBond =
  NeighborBond (nb_id: nat) (nb_ref_id: nat) (nb_distance: real) (nb_weight: real)

text \<open>
  Modelled from the spec: \<^verbatim>\<open>less_as_tuple\<close>, the order that \<^verbatim>\<open>compareNeighborBond\<close>
  sorts by (its header is not among the sources). Section 3: "Ordering: lexicographic
  by (query_idx, distance, point_idx)".
\<close>

definition less_as_tuple_key :: "NeighborBond \<Rightarrow> nat \<times> real \<times> nat" where
  "less_as_tuple_key b = (nb_id b, nb_distance b, nb_ref_id b)"

text \<open>
  \<^verbatim>\<open>memset((void*) neighbor_weights, 1, sizeof(float) * n)\<close> writes the byte 1 into each
  of the four bytes of every weight. \<open>float_of_bits\<close> is the value of a 32-bit pattern
  read as an IEEE 754 single (sign, 8 exponent bits, 23 fraction bits; 0 stands in for
  the infinities and NaNs, which are not reals).
\<close>

definition float_of_bits :: "nat \<Rightarrow> real" where
  "float_of_bits w =
     (let s = w div 2 ^ 31 mod 2;
          e = w div 2 ^ 23 mod 256;
          m = w mod 2 ^ 23;
          sign = (if s = 1 then - 1 else 1)
      in if e = 0 then sign * (real m / 2 ^ 23) / 2 ^ 126
         else if e < 127 then sign * (1 + real m / 2 ^ 23) / 2 ^ (127 - e)
         else if e < 255 then sign * (1 + real m / 2 ^ 23) * 2 ^ (e - 127)
         else 0)"

definition memset_floats :: "nat \<Rightarrow> nat \<Rightarrow> real list" where
  "memset_floats c n =
     replicate n (float_of_bits (c mod 256 * (2 ^ 24 + 2 ^ 16 + 2 ^ 8 + 1)))"

text \<open>\<^verbatim>\<open>std::vector::pop_back\<close>; on an empty vector the behaviour is undefined.\<close>

definition pop_back :: "'a list \<Rightarrow> error + 'a list" where
  "pop_back xs = (if xs = [] then Inl UndefinedBehavior else Inr (butlast xs))"

text \<open>
  \<^verbatim>\<open>NeighborQueryIterator::toNeighborList\<close>. The per-query iterators \<^verbatim>\<open>this->query(i)\<close>
  are those of subclasses; here \<open>query i\<close> is the list of bonds such an iterator yields
  before the terminator, so the values that \<^verbatim>\<open>next\<close> returns until \<^verbatim>\<open>end\<close> holds are
  \<open>query i @ [terminator]\<close>. The terminator and the weight \<open>w0\<close> that the three-argument
  constructor of \<^verbatim>\<open>NeighborBond\<close> gives are parameters (the header is not among the
  sources). The loop over the query points is run in index order, one thread's view.
\<close>

definition collect_body :: "bool \<Rightarrow> real \<Rightarrow> nat \<Rightarrow> NeighborBond list \<Rightarrow> NeighborBond \<Rightarrow> NeighborBond list" where
  "collect_body exclude w0 i local_bonds np =
     (if \<not> exclude \<or> i \<noteq> nb_ref_id np
      then local_bonds @ [NeighborBond i (nb_ref_id np) (nb_distance np) w0]
      else local_bonds)"

definition collect_query ::
  "bool \<Rightarrow> real \<Rightarrow> NeighborBond \<Rightarrow> (nat \<Rightarrow> NeighborBond list) \<Rightarrow> NeighborBond list \<Rightarrow> nat \<Rightarrow>
   error + NeighborBond list" where
  "collect_query exclude w0 terminator query local_bonds i =
     pop_back (foldl (collect_body exclude w0 i) local_bonds (query i @ [terminator]))"

text \<open>\<^verbatim>\<open>NeighborList::setNumBonds(num_bonds, num_points, num_query_points)\<close>.\<close>

definition setNumBonds :: "nat \<Rightarrow> nat \<Rightarrow> nat \<Rightarrow> NeighborList \<Rightarrow> NeighborList" where
  "setNumBonds num_bonds num_points num_query_points nl =
     (resize num_bonds False nl)\<lparr>m_num_points := num_points,
                                 m_num_query_points := num_query_points\<rparr>"

definition fill_body :: "NeighborBond list \<Rightarrow> NeighborList \<Rightarrow> nat \<Rightarrow> NeighborList" where
  "fill_body linear_bonds nl bond =
     nl\<lparr>m_neighbors := (m_neighbors nl)[bond := (nb_id (linear_bonds ! bond),
                                                 nb_ref_id (linear_bonds ! bond))],
        m_distances := (m_distances nl)[bond := nb_distance (linear_bonds ! bond)]\<rparr>"

text \<open>
  The list is sorted, copied into a fresh \<^verbatim>\<open>NeighborList\<close> (the call passes
  \<^verbatim>\<open>m_n_query_points\<close> second and the number of points third, as the source does), and
  the weights are set by \<^verbatim>\<open>memset\<close>.
\<close>

definition toNeighborList ::
  "bool \<Rightarrow> nat \<Rightarrow> nat \<Rightarrow> real \<Rightarrow> NeighborBond \<Rightarrow> (nat \<Rightarrow> NeighborBond list) \<Rightarrow> error + NeighborList" where
  "toNeighborList exclude n_query_points n_points w0 terminator query =
     (case for_loop (collect_query exclude w0 terminator query) [] [0..<n_query_points] of
        Inl e \<Rightarrow> Inl e
      | Inr bonds \<Rightarrow>
          let linear_bonds = sort_key less_as_tuple_key bonds;
              num_bonds = length linear_bonds;
              nl0 = \<lparr>m_num_points = 0, m_num_query_points = 0, m_neighbors = [],
                     m_weights = [], m_distances = [], m_counts = [], m_segments = []\<rparr>;
              nl1 = resize num_bonds False nl0;
              nl2 = setNumBonds num_bonds n_query_points n_points nl1;
              nl3 = foldl (fill_body linear_bonds) nl2 [0..<num_bonds]
          in Inr (nl3\<lparr>m_weights := memset_floats 1 (length linear_bonds)\<rparr>))"

text \<open>
  \<^verbatim>\<open>loopOverNeighbors\<close> on a bond list: the bonds handed to the compute function, in
  index order.
\<close>

definition loopOverNeighbors :: "NeighborList \<Rightarrow> NeighborBond list" where
  "loopOverNeighbors nlist =
     map (\<lambda>bond. NeighborBond (fst (m_neighbors nlist ! bond)) (snd (m_neighbors nlist ! bond))
                     (m_distances nlist ! bond) (m_weights nlist ! bond))
         [0..<getNumBonds nlist]"


subsection \<open>The round trip\<close>

lemma float_one: "float_of_bits 0x3F800000 = 1"
  by (simp add: float_of_bits_def Let_def)

lemma memset_one: "memset_floats (Suc 0) n = replicate n (8454401 / 2 ^ 148)"
  by (simp add: memset_floats_def float_of_bits_def Let_def)

text \<open>
  A bond as \<^verbatim>\<open>toNeighborList\<close> rebuilds it for query point \<open>i\<close>, and the weight that
  \<^verbatim>\<open>memset\<close> leaves in every cell.
\<close>

definition restamp :: "real \<Rightarrow> nat \<Rightarrow> NeighborBond \<Rightarrow> NeighborBond" where
  "restamp w i np = NeighborBond i (nb_ref_id np) (nb_distance np) w"

definition memset_weight :: real where
  "memset_weight = 8454401 / 2 ^ 148"

lemma collect_body_all:
  "foldl (collect_body False w0 i) acc xs = acc @ map (restamp w0 i) xs"
  by (induction xs arbitrary: acc) (simp_all add: collect_body_def restamp_def)

lemma collect_query_all:
  "collect_query False w0 terminator query acc i = Inr (acc @ map (restamp w0 i) (query i))"
proof -
  have "foldl (collect_body False w0 i) acc (query i @ [terminator]) =
          (acc @ map (restamp w0 i) (query i)) @ [restamp w0 i terminator]"
    unfolding collect_body_all by simp
  then show ?thesis
    unfolding collect_query_def pop_back_def by (simp only: butlast_snoc) simp
qed

lemma collect_all:
  "for_loop (collect_query False w0 terminator query) [] [0..<n] =
     Inr (concat (map (\<lambda>i. map (restamp w0 i) (query i)) [0..<n]))"
  by (induction n) (simp_all add: for_loop_snoc collect_query_all)

lemma fill_loop:
  assumes "n \<le> length L" "length (m_neighbors nl0) = length L" "length (m_distances nl0) = length L"
  shows "m_weights (foldl (fill_body L) nl0 [0..<n]) = m_weights nl0
       \<and> length (m_neighbors (foldl (fill_body L) nl0 [0..<n])) = length L
       \<and> length (m_distances (foldl (fill_body L) nl0 [0..<n])) = length L
       \<and> (\<forall>b < n. m_neighbors (foldl (fill_body L) nl0 [0..<n]) ! b = (nb_id (L ! b), nb_ref_id (L ! b))
                 \<and> m_distances (foldl (fill_body L) nl0 [0..<n]) ! b = nb_distance (L ! b))"
  using assms(1)
proof (induction n)
  case 0
  then show ?case using assms(2,3) by simp
next
  case (Suc n)
  then show ?case
    by (auto simp: fill_body_def nth_list_update less_Suc_eq)
qed

text \<open>
  Without self-exclusion the materialization always succeeds, and the per-pair driver
  then hands out the bonds of all query points, sorted, each with its query index, point
  index and distance, and with the weight that \<^verbatim>\<open>memset\<close> left.
\<close>

lemma roundtrip_result:
  "\<exists>nl. toNeighborList False n_query_points n_points w0 terminator query = Inr nl
        \<and> loopOverNeighbors nl =
            map (\<lambda>b. NeighborBond (nb_id b) (nb_ref_id b) (nb_distance b) memset_weight)
                (sort_key less_as_tuple_key
                   (concat (map (\<lambda>i. map (restamp w0 i) (query i)) [0..<n_query_points])))"
proof -
  let ?L = "sort_key less_as_tuple_key
              (concat (map (\<lambda>i. map (restamp w0 i) (query i)) [0..<n_query_points]))"
  let ?nl0 = "\<lparr>m_num_points = 0, m_num_query_points = 0, m_neighbors = [],
               m_weights = [], m_distances = [], m_counts = [], m_segments = []\<rparr>"
  let ?nl2 = "setNumBonds (length ?L) n_query_points n_points (resize (length ?L) False ?nl0)"
  let ?nl3 = "foldl (fill_body ?L) ?nl2 [0..<length ?L]"
  have l2: "length (m_neighbors ?nl2) = length ?L" "length (m_distances ?nl2) = length ?L"
    by (simp_all add: setNumBonds_def resize_def prepare_def getNumBonds_def)
  note f = fill_loop [OF order_refl l2]
  have res: "toNeighborList False n_query_points n_points w0 terminator query =
          Inr (?nl3\<lparr>m_weights := memset_floats 1 (length ?L)\<rparr>)"
    by (simp add: toNeighborList_def collect_all Let_def)
  from f have len3: "length (m_neighbors ?nl3) = length ?L"
    and cell: "\<And>b. b < length ?L \<Longrightarrow>
      m_neighbors ?nl3 ! b = (nb_id (?L ! b), nb_ref_id (?L ! b))
      \<and> m_distances ?nl3 ! b = nb_distance (?L ! b)"
    by blast+
  have w: "memset_floats 1 (length ?L) = replicate (length ?L) memset_weight"
    using memset_one [of "length ?L"] by (simp add: memset_weight_def)
  have "loopOverNeighbors (?nl3\<lparr>m_weights := memset_floats 1 (length ?L)\<rparr>) =
          map (\<lambda>b. NeighborBond (nb_id b) (nb_ref_id b) (nb_distance b) memset_weight) ?L"
    unfolding w using len3 cell
    by (intro nth_equalityI) (simp_all add: loopOverNeighbors_def getNumBonds_def)
  with res show ?thesis by simp
qed

text \<open>
  C7. One query point whose iterator yields a single bond (0, 1, 0.5) of any weight
  \<open>w\<close>, without self-exclusion, whatever the terminator and the default weight of the
  three-argument constructor are. Materializing and then iterating the bond list with
  the per-pair driver gives the bond (0, 1, 0.5) with weight \<open>8454401 / 2 ^ 148\<close> (about
  2.4e-38), the single whose four bytes are all 1, and not the weight of the stream
  (1, say): \<^verbatim>\<open>memset\<close> with the value 1 fills bytes, not floats.
\<close>

theorem roundtrip_changes_weight:
  "map_sum id loopOverNeighbors
     (toNeighborList False 1 2 w0 terminator (\<lambda>i. [NeighborBond 0 1 (1 / 2) w]))
   = Inr [NeighborBond 0 1 (1 / 2) (8454401 / 2 ^ 148)]
   \<and> NeighborBond 0 1 (1 / 2) (8454401 / 2 ^ 148) \<noteq> NeighborBond 0 1 (1 / 2) 1"
  by (simp add: toNeighborList_def collect_query_def collect_body_def pop_back_def
       less_as_tuple_key_def setNumBonds_def resize_def prepare_def getNumBonds_def fill_body_def
       loopOverNeighbors_def memset_one Let_def)

end
